(* ===== verification/Cordis_Prelude.thy ===== *)
theory Cordis_Prelude
  imports Main "HOL-Library.Word" "HOL-Library.Product_Lexorder"
begin

text \<open>
  Shared vocabulary of the development: Go strings as sequences of code points, Go's fixed-width
  signed integers, the error-and-state transactions in which the services' handlers are written,
  SQL tables as row lists with the statements the stores issue, and the generic interfaces
  (locales) for keyed tables, transaction contracts and transition systems.
\<close>

unbundle bit_operations_syntax

named_theorems tx_simps \<open>rewrite rules for transaction combinators\<close>
named_theorems tbl_simps \<open>rewrite rules for table statements\<close>

section \<open>Strings and integers\<close>

text \<open>
  Request strings are protobuf strings, hence valid UTF-8; a Go string is modelled by its list of
  code points. \<open>byte_len\<close> is \<^verbatim>\<open>len(s)\<close> (bytes of the UTF-8 encoding), \<open>length\<close> is
  \<^verbatim>\<open>utf8.RuneCountInString(s)\<close>, \<open>trim_space\<close> is \<^verbatim>\<open>strings.TrimSpace\<close>.
\<close>

type_synonym rune = nat
type_synonym gostring = "rune list"
type_synonym int64 = int
type_synonym int32 = int

definition str :: "string \<Rightarrow> gostring" where
  "str s = map of_char s"

definition is_space :: "rune \<Rightarrow> bool" where
  "is_space r \<longleftrightarrow> r \<in> {9, 10, 11, 12, 13, 32, 133, 160, 5760, 8232, 8233, 8239, 8287, 12288}
     \<or> (8192 \<le> r \<and> r \<le> 8202)"

definition trim_space :: "gostring \<Rightarrow> gostring" where
  "trim_space s = rev (dropWhile is_space (rev (dropWhile is_space s)))"

definition rune_len :: "rune \<Rightarrow> nat" where
  "rune_len r = (if r < 128 then 1 else if r < 2048 then 2 else if r < 65536 then 3 else 4)"

definition byte_len :: "gostring \<Rightarrow> nat" where
  "byte_len s = sum_list (map rune_len s)"

text \<open>Go's conversions and arithmetic at type \<^verbatim>\<open>int32\<close> and \<^verbatim>\<open>int64\<close> wrap around.\<close>

definition wrap32 :: "int \<Rightarrow> int32" where
  "wrap32 x = (x + 2 ^ 31) mod 2 ^ 32 - 2 ^ 31"

definition wrap64 :: "int \<Rightarrow> int64" where
  "wrap64 x = (x + 2 ^ 63) mod 2 ^ 64 - 2 ^ 63"

abbreviation MaxInt32 :: int32 where
  "MaxInt32 \<equiv> 2147483647"

text \<open>\<^verbatim>\<open>strconv.FormatInt(n, 10)\<close>.\<close>

fun format_nat :: "nat \<Rightarrow> gostring" where
  "format_nat n = (if n < 10 then [48 + n] else format_nat (n div 10) @ [48 + n mod 10])"

declare format_nat.simps [simp del]

definition format_int :: "int \<Rightarrow> gostring" where
  "format_int n = (if n < 0 then 45 # format_nat (nat (- n)) else format_nat (nat n))"

text \<open>Go's bit clear operator \<^verbatim>\<open>a &^ b\<close>.\<close>

definition and_not :: "'a::len word \<Rightarrow> 'a word \<Rightarrow> 'a word" where
  "and_not a b = a AND NOT b"

subsection \<open>Lemmas\<close>

lemma trim_space_idem [simp]: "trim_space (trim_space s) = trim_space s"
proof -
  let ?D = "dropWhile is_space"
  have keep: "?D (rev (?D (rev (?D t)))) = rev (?D (rev (?D t)))" for t
  proof (cases "?D t")
    case Nil
    then show ?thesis unfolding Nil by simp
  next
    case (Cons a u)
    then have a: "\<not> is_space a" by (metis hd_dropWhile list.distinct(1) list.sel(1))
    have "?D (rev (a # u)) = ?D (rev u) @ [a]"
      using a by (cases "\<forall>x\<in>set (rev u). is_space x") (auto simp: dropWhile_append)
    with Cons a show ?thesis by simp
  qed
  show ?thesis unfolding trim_space_def keep by (simp add: dropWhile_idem)
qed

lemma wrap32_id [simp]: "- (2 ^ 31) \<le> x \<Longrightarrow> x < 2 ^ 31 \<Longrightarrow> wrap32 x = x"
  by (simp add: wrap32_def)

lemma wrap32_bounds: "- (2 ^ 31) \<le> wrap32 x" "wrap32 x < 2 ^ 31"
  by (simp_all add: wrap32_def)

lemma wrap64_id [simp]: "- (2 ^ 63) \<le> x \<Longrightarrow> x < 2 ^ 63 \<Longrightarrow> wrap64 x = x"
  by (simp add: wrap64_def)

lemma format_nat_neq_Nil [simp]: "format_nat n \<noteq> []"
  by (subst format_nat.simps) simp

lemma format_nat_digits: "d \<in> set (format_nat n) \<Longrightarrow> 48 \<le> d \<and> d \<le> 57"
proof (induction n arbitrary: d rule: format_nat.induct)
  case (1 n)
  then show ?case
    by (subst (asm) (2) format_nat.simps) (auto split: if_splits)
qed

definition parse_nat :: "gostring \<Rightarrow> nat" where
  "parse_nat = foldl (\<lambda>a d. 10 * a + (d - 48)) 0"

lemma parse_format_nat [simp]: "parse_nat (format_nat n) = n"
proof (induction n rule: format_nat.induct)
  case (1 n)
  then show ?case
    by (subst format_nat.simps) (auto simp: parse_nat_def)
qed

lemma format_nat_inj: "format_nat m = format_nat n \<longleftrightarrow> m = n"
  by (metis parse_format_nat)

lemma format_int_inj: "format_int m = format_int n \<longleftrightarrow> m = n"
proof
  assume eq: "format_int m = format_int n"
  have no_minus: "format_nat k \<noteq> 45 # xs" for k xs
    using format_nat_digits[of 45 k] by auto
  show "m = n"
    using eq no_minus no_minus[symmetric]
    by (auto simp: format_int_def format_nat_inj split: if_splits)
qed simp

lemma and_not_zero_iff: "and_not a b = 0 \<longleftrightarrow> (\<forall>n. bit a n \<longrightarrow> bit b n)"
  by (auto simp: and_not_def bit_eq_iff bit_simps dest: bit_imp_le_length)

lemma and_eq_self_iff: "(a::'a::len word) AND b = b \<longleftrightarrow> (\<forall>n. bit b n \<longrightarrow> bit a n)"
  by (auto simp: bit_eq_iff bit_simps dest: bit_imp_le_length)


section \<open>Transactions\<close>

text \<open>
  A transaction reads and writes the service's database and either fails with an error or returns a
  value with the new database. \<^verbatim>\<open>SQLStore.Transact\<close> rolls back on error, so a failed
  transaction has no final state: the caller keeps the one it started from.
\<close>

type_synonym ('s, 'e, 'a) tx = "'s \<Rightarrow> 'e + ('a \<times> 's)"

definition tx_return :: "'a \<Rightarrow> ('s, 'e, 'a) tx" where
  "tx_return x = (\<lambda>s. Inr (x, s))"

definition tx_fail :: "'e \<Rightarrow> ('s, 'e, 'a) tx" where
  "tx_fail e = (\<lambda>s. Inl e)"

definition tx_bind :: "('s, 'e, 'a) tx \<Rightarrow> ('a \<Rightarrow> ('s, 'e, 'b) tx) \<Rightarrow> ('s, 'e, 'b) tx" where
  "tx_bind m f = (\<lambda>s. case m s of Inl e \<Rightarrow> Inl e | Inr (x, s') \<Rightarrow> f x s')"

definition tx_then :: "('s, 'e, 'a) tx \<Rightarrow> ('s, 'e, 'b) tx \<Rightarrow> ('s, 'e, 'b) tx" where
  "tx_then m n = tx_bind m (\<lambda>_. n)"

text \<open>A Go guard \<^verbatim>\<open>if !b { return err }\<close>.\<close>

definition tx_require :: "bool \<Rightarrow> 'e \<Rightarrow> ('s, 'e, unit) tx" where
  "tx_require b e = (if b then tx_return () else tx_fail e)"

definition tx_lift :: "'e + 'a \<Rightarrow> ('s, 'e, 'a) tx" where
  "tx_lift r = (\<lambda>s. case r of Inl e \<Rightarrow> Inl e | Inr x \<Rightarrow> Inr (x, s))"

text \<open>A read-only statement, with or without the possibility of failure.\<close>

definition tx_read :: "('s \<Rightarrow> 'a) \<Rightarrow> ('s, 'e, 'a) tx" where
  "tx_read f = (\<lambda>s. Inr (f s, s))"

definition tx_query :: "('s \<Rightarrow> 'e + 'a) \<Rightarrow> ('s, 'e, 'a) tx" where
  "tx_query q = (\<lambda>s. case q s of Inl e \<Rightarrow> Inl e | Inr x \<Rightarrow> Inr (x, s))"

definition tx_modify :: "('s \<Rightarrow> 's) \<Rightarrow> ('s, 'e, unit) tx" where
  "tx_modify f = (\<lambda>s. Inr ((), f s))"

definition tx_map_error :: "('e \<Rightarrow> 'e) \<Rightarrow> ('s, 'e, 'a) tx \<Rightarrow> ('s, 'e, 'a) tx" where
  "tx_map_error g m = (\<lambda>s. case m s of Inl e \<Rightarrow> Inl (g e) | Inr r \<Rightarrow> Inr r)"

text \<open>A call whose error the caller inspects instead of returning it at once.\<close>

definition tx_try :: "('s, 'e, 'a) tx \<Rightarrow> ('s, 'e, 'e + 'a) tx" where
  "tx_try m = (\<lambda>s. case m s of Inl e \<Rightarrow> Inr (Inl e, s) | Inr (x, s') \<Rightarrow> Inr (Inr x, s'))"

primrec tx_forM :: "('x \<Rightarrow> ('s, 'e, 'a) tx) \<Rightarrow> 'x list \<Rightarrow> ('s, 'e, 'a list) tx" where
  "tx_forM f [] = tx_return []"
| "tx_forM f (x # xs) = tx_bind (f x) (\<lambda>y. tx_bind (tx_forM f xs) (\<lambda>ys. tx_return (y # ys)))"

lemmas tx_defs = tx_return_def tx_fail_def tx_bind_def tx_then_def tx_require_def tx_lift_def
  tx_read_def tx_query_def tx_modify_def tx_map_error_def tx_try_def

subsection \<open>Success of a transaction, decomposed\<close>

lemma tx_return_Inr [tx_simps]: "tx_return x s = Inr (y, s') \<longleftrightarrow> y = x \<and> s' = s"
  by (auto simp: tx_return_def)

lemma tx_fail_Inr [tx_simps]: "tx_fail e s = Inr r \<longleftrightarrow> False"
  by (simp add: tx_fail_def)

lemma tx_bind_Inr [tx_simps]:
  "tx_bind m f s = Inr r \<longleftrightarrow> (\<exists>x s'. m s = Inr (x, s') \<and> f x s' = Inr r)"
  by (auto simp: tx_bind_def split: sum.splits)

lemma tx_then_Inr [tx_simps]:
  "tx_then m n s = Inr r \<longleftrightarrow> (\<exists>x s'. m s = Inr (x, s') \<and> n s' = Inr r)"
  by (simp add: tx_then_def tx_bind_Inr)

lemma tx_require_Inr [tx_simps]: "tx_require b e s = Inr (u, s') \<longleftrightarrow> b \<and> s' = s"
  by (auto simp: tx_require_def tx_return_def tx_fail_def)

lemma tx_lift_Inr [tx_simps]: "tx_lift r s = Inr (x, s') \<longleftrightarrow> r = Inr x \<and> s' = s"
  by (auto simp: tx_lift_def split: sum.splits)

lemma tx_read_Inr [tx_simps]: "tx_read f s = Inr (x, s') \<longleftrightarrow> x = f s \<and> s' = s"
  by (auto simp: tx_read_def)

lemma tx_query_Inr [tx_simps]: "tx_query q s = Inr (x, s') \<longleftrightarrow> q s = Inr x \<and> s' = s"
  by (auto simp: tx_query_def split: sum.splits)

lemma tx_modify_Inr [tx_simps]: "tx_modify f s = Inr (u, s') \<longleftrightarrow> s' = f s"
  by (auto simp: tx_modify_def)

lemma tx_map_error_Inr [tx_simps]: "tx_map_error g m s = Inr r \<longleftrightarrow> m s = Inr r"
  by (auto simp: tx_map_error_def split: sum.splits)

lemma tx_try_Inr [tx_simps]:
  "tx_try m s = Inr (x, s') \<longleftrightarrow>
     (case x of Inl e \<Rightarrow> m s = Inl e \<and> s' = s | Inr y \<Rightarrow> m s = Inr (y, s'))"
  by (auto simp: tx_try_def split: sum.splits)

lemma tx_if_Inr [tx_simps]:
  "(if b then m else n) s = Inr r \<longleftrightarrow> (b \<longrightarrow> m s = Inr r) \<and> (\<not> b \<longrightarrow> n s = Inr r)"
  by simp

lemma tx_forM_Cons_Inr [tx_simps]:
  "tx_forM f (x # xs) s = Inr (r, s') \<longleftrightarrow>
     (\<exists>y t ys. f x s = Inr (y, t) \<and> tx_forM f xs t = Inr (ys, s') \<and> r = y # ys)"
  by (auto simp: tx_bind_Inr tx_return_Inr)

lemma tx_forM_Nil_Inr [tx_simps]: "tx_forM f [] s = Inr (r, s') \<longleftrightarrow> r = [] \<and> s' = s"
  by (auto simp: tx_return_Inr)

lemma tx_forM_length: "tx_forM f xs s = Inr (ys, s') \<Longrightarrow> length ys = length xs"
  by (induction xs arbitrary: s ys) (auto simp: tx_simps simp del: tx_forM.simps)

declare tx_forM.simps [simp del]

subsection \<open>Contracts of transactions\<close>

text \<open>
  \<open>tx_rel R m\<close>: whenever \<open>m\<close> succeeds, the final database is related by \<open>R\<close> to the initial
  one. For a reflexive and transitive \<open>R\<close> the contract of a handler follows from the contracts of
  the store calls it makes; the locale collects the composition rules.
\<close>

definition tx_rel :: "('s \<Rightarrow> 's \<Rightarrow> bool) \<Rightarrow> ('s, 'e, 'a) tx \<Rightarrow> bool" where
  "tx_rel R m \<longleftrightarrow> (\<forall>s x s'. m s = Inr (x, s') \<longrightarrow> R s s')"

lemma tx_relD: "tx_rel R m \<Longrightarrow> m s = Inr (x, s') \<Longrightarrow> R s s'"
  by (simp add: tx_rel_def)

locale tx_contract =
  fixes R :: "'s \<Rightarrow> 's \<Rightarrow> bool"
  assumes R_refl: "R s s"
    and R_trans: "R s t \<Longrightarrow> R t u \<Longrightarrow> R s u"
begin

lemma rel_return: "tx_rel R (tx_return x)"
  by (auto simp: tx_rel_def tx_simps R_refl)

lemma rel_fail: "tx_rel R (tx_fail e)"
  by (auto simp: tx_rel_def tx_simps)

lemma rel_bind: "tx_rel R m \<Longrightarrow> (\<And>x. tx_rel R (f x)) \<Longrightarrow> tx_rel R (tx_bind m f)"
  unfolding tx_rel_def tx_simps by (meson R_trans)

lemma rel_then: "tx_rel R m \<Longrightarrow> tx_rel R n \<Longrightarrow> tx_rel R (tx_then m n)"
  unfolding tx_rel_def tx_simps by (meson R_trans)

lemma rel_require: "tx_rel R (tx_require b e)"
  by (auto simp: tx_rel_def tx_simps R_refl)

lemma rel_lift: "tx_rel R (tx_lift r)"
  by (auto simp: tx_rel_def tx_simps R_refl)

lemma rel_read: "tx_rel R (tx_read f)"
  by (auto simp: tx_rel_def tx_simps R_refl)

lemma rel_query: "tx_rel R (tx_query q)"
  by (auto simp: tx_rel_def tx_simps R_refl)

lemma rel_map_error: "tx_rel R m \<Longrightarrow> tx_rel R (tx_map_error g m)"
  by (auto simp: tx_rel_def tx_simps)

lemma rel_try: "tx_rel R m \<Longrightarrow> tx_rel R (tx_try m)"
  by (auto simp: tx_rel_def tx_simps R_refl split: sum.splits)

lemma rel_if: "(b \<Longrightarrow> tx_rel R m) \<Longrightarrow> (\<not> b \<Longrightarrow> tx_rel R n) \<Longrightarrow> tx_rel R (if b then m else n)"
  by simp

lemma rel_forM: "(\<And>x. tx_rel R (f x)) \<Longrightarrow> tx_rel R (tx_forM f xs)"
  by (induction xs) (auto simp: tx_forM.simps intro!: rel_bind rel_return)

lemmas rel_rules = rel_return rel_fail rel_bind rel_then rel_require rel_lift rel_read rel_query
  rel_map_error rel_try rel_if rel_forM

end

subsection \<open>Reachable states\<close>

inductive reach :: "('s \<Rightarrow> bool) \<Rightarrow> ('s \<Rightarrow> 's \<Rightarrow> bool) \<Rightarrow> 's \<Rightarrow> bool" for init step where
  reach_init: "init s \<Longrightarrow> reach init step s"
| reach_step: "reach init step s \<Longrightarrow> step s t \<Longrightarrow> reach init step t"

locale invariant_system =
  fixes init :: "'s \<Rightarrow> bool" and step :: "'s \<Rightarrow> 's \<Rightarrow> bool" and inv :: "'s \<Rightarrow> bool"
  assumes inv_init: "init s \<Longrightarrow> inv s"
    and inv_step: "inv s \<Longrightarrow> step s t \<Longrightarrow> inv t"
begin

lemma reach_inv: "reach init step s \<Longrightarrow> inv s"
  by (induction rule: reach.induct) (auto intro: inv_init inv_step)

end

section \<open>SQL tables\<close>

text \<open>
  A table is the list of its rows. \<open>tbl_update p f\<close> is \<^verbatim>\<open>UPDATE \<dots> SET f WHERE p\<close>, whose
  \<^verbatim>\<open>RETURNING\<close> clause gives \<open>tbl_returning p f\<close>; \<open>tbl_delete p\<close> is
  \<^verbatim>\<open>DELETE \<dots> WHERE p\<close>; \<open>List.find p\<close> is \<^verbatim>\<open>SELECT \<dots> WHERE p LIMIT 1\<close> and
  \<open>filter p\<close> a \<^verbatim>\<open>SELECT\<close>, with \<open>sort_key\<close> for its \<^verbatim>\<open>ORDER BY\<close>.
\<close>

definition tbl_update :: "('r \<Rightarrow> bool) \<Rightarrow> ('r \<Rightarrow> 'r) \<Rightarrow> 'r list \<Rightarrow> 'r list" where
  "tbl_update p f t = map (\<lambda>r. if p r then f r else r) t"

definition tbl_returning :: "('r \<Rightarrow> bool) \<Rightarrow> ('r \<Rightarrow> 'r) \<Rightarrow> 'r list \<Rightarrow> 'r list" where
  "tbl_returning p f t = map f (filter p t)"

definition tbl_delete :: "('r \<Rightarrow> bool) \<Rightarrow> 'r list \<Rightarrow> 'r list" where
  "tbl_delete p t = filter (\<lambda>r. \<not> p r) t"

lemma set_tbl_update [tbl_simps]:
  "r \<in> set (tbl_update p f t) \<longleftrightarrow> (\<exists>q\<in>set t. r = (if p q then f q else q))"
  by (auto simp: tbl_update_def)

lemma set_tbl_delete [tbl_simps]: "r \<in> set (tbl_delete p t) \<longleftrightarrow> r \<in> set t \<and> \<not> p r"
  by (simp add: tbl_delete_def)

lemma map_tbl_update [tbl_simps]: "(\<And>r. k (f r) = k r) \<Longrightarrow> map k (tbl_update p f t) = map k t"
  by (simp add: tbl_update_def)

lemma distinct_tbl_delete: "distinct (map k t) \<Longrightarrow> distinct (map k (tbl_delete p t))"
  by (simp add: tbl_delete_def distinct_map_filter)

lemma length_tbl_update [simp]: "length (tbl_update p f t) = length t"
  by (simp add: tbl_update_def)

lemma find_distinct_key:
  "distinct (map k t) \<Longrightarrow> r \<in> set t \<Longrightarrow> (\<And>q. p q \<longleftrightarrow> k q = k r \<and> c q) \<Longrightarrow> c r \<Longrightarrow> List.find p t = Some r"
  by (induction t) (auto simp: image_iff)

lemma find_SomeD: "List.find p t = Some r \<Longrightarrow> r \<in> set t \<and> p r"
  by (auto simp: find_Some_iff in_set_conv_nth)

lemma inj_on_distinct_key: "distinct (map k t) \<Longrightarrow> r \<in> set t \<Longrightarrow> q \<in> set t \<Longrightarrow> k r = k q \<Longrightarrow> r = q"
  by (auto simp: distinct_map inj_on_def)


lemma sort_key_eq_Nil [simp]: "sort_key f xs = [] \<longleftrightarrow> xs = []"
  by (metis set_empty set_sort)

end
