(* ===== verification/Outbox.thy ===== *)
theory Outbox
  imports Cordis_Prelude
begin

text \<open>
  The transactional outbox of \<^verbatim>\<open>pkg/outbox\<close>: per-stream sequence reservation, batch insert,
  selection of the head record of every stream, acknowledgement and backoff. The two tables are a
  record of row lists; the payload type is a parameter, since each service stores its own events.
\<close>

section \<open>Tables and rows\<close>

record stream_row =
  st_key :: gostring
  st_shard :: int
  st_last :: int64

record 'p outbox_record =
  ob_outbox_id :: int64
  ob_event_id :: int64
  ob_delivery_index :: int
  ob_stream_key :: gostring
  ob_relay_shard_id :: int
  ob_stream_sequence :: int64
  ob_topic :: gostring
  ob_event_type :: gostring
  ob_key :: gostring
  ob_payload :: 'p
  ob_trace_context :: gostring
  ob_attempts :: int
  ob_next_attempt_at :: int64
  ob_created_at :: int64

record 'p outbox =
  ob_streams :: "stream_row list"
  ob_events :: "'p outbox_record list"

record reserved_range =
  rr_first :: int64
  rr_last :: int64
  rr_shard :: int

record failed_update =
  fu_outbox_id :: int64
  fu_attempts :: int
  fu_next_attempt_at :: int64

text \<open>
  What the helpers can fail with: their own argument check, a missing stream row, a violated
  uniqueness or check constraint of the events table, and the shard-count panic.
\<close>

datatype outbox_error = SequenceCountNotPositive | StreamNoRows | OutboxUniqueViolation
  | OutboxCheckViolation | ShardCountPanic

section \<open>Shards\<close>

definition utf8 :: "rune \<Rightarrow> 64 word list" where
  "utf8 r = map of_nat
     (if r < 128 then [r]
      else if r < 2048 then [192 + r div 64, 128 + r mod 64]
      else if r < 65536 then [224 + r div 4096, 128 + r div 64 mod 64, 128 + r mod 64]
      else [240 + r div 262144, 128 + r div 4096 mod 64, 128 + r div 64 mod 64, 128 + r mod 64])"

text \<open>\<^verbatim>\<open>hash/fnv\<close>'s 64-bit FNV-1a.\<close>

definition fnv64a :: "64 word list \<Rightarrow> 64 word" where
  "fnv64a = foldl (\<lambda>h b. (h XOR b) * 1099511628211) 14695981039346656037"

definition ShardID :: "gostring \<Rightarrow> int \<Rightarrow> outbox_error + int" where
  "ShardID streamKey shardCount =
     (if shardCount \<le> 0 then Inl ShardCountPanic
      else Inr (int (unat (fnv64a (concat (map utf8 streamKey)) mod of_int shardCount))))"

section \<open>Writer side\<close>

definition EnsureStream :: "gostring \<Rightarrow> int \<Rightarrow> 'p outbox \<Rightarrow> 'p outbox" where
  "EnsureStream streamKey shardID ob =
     (if \<exists>r\<in>set (ob_streams ob). st_key r = streamKey then ob
      else ob\<lparr>ob_streams := ob_streams ob @ [\<lparr>st_key = streamKey, st_shard = shardID, st_last = 0\<rparr>]\<rparr>)"

definition ReserveSequences ::
  "gostring \<Rightarrow> int \<Rightarrow> 'p outbox \<Rightarrow> outbox_error + (reserved_range \<times> 'p outbox)" where
  "ReserveSequences streamKey count ob =
     (if count \<le> 0 then Inl SequenceCountNotPositive
      else case List.find (\<lambda>r. st_key r = streamKey) (ob_streams ob) of
        None \<Rightarrow> Inl StreamNoRows
      | Some r \<Rightarrow>
          Inr (\<lparr>rr_first = st_last r + count - count + 1, rr_last = st_last r + count, rr_shard = st_shard r\<rparr>,
               ob\<lparr>ob_streams := tbl_update (\<lambda>r. st_key r = streamKey)
                    (\<lambda>r. r\<lparr>st_last := st_last r + count\<rparr>) (ob_streams ob)\<rparr>))"

text \<open>The check constraints and unique keys of the events table (each service's outbox migration).\<close>

definition outbox_row_ok :: "'p outbox_record \<Rightarrow> bool" where
  "outbox_row_ok r \<longleftrightarrow> 0 < ob_outbox_id r \<and> 0 < ob_event_id r \<and> 0 \<le> ob_delivery_index r
     \<and> 0 \<le> ob_relay_shard_id r \<and> 0 < ob_stream_sequence r \<and> ob_topic r \<noteq> [] \<and> ob_event_type r \<noteq> []
     \<and> 0 \<le> ob_attempts r \<and> 0 \<le> ob_next_attempt_at r \<and> 0 < ob_created_at r"

definition outbox_keys_ok :: "'p outbox_record list \<Rightarrow> bool" where
  "outbox_keys_ok rs \<longleftrightarrow> distinct (map ob_outbox_id rs)
     \<and> distinct (map (\<lambda>r. (ob_stream_key r, ob_stream_sequence r)) rs)
     \<and> distinct (map (\<lambda>r. (ob_event_id r, ob_delivery_index r)) rs)"

definition InsertBatch :: "'p outbox_record list \<Rightarrow> 'p outbox \<Rightarrow> outbox_error + 'p outbox" where
  "InsertBatch records ob =
     (if records = [] then Inr ob
      else if \<not> list_all outbox_row_ok records then Inl OutboxCheckViolation
      else if \<not> outbox_keys_ok (ob_events ob @ records) then Inl OutboxUniqueViolation
      else Inr (ob\<lparr>ob_events := ob_events ob @ records\<rparr>))"

section \<open>Relay side\<close>

text \<open>\<^verbatim>\<open>SELECT DISTINCT ON (k)\<close>: the first row of every key, in the given order.\<close>

function distinct_on :: "('r \<Rightarrow> 'k) \<Rightarrow> 'r list \<Rightarrow> 'r list" where
  "distinct_on k [] = []"
| "distinct_on k (x # xs) = x # distinct_on k (filter (\<lambda>y. k y \<noteq> k x) xs)"
  by pat_completeness auto
termination
  by (relation "measure (\<lambda>(k, xs). length xs)") (auto simp: le_imp_less_Suc)

definition stream_heads :: "int \<Rightarrow> 'p outbox_record list \<Rightarrow> 'p outbox_record list" where
  "stream_heads shardID evs =
     distinct_on ob_stream_key (sort_key ob_stream_sequence (filter (\<lambda>r. ob_relay_shard_id r = shardID) evs))"

definition SelectHeads :: "int \<Rightarrow> int64 \<Rightarrow> int64 \<Rightarrow> 'p outbox_record list \<Rightarrow> 'p outbox_record list" where
  "SelectHeads shardID now limit evs =
     take (nat limit) (sort_key (\<lambda>r. (ob_created_at r, ob_outbox_id r))
       (filter (\<lambda>r. ob_next_attempt_at r \<le> now) (stream_heads shardID evs)))"

definition DeleteDelivered :: "int64 list \<Rightarrow> 'p outbox_record list \<Rightarrow> 'p outbox_record list" where
  "DeleteDelivered outboxIDs evs = tbl_delete (\<lambda>r. ob_outbox_id r \<in> set outboxIDs) evs"

definition UpdateFailed :: "failed_update list \<Rightarrow> 'p outbox_record list \<Rightarrow> 'p outbox_record list" where
  "UpdateFailed updates evs =
     map (\<lambda>r. case List.find (\<lambda>u. fu_outbox_id u = ob_outbox_id r) updates of
                None \<Rightarrow> r
              | Some u \<Rightarrow> r\<lparr>ob_attempts := wrap32 (fu_attempts u), ob_next_attempt_at := fu_next_attempt_at u\<rparr>) evs"

definition ListReadyShards :: "int64 \<Rightarrow> 'p outbox_record list \<Rightarrow> int list" where
  "ListReadyShards now evs =
     sort (remdups (map ob_relay_shard_id (filter (\<lambda>r. ob_next_attempt_at r \<le> now) evs)))"

section \<open>Properties of the statements\<close>

lemma ShardID_Inr: "ShardID k n = Inr s \<longleftrightarrow> 0 < n \<and> s = int (unat (fnv64a (concat (map utf8 k)) mod of_int n))"
  by (auto simp: ShardID_def)
lemma ShardID_range: 
  assumes "ShardID k n = Inr s" "n < 2 ^ 63" shows "0 \<le> s \<and> s < n"
proof -
  have pos: "0 < n" and s: "s = int (unat (fnv64a (concat (map utf8 k)) mod of_int n))"
    using assms(1) by (simp_all add: ShardID_Inr)
  have w: "(of_int n :: 64 word) = of_nat (nat n)" using pos by simp
  have "unat (of_nat (nat n) :: 64 word) = nat n"
    using assms(2) by (simp add: unat_of_nat)
  then have "s = int (unat (fnv64a (concat (map utf8 k))) mod nat n)"
    unfolding s w unat_mod_distrib by simp
  then show ?thesis using pos by (simp add: zmod_int)
qed

lemma distinct_on_subset: "set (distinct_on k xs) \<subseteq> set xs"
  by (induction k xs rule: distinct_on.induct) auto

lemma distinct_on_keys: "distinct (map k (distinct_on k xs))"
proof (induction k xs rule: distinct_on.induct)
  case (2 k x xs)
  then show ?case using distinct_on_subset[of k "filter (\<lambda>y. k y \<noteq> k x) xs"] by auto
qed simp

lemma distinct_on_covers: "x \<in> set xs \<Longrightarrow> \<exists>y\<in>set (distinct_on k xs). k y = k x"
proof (induction k xs rule: distinct_on.induct)
  case (2 k y xs)
  then show ?case by (cases "k x = k y") auto
qed simp

lemma distinct_on_least:
  "sorted (map f xs) \<Longrightarrow> y \<in> set (distinct_on k xs) \<Longrightarrow> x \<in> set xs \<Longrightarrow> k x = k y \<Longrightarrow> f y \<le> f x"
proof (induction k xs rule: distinct_on.induct)
  case (2 k z xs)
  let ?rest = "filter (\<lambda>y. k y \<noteq> k z) xs"
  have sub: "set (distinct_on k ?rest) \<subseteq> set ?rest" by (rule distinct_on_subset)
  show ?case
  proof (cases "y = z")
    case True
    then show ?thesis using "2.prems"(1,3) by (simp add: image_iff) blast
  next
    case False
    with "2.prems"(2) sub have y: "y \<in> set (distinct_on k ?rest)" "k y \<noteq> k z" by auto
    have "sorted (map f ?rest)" using "2.prems"(1) by (simp add: sorted_filter)
    moreover have "x \<in> set ?rest" using "2.prems"(3,4) y by auto
    ultimately show ?thesis using "2.IH" y(1) "2.prems"(4) by simp
  qed
qed simp

lemma stream_headsD:
  assumes "h \<in> set (stream_heads shard evs)"
  shows "h \<in> set evs" "ob_relay_shard_id h = shard"
    "e \<in> set evs \<Longrightarrow> ob_relay_shard_id e = shard \<Longrightarrow> ob_stream_key e = ob_stream_key h
       \<Longrightarrow> ob_stream_sequence h \<le> ob_stream_sequence e"
proof -
  define xs where "xs = sort_key ob_stream_sequence (filter (\<lambda>r. ob_relay_shard_id r = shard) evs)"
  have h: "h \<in> set (distinct_on ob_stream_key xs)" using assms by (simp add: stream_heads_def xs_def)
  have "h \<in> set xs" using h distinct_on_subset by (metis subsetD)
  then show "h \<in> set evs" "ob_relay_shard_id h = shard" by (simp_all add: xs_def)
  have "sorted (map ob_stream_sequence xs)" by (simp add: xs_def)
  moreover assume "e \<in> set evs" "ob_relay_shard_id e = shard" "ob_stream_key e = ob_stream_key h"
  moreover from this have "e \<in> set xs" by (simp add: xs_def)
  ultimately show "ob_stream_sequence h \<le> ob_stream_sequence e"
    using distinct_on_least[of ob_stream_sequence xs h ob_stream_key e] h by simp
qed

lemma stream_heads_cover:
  "e \<in> set evs \<Longrightarrow> \<exists>h\<in>set (stream_heads (ob_relay_shard_id e) evs). ob_stream_key h = ob_stream_key e"
  unfolding stream_heads_def by (rule distinct_on_covers) simp

lemma stream_heads_distinct: "distinct (map ob_stream_key (stream_heads shard evs))"
  unfolding stream_heads_def by (rule distinct_on_keys)

lemma SelectHeads_subset:
  "h \<in> set (SelectHeads shard now limit evs) \<Longrightarrow>
     h \<in> set (stream_heads shard evs) \<and> ob_next_attempt_at h \<le> now"
  by (auto simp: SelectHeads_def dest: in_set_takeD)

lemma SelectHeads_distinct: "distinct (map ob_stream_key (SelectHeads shard now limit evs))"
proof -
  let ?p = "\<lambda>r. ob_next_attempt_at r \<le> now"
  let ?hs = "stream_heads shard evs"
  let ?s = "sort_key (\<lambda>r. (ob_created_at r, ob_outbox_id r)) (filter ?p ?hs)"
  have "distinct (map ob_stream_key (filter ?p ?hs))"
    by (rule distinct_map_filter[OF stream_heads_distinct])
  then have "distinct (map ob_stream_key ?s)"
    by (auto simp: distinct_map)
  then have "distinct (take (nat limit) (map ob_stream_key ?s))" by (rule distinct_take)
  then show ?thesis by (simp add: SelectHeads_def take_map)
qed

lemma SelectHeads_nonempty:
  "h \<in> set (stream_heads shard evs) \<Longrightarrow> ob_next_attempt_at h \<le> now \<Longrightarrow> 0 < limit \<Longrightarrow>
     SelectHeads shard now limit evs \<noteq> []"
  by (auto simp: SelectHeads_def filter_empty_conv)

end
