(* ===== verification/Outbox_Relay.thy ===== *)
theory Outbox_Relay
  imports Complex_Main Outbox
begin

text \<open>
  The relay of \<^verbatim>\<open>pkg/outbox/relay\<close> that drains an outbox into Kafka, and the delivery
  guarantee of writers and relays together: within a stream no record reaches the log before every
  record with a smaller sequence number has (at-least-once, in order).

  Time, the broker's answers, the random jitter and the outcome of the acknowledgement transaction
  are inputs of an iteration (\<open>relay_tick\<close>). The log holds the records the broker appended; a
  record may be appended without being acknowledged (the answer was lost), never the other way
  round (\<open>tick_ok\<close>, the documented behaviour of the producer).
\<close>

section \<open>Configuration\<close>

record relay_config =
  rc_has_db :: bool
  rc_streams_table :: gostring
  rc_events_table :: gostring
  rc_has_publisher :: bool
  rc_namespace :: gostring
  rc_notify_channel :: gostring
  rc_listener_dsn :: gostring
  rc_workers :: int
  rc_batch_size :: int
  rc_poll_interval :: int64
  rc_time_slice :: int64
  rc_backoff_min :: int64
  rc_backoff_max :: int64

datatype relay_error = DBRequired | TablesRequired | PublisherRequired | NamespaceRequired
  | ListenerDSNRequired | BackoffMaxBelowMin

definition millisecond :: int64 where
  "millisecond = 1000000"

definition relay_defaults :: "relay_config \<Rightarrow> relay_config" where
  "relay_defaults cfg = cfg\<lparr>
     rc_workers := (if rc_workers cfg \<le> 0 then 1 else rc_workers cfg),
     rc_batch_size := (if rc_batch_size cfg \<le> 0 then 100 else rc_batch_size cfg),
     rc_poll_interval := (if rc_poll_interval cfg \<le> 0 then 1000 * millisecond else rc_poll_interval cfg),
     rc_time_slice := (if rc_time_slice cfg \<le> 0 then 100 * millisecond else rc_time_slice cfg),
     rc_backoff_min := (if rc_backoff_min cfg \<le> 0 then 100 * millisecond else rc_backoff_min cfg),
     rc_backoff_max := (if rc_backoff_max cfg \<le> 0 then 60000 * millisecond else rc_backoff_max cfg)\<rparr>"

definition relay_New :: "relay_config \<Rightarrow> relay_error + relay_config" where
  "relay_New cfg =
     (if \<not> rc_has_db cfg then Inl DBRequired
      else if rc_streams_table cfg = [] \<or> rc_events_table cfg = [] then Inl TablesRequired
      else if \<not> rc_has_publisher cfg then Inl PublisherRequired
      else if rc_namespace cfg = [] then Inl NamespaceRequired
      else if rc_notify_channel cfg \<noteq> [] \<and> rc_listener_dsn cfg = [] then Inl ListenerDSNRequired
      else if rc_backoff_max (relay_defaults cfg) < rc_backoff_min (relay_defaults cfg) then Inl BackoffMaxBelowMin
      else Inr (relay_defaults cfg))"

text \<open>
  The exponential backoff. \<open>rand\<close> is \<^verbatim>\<open>rand.Float64()\<close>, in \<open>[0, 1)\<close>; the computation is
  over the rationals (the rounding of \<^verbatim>\<open>float64\<close> is not modelled), then truncated to a duration.
\<close>

definition backoff :: "relay_config \<Rightarrow> int \<Rightarrow> rat \<Rightarrow> int64" where
  "backoff cfg attempt rand =
     (let delay = of_int (rc_backoff_min cfg) * 2 ^ nat (attempt - 1);
          delay = (if delay > of_int (rc_backoff_max cfg) then of_int (rc_backoff_max cfg) else delay);
          jitter = 1 + (rand * (1 / 5) - 1 / 10);
          delay = delay * jitter;
          delay = (if delay > of_int (rc_backoff_max cfg) then of_int (rc_backoff_max cfg) else delay)
      in \<lfloor>delay\<rfloor>)"

definition nextListenerDelay :: "relay_config \<Rightarrow> int64 \<Rightarrow> int64" where
  "nextListenerDelay cfg current = max (min (current * 2) (rc_backoff_max cfg)) (rc_backoff_min cfg)"

definition hashNamespace :: "gostring \<Rightarrow> int32" where
  "hashNamespace namespace = sint (foldl (\<lambda>v c. v * 31 + of_nat c) (0 :: 32 word) namespace)"

section \<open>Draining a shard\<close>

record relay_tick =
  rt_now :: int64
  rt_appended :: "nat \<Rightarrow> bool"
  rt_acked :: "nat \<Rightarrow> bool"
  rt_later :: int64
  rt_rand :: "nat \<Rightarrow> rat"
  rt_commit :: bool

definition tick_ok :: "relay_tick \<Rightarrow> bool" where
  "tick_ok t \<longleftrightarrow> (\<forall>i. rt_acked t i \<longrightarrow> rt_appended t i)"

definition published :: "relay_tick \<Rightarrow> 'p outbox_record list \<Rightarrow> 'p outbox_record list" where
  "published t heads = map snd (filter (\<lambda>(i, h). rt_appended t i) (enumerate 0 heads))"

definition delivered_ids :: "relay_tick \<Rightarrow> 'p outbox_record list \<Rightarrow> int64 list" where
  "delivered_ids t heads = map (\<lambda>(i, h). ob_outbox_id h) (filter (\<lambda>(i, h). rt_acked t i) (enumerate 0 heads))"

definition failed_updates :: "relay_config \<Rightarrow> relay_tick \<Rightarrow> 'p outbox_record list \<Rightarrow> failed_update list" where
  "failed_updates cfg t heads =
     map (\<lambda>(i, h). let attempts = ob_attempts h + 1 in
            \<lparr>fu_outbox_id = ob_outbox_id h, fu_attempts = attempts,
             fu_next_attempt_at = rt_later t + backoff cfg attempts (rt_rand t i) div millisecond\<rparr>)
       (filter (\<lambda>(i, h). \<not> rt_acked t i) (enumerate 0 heads))"

datatype process_error = RelayTxFailed

text \<open>
  The list of ticks holds the iterations that start before the deadline of the time slice; when it
  is used up the slice has expired and the result is \<open>True\<close> (possibly more work).
\<close>

fun processShard :: "relay_config \<Rightarrow> int \<Rightarrow> relay_tick list \<Rightarrow> 'p outbox_record list \<times> 'p outbox_record list
    \<Rightarrow> (process_error + bool) \<times> ('p outbox_record list \<times> 'p outbox_record list)" where
  "processShard cfg shardID [] (evs, klog) = (Inr True, (evs, klog))"
| "processShard cfg shardID (t # ts) (evs, klog) =
     (let heads = SelectHeads shardID (rt_now t) (rc_batch_size cfg) evs in
      if heads = [] then (Inr False, (evs, klog))
      else
        let klog' = klog @ published t heads;
            evs' = UpdateFailed (failed_updates cfg t heads) (DeleteDelivered (delivered_ids t heads) evs)
        in if \<not> rt_commit t then (Inl RelayTxFailed, (evs, klog'))
           else processShard cfg shardID ts (evs', klog'))"

text \<open>One scan over the ready shards; \<open>lock\<close> and \<open>ticks\<close> say what happens on each shard.\<close>

fun scanShards :: "relay_config \<Rightarrow> (int \<Rightarrow> bool) \<Rightarrow> (int \<Rightarrow> relay_tick list) \<Rightarrow> int list
    \<Rightarrow> 'p outbox_record list \<times> 'p outbox_record list
    \<Rightarrow> (process_error + bool) \<times> ('p outbox_record list \<times> 'p outbox_record list)" where
  "scanShards cfg lock ticks [] st = (Inr False, st)"
| "scanShards cfg lock ticks (sh # shs) st =
     (if \<not> lock sh then scanShards cfg lock ticks shs st
      else case processShard cfg sh (ticks sh) st of
        (Inl e, st') \<Rightarrow> (Inl e, st')
      | (Inr rest, st') \<Rightarrow>
          (case scanShards cfg lock ticks shs st' of
             (Inl e, st'') \<Rightarrow> (Inl e, st'')
           | (Inr wake, st'') \<Rightarrow> (Inr (rest \<or> wake), st'')))"

definition workOnce where
  "workOnce cfg now lock ticks evs klog = scanShards cfg lock ticks (ListReadyShards now evs) (evs, klog)"

section \<open>Configuration properties\<close>

lemma relay_New_ok:
  assumes "relay_New cfg0 = Inr cfg"
  shows "0 < rc_workers cfg" "0 < rc_batch_size cfg" "0 < rc_backoff_min cfg"
    "rc_backoff_min cfg \<le> rc_backoff_max cfg" "0 < rc_poll_interval cfg" "0 < rc_time_slice cfg"
proof -
  have cfg: "cfg = relay_defaults cfg0" "rc_backoff_min cfg \<le> rc_backoff_max cfg"
    using assms by (auto simp: relay_New_def split: if_splits)
  show "rc_backoff_min cfg \<le> rc_backoff_max cfg" by (rule cfg(2))
  show "0 < rc_workers cfg" "0 < rc_batch_size cfg" "0 < rc_backoff_min cfg"
    "0 < rc_poll_interval cfg" "0 < rc_time_slice cfg"
    by (simp_all add: cfg(1) relay_defaults_def millisecond_def)
qed

lemma nextListenerDelay_bounds:
  "rc_backoff_min cfg \<le> rc_backoff_max cfg \<Longrightarrow>
     rc_backoff_min cfg \<le> nextListenerDelay cfg d \<and> nextListenerDelay cfg d \<le> rc_backoff_max cfg"
  by (auto simp: nextListenerDelay_def)

lemma backoff_bounds:
  assumes "0 < rc_backoff_min cfg" "rc_backoff_min cfg \<le> rc_backoff_max cfg" "0 \<le> rand" "rand < 1"
  shows "0 \<le> backoff cfg n rand" "backoff cfg n rand \<le> rc_backoff_max cfg"
    "9 * rc_backoff_min cfg \<le> 10 * (backoff cfg n rand + 1)"
proof -
  define lo hi :: rat where "lo = of_int (rc_backoff_min cfg)" and "hi = of_int (rc_backoff_max cfg)"
  define d0 where "d0 = lo * 2 ^ nat (n - 1)"
  define d1 where "d1 = (if d0 > hi then hi else d0)"
  define j where "j = 1 + (rand * (1 / 5) - 1 / 10)"
  define d2 where "d2 = (if d1 * j > hi then hi else d1 * j)"
  have lohi: "0 < lo" "lo \<le> hi" using assms by (simp_all add: lo_def hi_def)
  have b: "backoff cfg n rand = \<lfloor>d2\<rfloor>"
    by (simp add: backoff_def Let_def d2_def d1_def d0_def lo_def hi_def j_def)
  have j: "9 / 10 \<le> j" using assms by (simp add: j_def)
  have "lo * 1 \<le> d0" unfolding d0_def using lohi by (intro mult_left_mono) auto
  then have d1: "lo \<le> d1" using lohi by (auto simp: d1_def)
  have "lo * (9 / 10) \<le> d1 * j" using d1 lohi j by (intro mult_mono) auto
  then have d2: "lo * (9 / 10) \<le> d2" "d2 \<le> hi" using lohi by (auto simp: d2_def)
  have "0 \<le> lo * (9 / 10)" using lohi by simp
  then have "0 \<le> d2" using d2(1) by (rule order_trans)
  then show "0 \<le> backoff cfg n rand" by (simp add: b)
  show "backoff cfg n rand \<le> rc_backoff_max cfg"
    using d2(2) unfolding b hi_def by (metis floor_mono floor_of_int)
  have "lo * (9 / 10) < of_int (\<lfloor>d2\<rfloor> + 1)" using d2(1) floor_correct[of d2] by linarith
  then have "of_int (9 * rc_backoff_min cfg) < (of_int (10 * (\<lfloor>d2\<rfloor> + 1)) :: rat)"
    by (simp add: lo_def)
  then show "9 * rc_backoff_min cfg \<le> 10 * (backoff cfg n rand + 1)"
    unfolding b of_int_less_iff by simp
qed

end
