(* ===== verification/Outbox_Delivery.thy ===== *)
theory Outbox_Delivery
  imports Outbox_Relay
begin

text \<open>
  Writers and relays of one outbox as a transition system, with its delivery guarantee: whatever
  interleaving of writes, scans, broker failures, lost acknowledgements and failed acknowledgement
  transactions, the Kafka log never holds a record of a stream before all its predecessors
  (\<open>log_ordered\<close>), and the pending records of a stream are exactly its undelivered suffix.
\<close>

section \<open>The contract of sequence reservation\<close>

text \<open>
  What a writer relies on: a reservation of \<open>n\<close> values on a stream starts right after the last
  value handed out on it, and touches no other stream.
\<close>

locale sequence_source =
  fixes last_of :: "'o \<Rightarrow> gostring \<Rightarrow> int64"
    and reserve :: "gostring \<Rightarrow> int \<Rightarrow> 'o \<Rightarrow> 'e + (reserved_range \<times> 'o)"
  assumes reserve_pos: "reserve k n s = Inr (rng, s') \<Longrightarrow> 0 < n"
    and reserve_first: "reserve k n s = Inr (rng, s') \<Longrightarrow> rr_first rng = last_of s k + 1"
    and reserve_last: "reserve k n s = Inr (rng, s') \<Longrightarrow> rr_last rng = last_of s k + n"
    and reserve_advance: "reserve k n s = Inr (rng, s') \<Longrightarrow> last_of s' k = rr_last rng"
    and reserve_frame: "reserve k n s = Inr (rng, s') \<Longrightarrow> j \<noteq> k \<Longrightarrow> last_of s' j = last_of s j"
begin

lemma reserve_size: "reserve k n s = Inr (rng, s') \<Longrightarrow> rr_last rng - rr_first rng + 1 = n"
  by (simp add: reserve_first reserve_last)

lemma reserve_contiguous:
  assumes "reserve k n s = Inr (r1, s1)" "reserve k m s1 = Inr (r2, s2)"
  shows "rr_first r2 = rr_last r1 + 1" "rr_last r1 < rr_first r2" "rr_first r1 \<le> rr_last r1"
  using reserve_first[OF assms(1)] reserve_last[OF assms(1)] reserve_advance[OF assms(1)]
    reserve_pos[OF assms(1)] reserve_first[OF assms(2)] by simp_all

lemma reserve_commute_frame:
  assumes "reserve j n s = Inr (r1, s1)" "reserve k m s1 = Inr (r2, s2)" "j \<noteq> k"
  shows "rr_first r2 = last_of s k + 1"
  using assms reserve_first reserve_frame by metis

end

definition stream_last :: "'p outbox \<Rightarrow> gostring \<Rightarrow> int64" where
  "stream_last ob k = (case List.find (\<lambda>r. st_key r = k) (ob_streams ob) of None \<Rightarrow> 0 | Some r \<Rightarrow> st_last r)"

lemma find_stream_update:
  "List.find (\<lambda>r. st_key r = j) (tbl_update (\<lambda>r. st_key r = k) (\<lambda>r. r\<lparr>st_last := st_last r + n\<rparr>) t)
   = map_option (\<lambda>r. if st_key r = k then r\<lparr>st_last := st_last r + n\<rparr> else r) (List.find (\<lambda>r. st_key r = j) t)"
  by (induction t) (auto simp: tbl_update_def)

interpretation outbox_seq: sequence_source stream_last ReserveSequences
proof
  fix k n and s s' :: "'a outbox" and rng j
  assume "ReserveSequences k n s = Inr (rng, s')"
  then obtain r where n: "0 < n" and r: "List.find (\<lambda>r. st_key r = k) (ob_streams s) = Some r"
    and rng: "rng = \<lparr>rr_first = st_last r + 1, rr_last = st_last r + n, rr_shard = st_shard r\<rparr>"
    and s': "ob_streams s' = tbl_update (\<lambda>r. st_key r = k) (\<lambda>r. r\<lparr>st_last := st_last r + n\<rparr>) (ob_streams s)"
    by (auto simp: ReserveSequences_def split: if_splits option.splits)
  have k: "st_key r = k" using r by (auto dest: find_SomeD)
  show "0 < n" by (rule n)
  show "rr_first rng = stream_last s k + 1" "rr_last rng = stream_last s k + n"
    by (simp_all add: rng stream_last_def r)
  show "stream_last s' k = rr_last rng"
    by (simp add: stream_last_def s' find_stream_update r k rng)
  show "j \<noteq> k \<Longrightarrow> stream_last s' j = stream_last s j"
    by (auto simp: stream_last_def s' find_stream_update dest: find_SomeD split: option.splits)
qed

section \<open>The system of writers and relays\<close>

text \<open>
  The records a writer inserts carry the reserved values in order (as
  \<^verbatim>\<open>insertGuildOutbox\<close> and its siblings build them).
\<close>

definition stamped :: "reserved_range \<Rightarrow> gostring \<Rightarrow> 'p outbox_record list \<Rightarrow> bool" where
  "stamped rng k recs \<longleftrightarrow> (\<forall>i<length recs. ob_stream_key (recs ! i) = k
     \<and> ob_relay_shard_id (recs ! i) = rr_shard rng \<and> ob_stream_sequence (recs ! i) = rr_first rng + int i)"

inductive outbox_step ::
  "relay_config \<Rightarrow> 'p outbox \<times> 'p outbox_record list \<Rightarrow> 'p outbox \<times> 'p outbox_record list \<Rightarrow> bool" for cfg where
  commit: "ReserveSequences k (int (length recs)) (EnsureStream k shard ob) = Inr (rng, ob1) \<Longrightarrow>
    stamped rng k recs \<Longrightarrow> InsertBatch recs ob1 = Inr ob2 \<Longrightarrow> outbox_step cfg (ob, klog) (ob2, klog)"
| scan: "workOnce cfg now lock ticks (ob_events ob) klog = (r, (evs, klog')) \<Longrightarrow>
    (\<forall>sh. list_all tick_ok (ticks sh)) \<Longrightarrow> outbox_step cfg (ob, klog) (ob\<lparr>ob_events := evs\<rparr>, klog')"

definition outbox_init :: "'p outbox \<times> 'p outbox_record list \<Rightarrow> bool" where
  "outbox_init s \<longleftrightarrow> ob_streams (fst s) = [] \<and> ob_events (fst s) = [] \<and> snd s = []"

definition logged :: "'p outbox_record list \<Rightarrow> gostring \<Rightarrow> int64 \<Rightarrow> bool" where
  "logged klog k s \<longleftrightarrow> (\<exists>e\<in>set klog. ob_stream_key e = k \<and> ob_stream_sequence e = s)"

definition log_ordered :: "'p outbox_record list \<Rightarrow> bool" where
  "log_ordered klog \<longleftrightarrow> (\<forall>i<length klog. \<forall>s\<ge>1. s < ob_stream_sequence (klog ! i) \<longrightarrow>
     logged (take i klog) (ob_stream_key (klog ! i)) s)"

definition seqs :: "'p outbox_record list \<Rightarrow> gostring \<Rightarrow> int64 set" where
  "seqs evs k = {ob_stream_sequence e | e. e \<in> set evs \<and> ob_stream_key e = k}"

text \<open>
  The pending records of a stream are those after some \<open>d\<close>, and everything up to \<open>d\<close> is in the log.
\<close>

definition stream_ok :: "'p outbox_record list \<Rightarrow> 'p outbox_record list \<Rightarrow> stream_row \<Rightarrow> bool" where
  "stream_ok evs klog r \<longleftrightarrow> (\<exists>d\<ge>0. d \<le> st_last r \<and> seqs evs (st_key r) = {d + 1..st_last r}
     \<and> (\<forall>s\<ge>1. s \<le> d \<longrightarrow> logged klog (st_key r) s))"

definition delivery_inv :: "stream_row list \<Rightarrow> 'p outbox_record list \<Rightarrow> 'p outbox_record list \<Rightarrow> bool" where
  "delivery_inv sts evs klog \<longleftrightarrow>
     distinct (map st_key sts) \<and> distinct (map ob_outbox_id evs)
     \<and> distinct (map (\<lambda>e. (ob_stream_key e, ob_stream_sequence e)) evs)
     \<and> (\<forall>e\<in>set evs. \<exists>r\<in>set sts. st_key r = ob_stream_key e \<and> st_shard r = ob_relay_shard_id e)
     \<and> (\<forall>r\<in>set sts. stream_ok evs klog r) \<and> log_ordered klog"

section \<open>The log\<close>

lemma logged_append [simp]: "logged (xs @ ys) k s \<longleftrightarrow> logged xs k s \<or> logged ys k s"
  by (auto simp: logged_def)

lemma log_ordered_append:
  assumes "log_ordered xs" "\<And>y s. y \<in> set ys \<Longrightarrow> 1 \<le> s \<Longrightarrow> s < ob_stream_sequence y \<Longrightarrow> logged xs (ob_stream_key y) s"
  shows "log_ordered (xs @ ys)"
  unfolding log_ordered_def
proof (intro allI impI)
  fix i s assume i: "i < length (xs @ ys)" and s: "1 \<le> s" "s < ob_stream_sequence ((xs @ ys) ! i)"
  show "logged (take i (xs @ ys)) (ob_stream_key ((xs @ ys) ! i)) s"
  proof (cases "i < length xs")
    case True
    then show ?thesis using assms(1) s by (simp add: log_ordered_def nth_append)
  next
    case False
    then have "ys ! (i - length xs) \<in> set ys" using i by (intro nth_mem) auto
    then show ?thesis using False assms(2) s by (simp add: nth_append)
  qed
qed

lemma log_ordered_prefix: "log_ordered (xs @ ys) \<Longrightarrow> log_ordered xs"
  unfolding log_ordered_def
proof (intro allI impI)
  fix i s assume a: "\<forall>i<length (xs @ ys). \<forall>s\<ge>1. s < ob_stream_sequence ((xs @ ys) ! i) \<longrightarrow>
      logged (take i (xs @ ys)) (ob_stream_key ((xs @ ys) ! i)) s"
    and i: "i < length xs" and s: "1 \<le> s" "s < ob_stream_sequence (xs ! i)"
  then show "logged (take i xs) (ob_stream_key (xs ! i)) s"
    using a[rule_format, of i s] by (simp add: nth_append)
qed

section \<open>A relay iteration\<close>

definition acked :: "relay_tick \<Rightarrow> 'p outbox_record list \<Rightarrow> 'p outbox_record list" where
  "acked t heads = map snd (filter (\<lambda>(i, h). rt_acked t i) (enumerate 0 heads))"

lemma delivered_ids_acked: "delivered_ids t heads = map ob_outbox_id (acked t heads)"
  by (simp add: delivered_ids_def acked_def case_prod_beta)

lemma acked_subset: "h \<in> set (acked t heads) \<Longrightarrow> h \<in> set heads"
  by (auto simp: acked_def in_set_enumerate_eq)

lemma published_subset: "h \<in> set (published t heads) \<Longrightarrow> h \<in> set heads"
  by (auto simp: published_def in_set_enumerate_eq)

lemma acked_published: "tick_ok t \<Longrightarrow> h \<in> set (acked t heads) \<Longrightarrow> h \<in> set (published t heads)"
  by (auto simp: acked_def published_def tick_ok_def image_iff)

lemma map_UpdateFailed:
  "(\<And>r a n. g (r\<lparr>ob_attempts := a, ob_next_attempt_at := n\<rparr>) = g r) \<Longrightarrow> map g (UpdateFailed us evs) = map g evs"
  by (auto simp: UpdateFailed_def split: option.splits)

lemma seqs_UpdateFailed [simp]: "seqs (UpdateFailed us evs) k = seqs evs k"
proof -
  let ?g = "\<lambda>e. (ob_stream_key e, ob_stream_sequence e)"
  have eq: "seqs xs k = snd ` {p \<in> set (map ?g xs). fst p = k}" for xs :: "'a outbox_record list"
    by (auto simp: seqs_def image_iff)
  have "map ?g (UpdateFailed us evs) = map ?g evs" by (rule map_UpdateFailed) simp
  then show ?thesis unfolding eq by simp
qed

lemma head_is_next:
  assumes inv: "delivery_inv sts evs klog" and h: "h \<in> set (stream_heads shard evs)"
  shows "\<exists>r\<in>set sts. \<exists>d\<ge>0. st_key r = ob_stream_key h \<and> ob_stream_sequence h = d + 1 \<and> d < st_last r
    \<and> seqs evs (st_key r) = {d + 1..st_last r} \<and> (\<forall>s\<ge>1. s \<le> d \<longrightarrow> logged klog (st_key r) s)"
proof -
  have mem: "h \<in> set evs" and sh: "ob_relay_shard_id h = shard" using stream_headsD[OF h] by auto
  obtain r where r: "r \<in> set sts" "st_key r = ob_stream_key h" "st_shard r = shard"
    using inv mem sh by (auto simp: delivery_inv_def)
  obtain d where d: "0 \<le> d" "d \<le> st_last r" "seqs evs (st_key r) = {d + 1..st_last r}"
    "\<forall>s\<ge>1. s \<le> d \<longrightarrow> logged klog (st_key r) s"
    using inv r(1) by (auto simp: delivery_inv_def stream_ok_def)
  have "ob_stream_sequence h \<in> seqs evs (st_key r)" using mem r(2) by (auto simp: seqs_def)
  then have le: "d + 1 \<le> ob_stream_sequence h" "ob_stream_sequence h \<le> st_last r" using d(3) by auto
  then have "d + 1 \<in> seqs evs (st_key r)" using d(3) by auto
  then obtain e where e: "e \<in> set evs" "ob_stream_key e = ob_stream_key h" "ob_stream_sequence e = d + 1"
    using r(2) by (auto simp: seqs_def)
  obtain q where q: "q \<in> set sts" "st_key q = ob_stream_key e" "st_shard q = ob_relay_shard_id e"
    using inv e(1) by (auto simp: delivery_inv_def)
  have "distinct (map st_key sts)" using inv by (simp add: delivery_inv_def)
  then have "q = r" using inj_on_distinct_key[of st_key sts q r] q r e(2) by simp
  then have "ob_relay_shard_id e = shard" using q(3) r(3) by simp
  then have "ob_stream_sequence h = d + 1" using stream_headsD(3)[OF h e(1)] e le by simp
  then show ?thesis using r(1,2) d le by (intro bexI[of _ r] exI[of _ d]) simp_all
qed

lemma pending_after_delivery:
  assumes inv: "delivery_inv sts evs klog" and A: "set A \<subseteq> set (stream_heads shard evs)"
    and h: "h \<in> set A" and seqk: "seqs evs (ob_stream_key h) = {d + 1..n}" "ob_stream_sequence h = d + 1"
  shows "seqs (DeleteDelivered (map ob_outbox_id A) evs) (ob_stream_key h) = {d + 2..n}"
proof -
  have inv_dist: "distinct (map ob_outbox_id evs)"
    "distinct (map (\<lambda>e. (ob_stream_key e, ob_stream_sequence e)) evs)"
    using inv by (simp_all add: delivery_inv_def)
  have hmem: "h \<in> set evs" using A h stream_headsD(1) by (metis subsetD)
  have keyinj: "e = h" if "e \<in> set evs" "ob_stream_key e = ob_stream_key h" "ob_stream_sequence e = d + 1" for e
    using inj_on_distinct_key[OF inv_dist(2) that(1) hmem] that seqk(2) by simp
  have del: "ob_outbox_id e \<in> ob_outbox_id ` set A \<longleftrightarrow> e = h"
    if "e \<in> set evs" "ob_stream_key e = ob_stream_key h" for e
  proof
    assume "ob_outbox_id e \<in> ob_outbox_id ` set A"
    then obtain a where a: "a \<in> set A" "ob_outbox_id e = ob_outbox_id a" by auto
    have "a \<in> set evs" using a A stream_headsD(1) by (metis subsetD)
    then have "e = a" using inj_on_distinct_key[OF inv_dist(1) that(1)] a(2) by simp
    moreover have "a = h"
      using inj_on_distinct_key[OF stream_heads_distinct[of shard evs], of a h] a(1) A h that(2) \<open>e = a\<close> by auto
    ultimately show "e = h" by simp
  qed (use h in simp)
  show ?thesis
  proof (intro set_eqI iffI)
    fix s assume "s \<in> seqs (DeleteDelivered (map ob_outbox_id A) evs) (ob_stream_key h)"
    then obtain e where e: "e \<in> set evs" "ob_stream_key e = ob_stream_key h" "ob_stream_sequence e = s" "e \<noteq> h"
      using del h by (auto simp: seqs_def DeleteDelivered_def tbl_simps)
    then have "s \<in> {d + 1..n}" using seqk(1) by (auto simp: seqs_def)
    moreover have "s \<noteq> d + 1" using keyinj e by auto
    ultimately show "s \<in> {d + 2..n}" by auto
  next
    fix s assume s: "s \<in> {d + 2..n}"
    then have "s \<in> seqs evs (ob_stream_key h)" using seqk(1) by simp
    then obtain e where e: "e \<in> set evs" "ob_stream_key e = ob_stream_key h" "ob_stream_sequence e = s"
      by (auto simp: seqs_def)
    have "e \<noteq> h" using e s seqk(2) by auto
    then show "s \<in> seqs (DeleteDelivered (map ob_outbox_id A) evs) (ob_stream_key h)"
      using del e by (auto simp: seqs_def DeleteDelivered_def tbl_simps)
  qed
qed

lemma stream_ok_mono: "stream_ok evs klog r \<Longrightarrow> stream_ok evs (klog @ P) r"
  unfolding stream_ok_def logged_append by metis

lemma pending_unaffected:
  assumes inv: "delivery_inv sts evs klog" and A: "set A \<subseteq> set (stream_heads shard evs)"
    and none: "\<forall>h\<in>set A. ob_stream_key h \<noteq> k"
  shows "seqs (DeleteDelivered (map ob_outbox_id A) evs) k = seqs evs k"
proof -
  have dist: "distinct (map ob_outbox_id evs)" using inv by (simp add: delivery_inv_def)
  have "ob_outbox_id e \<notin> ob_outbox_id ` set A" if e: "e \<in> set evs" "ob_stream_key e = k" for e
  proof
    assume "ob_outbox_id e \<in> ob_outbox_id ` set A"
    then obtain a where a: "a \<in> set A" "ob_outbox_id e = ob_outbox_id a" by auto
    have "a \<in> set evs" using a A stream_headsD(1) by (metis subsetD)
    then have "e = a" using inj_on_distinct_key[OF dist e(1)] a(2) by simp
    then show False using none a(1) e(2) by simp
  qed
  then show ?thesis by (auto simp: seqs_def DeleteDelivered_def tbl_simps)
qed

lemma stream_ok_iteration:
  assumes inv: "delivery_inv sts evs klog" and A: "set A \<subseteq> set (stream_heads shard evs)"
    and pub: "set A \<subseteq> set P" and r: "r \<in> set sts"
  shows "stream_ok (DeleteDelivered (map ob_outbox_id A) evs) (klog @ P) r"
proof (cases "\<exists>h\<in>set A. ob_stream_key h = st_key r")
  case True
  then obtain h where h: "h \<in> set A" "ob_stream_key h = st_key r" by auto
  then have "h \<in> set (stream_heads shard evs)" using A by auto
  then obtain q d where q: "q \<in> set sts" "st_key q = ob_stream_key h" and d: "0 \<le> d" "ob_stream_sequence h = d + 1"
    "d < st_last q" "seqs evs (st_key q) = {d + 1..st_last q}" "\<forall>s\<ge>1. s \<le> d \<longrightarrow> logged klog (st_key q) s"
    using head_is_next[OF inv, of h shard] by blast
  have "distinct (map st_key sts)" using inv by (simp add: delivery_inv_def)
  then have [simp]: "q = r" using inj_on_distinct_key[of st_key sts q r] q r h(2) by simp
  have "seqs (DeleteDelivered (map ob_outbox_id A) evs) (st_key r) = {d + 1 + 1..st_last r}"
    using pending_after_delivery[OF inv A h(1)] d h(2) by (simp add: add.commute)
  moreover have "logged (klog @ P) (st_key r) s" if "1 \<le> s" "s \<le> d + 1" for s
  proof (cases "s = d + 1")
    case True
    then show ?thesis using h d(2) pub by (auto simp: logged_def)
  next
    case False
    then show ?thesis using that d(5) by simp
  qed
  ultimately show ?thesis using d(1,3) unfolding stream_ok_def
    by (intro exI[of _ "d + 1"]) simp
next
  case False
  then have "seqs (DeleteDelivered (map ob_outbox_id A) evs) (st_key r) = seqs evs (st_key r)"
    using pending_unaffected[OF inv A] by auto
  moreover have "stream_ok evs (klog @ P) r" using inv r by (simp add: delivery_inv_def stream_ok_mono)
  ultimately show ?thesis unfolding stream_ok_def by simp
qed

lemma log_ordered_publish:
  assumes inv: "delivery_inv sts evs klog" and P: "set P \<subseteq> set (stream_heads shard evs)"
  shows "log_ordered (klog @ P)"
proof (rule log_ordered_append)
  show "log_ordered klog" using inv by (simp add: delivery_inv_def)
  fix y s assume y: "y \<in> set P" and s: "1 \<le> s" "s < ob_stream_sequence y"
  obtain r :: stream_row and d where "st_key r = ob_stream_key y" "ob_stream_sequence y = d + 1"
    "\<forall>s\<ge>1. s \<le> d \<longrightarrow> logged klog (st_key r) s"
    using head_is_next[OF inv subsetD[OF P y]] by blast
  then show "logged klog (ob_stream_key y) s" using s by auto
qed

lemma delivery_inv_publish:
  assumes inv: "delivery_inv sts evs klog" and P: "set P \<subseteq> set (stream_heads shard evs)"
  shows "delivery_inv sts evs (klog @ P)"
proof -
  have "stream_ok evs (klog @ P) r" if "r \<in> set sts" for r
    using inv that by (simp add: delivery_inv_def stream_ok_mono)
  then show ?thesis using inv log_ordered_publish[OF inv P] by (simp add: delivery_inv_def)
qed

lemma distinct_map_DeleteDelivered: "distinct (map g evs) \<Longrightarrow> distinct (map g (DeleteDelivered ids evs))"
  unfolding DeleteDelivered_def by (rule distinct_tbl_delete)

lemma delivery_inv_ack:
  assumes inv: "delivery_inv sts evs klog" and A: "set A \<subseteq> set P" and P: "set P \<subseteq> set (stream_heads shard evs)"
  shows "delivery_inv sts (UpdateFailed us (DeleteDelivered (map ob_outbox_id A) evs)) (klog @ P)"
proof -
  let ?del = "DeleteDelivered (map ob_outbox_id A) evs"
  let ?new = "UpdateFailed us ?del"
  have AH: "set A \<subseteq> set (stream_heads shard evs)" using A P by simp
  have upd: "map ob_outbox_id ?new = map ob_outbox_id ?del"
    "map (\<lambda>e. (ob_stream_key e, ob_stream_sequence e)) ?new = map (\<lambda>e. (ob_stream_key e, ob_stream_sequence e)) ?del"
    "map (\<lambda>e. (ob_stream_key e, ob_relay_shard_id e)) ?new = map (\<lambda>e. (ob_stream_key e, ob_relay_shard_id e)) ?del"
    by (rule map_UpdateFailed; simp)+
  have "\<exists>r\<in>set sts. st_key r = ob_stream_key e \<and> st_shard r = ob_relay_shard_id e" if "e \<in> set ?new" for e
  proof -
    have "(ob_stream_key e, ob_relay_shard_id e) \<in> set (map (\<lambda>e. (ob_stream_key e, ob_relay_shard_id e)) ?del)"
      using that unfolding upd(3)[symmetric] by simp
    then obtain e0 where "e0 \<in> set ?del" and "ob_stream_key e0 = ob_stream_key e" "ob_relay_shard_id e0 = ob_relay_shard_id e"
      by auto
    moreover have "e0 \<in> set evs" using \<open>e0 \<in> set ?del\<close> by (simp add: DeleteDelivered_def tbl_simps)
    ultimately show ?thesis using inv unfolding delivery_inv_def by metis
  qed
  moreover have "stream_ok ?new (klog @ P) r" if "r \<in> set sts" for r
    using stream_ok_iteration[OF inv AH A that] by (simp add: stream_ok_def)
  ultimately show ?thesis
    using inv log_ordered_publish[OF inv P] upd(1,2)
    unfolding delivery_inv_def by (simp add: distinct_map_DeleteDelivered)
qed

lemma SelectHeads_stream_heads: "set (SelectHeads shard now n evs) \<subseteq> set (stream_heads shard evs)"
  using SelectHeads_subset by blast

lemma delivery_inv_processShard:
  assumes "delivery_inv sts evs klog" "list_all tick_ok ts"
    "processShard cfg shard ts (evs, klog) = (r, (evs', klog'))"
  shows "delivery_inv sts evs' klog'"
  using assms
proof (induction ts arbitrary: evs klog)
  case (Cons t ts)
  define heads where "heads = SelectHeads shard (rt_now t) (rc_batch_size cfg) evs"
  have P: "set (published t heads) \<subseteq> set (stream_heads shard evs)"
    using published_subset SelectHeads_stream_heads unfolding heads_def by blast
  have A: "set (acked t heads) \<subseteq> set (published t heads)" using Cons.prems(2) acked_published by auto
  show ?case
    using Cons.prems Cons.IH[OF delivery_inv_ack[OF Cons.prems(1) A P, folded delivered_ids_acked]]
      delivery_inv_publish[OF Cons.prems(1) P]
    by (auto simp: Let_def simp flip: heads_def split: if_splits)
qed simp

lemma delivery_inv_scanShards:
  assumes "delivery_inv sts evs klog" "\<And>sh. list_all tick_ok (ticks sh)"
    "scanShards cfg lock ticks shs (evs, klog) = (r, (evs', klog'))"
  shows "delivery_inv sts evs' klog'"
  using assms
proof (induction shs arbitrary: evs klog r evs' klog')
  case (Cons sh shs)
  show ?case
  proof (cases "lock sh")
    case True
    obtain r1 evs1 klog1 where p: "processShard cfg sh (ticks sh) (evs, klog) = (r1, (evs1, klog1))"
      by (metis prod.exhaust)
    have i: "delivery_inv sts evs1 klog1"
      using delivery_inv_processShard[OF Cons.prems(1,2) p] .
    show ?thesis using Cons.IH[OF i Cons.prems(2)] Cons.prems(3) i True p
      by (auto split: sum.splits prod.splits)
  qed (use Cons in auto)
qed simp

section \<open>A commit of a writer\<close>

lemma delivery_inv_EnsureStream:
  assumes "delivery_inv (ob_streams ob) (ob_events ob) klog"
  shows "delivery_inv (ob_streams (EnsureStream k sh ob)) (ob_events (EnsureStream k sh ob)) klog"
proof (cases "\<exists>r\<in>set (ob_streams ob). st_key r = k")
  case False
  then have "seqs (ob_events ob) k = {}" using assms by (force simp: seqs_def delivery_inv_def)
  then have "stream_ok (ob_events ob) klog \<lparr>st_key = k, st_shard = sh, st_last = 0\<rparr>"
    unfolding stream_ok_def by (intro exI[of _ 0]) simp
  then show ?thesis using False assms by (auto simp: EnsureStream_def delivery_inv_def)
qed (use assms in \<open>simp add: EnsureStream_def\<close>)

lemma seqs_append: "seqs (xs @ ys) k = seqs xs k \<union> seqs ys k"
  by (auto simp: seqs_def)

lemma stampedD:
  assumes "stamped rng k recs" "e \<in> set recs"
  shows "ob_stream_key e = k" "ob_relay_shard_id e = rr_shard rng" "rr_first rng \<le> ob_stream_sequence e"
    "ob_stream_sequence e < rr_first rng + int (length recs)"
proof -
  obtain i where "i < length recs" "e = recs ! i" using assms(2) by (metis in_set_conv_nth)
  then show "ob_stream_key e = k" "ob_relay_shard_id e = rr_shard rng" "rr_first rng \<le> ob_stream_sequence e"
    "ob_stream_sequence e < rr_first rng + int (length recs)"
    using assms(1) by (simp_all add: stamped_def)
qed

lemma seqs_stamped_other: "stamped rng k recs \<Longrightarrow> j \<noteq> k \<Longrightarrow> seqs recs j = {}"
  using stampedD(1) by (fastforce simp: seqs_def)

lemma seqs_stamped:
  assumes st: "stamped rng k recs"
  shows "seqs recs k = {rr_first rng..<rr_first rng + int (length recs)}"
proof (rule set_eqI, rule iffI)
  fix s assume "s \<in> seqs recs k"
  then obtain e where "e \<in> set recs" "s = ob_stream_sequence e" by (auto simp: seqs_def)
  then show "s \<in> {rr_first rng..<rr_first rng + int (length recs)}" using stampedD(3,4)[OF st] by simp
next
  fix s assume s: "s \<in> {rr_first rng..<rr_first rng + int (length recs)}"
  define i where "i = nat (s - rr_first rng)"
  have i: "i < length recs" "rr_first rng + int i = s" using s by (auto simp: i_def)
  then have "ob_stream_key (recs ! i) = k" "ob_stream_sequence (recs ! i) = s" using st by (simp_all add: stamped_def)
  then show "s \<in> seqs recs k" using i(1) nth_mem[of i recs] unfolding seqs_def by blast
qed

lemma interval_extend: "d \<le> l \<Longrightarrow> {d + 1..l} \<union> {l + 1..<l + 1 + int n} = {d + 1..l + int n}" for d l :: int
  by (rule set_eqI) (simp only: Un_iff atLeastAtMost_iff atLeastLessThan_iff, linarith)

lemma delivery_inv_commit:
  assumes inv: "delivery_inv (ob_streams ob) (ob_events ob) klog"
    and res: "ReserveSequences k (int (length recs)) ob = Inr (rng, ob1)"
    and st: "stamped rng k recs" and ins: "InsertBatch recs ob1 = Inr ob2"
  shows "delivery_inv (ob_streams ob2) (ob_events ob2) klog"
proof -
  let ?n = "int (length recs)"
  let ?bump = "\<lambda>r. if st_key r = k then r\<lparr>st_last := st_last r + ?n\<rparr> else r"
  obtain r where r: "List.find (\<lambda>r. st_key r = k) (ob_streams ob) = Some r"
    and rng: "rr_first rng = st_last r + 1" "rr_shard rng = st_shard r" and ne: "recs \<noteq> []"
    and ob1: "ob_streams ob1 = map ?bump (ob_streams ob)" "ob_events ob1 = ob_events ob"
    using res by (auto simp: ReserveSequences_def tbl_update_def split: if_splits option.splits)
  have k: "r \<in> set (ob_streams ob)" "st_key r = k" using r by (auto dest: find_SomeD)
  have ob2: "ob_streams ob2 = map ?bump (ob_streams ob)" "ob_events ob2 = ob_events ob @ recs"
    "outbox_keys_ok (ob_events ob @ recs)"
    using ins ne ob1 unfolding InsertBatch_def by (simp_all split: if_split_asm) auto
  have keys: "map st_key (map ?bump (ob_streams ob)) = map st_key (ob_streams ob)" by auto
  have dist: "distinct (map st_key (ob_streams ob))" using inv by (simp add: delivery_inv_def)
  have ok: "stream_ok (ob_events ob @ recs) klog (?bump q)" if q: "q \<in> set (ob_streams ob)" for q
  proof -
    obtain d where d: "0 \<le> d" "d \<le> st_last q" "seqs (ob_events ob) (st_key q) = {d + 1..st_last q}"
      "\<forall>s\<ge>1. s \<le> d \<longrightarrow> logged klog (st_key q) s"
      using inv q by (auto simp: delivery_inv_def stream_ok_def)
    show ?thesis
    proof (cases "st_key q = k")
      case True
      then have qr: "q = r" using inj_on_distinct_key[OF dist q k(1)] k(2) by simp
      have "seqs (ob_events ob @ recs) k = {d + 1..st_last q + ?n}"
        using seqs_append[of "ob_events ob" recs k] seqs_stamped[OF st] rng(1) d(3) qr k(2)
          interval_extend[OF d(2)] by simp
      then show ?thesis unfolding stream_ok_def using d(1,2,4) True by (intro exI[of _ d]) simp
    next
      case False
      then have "seqs (ob_events ob @ recs) (st_key q) = {d + 1..st_last q}"
        unfolding seqs_append using d(3) seqs_stamped_other[OF st] by simp
      then show ?thesis unfolding stream_ok_def using d(1,2,4) False by (intro exI[of _ d]) simp
    qed
  qed
  have home: "\<exists>q\<in>set (ob_streams ob). st_key q = ob_stream_key e \<and> st_shard q = ob_relay_shard_id e"
    if "e \<in> set (ob_events ob @ recs)" for e
  proof (cases "e \<in> set recs")
    case True
    then have "ob_stream_key e = k" "ob_relay_shard_id e = st_shard r"
      using stampedD[OF st] rng(2) by simp_all
    then show ?thesis using k by auto
  next
    case False
    then show ?thesis using that inv unfolding delivery_inv_def by simp
  qed
  have "\<exists>q\<in>set (map ?bump (ob_streams ob)). st_key q = ob_stream_key e \<and> st_shard q = ob_relay_shard_id e"
    if e: "e \<in> set (ob_events ob @ recs)" for e
  proof -
    obtain q where "q \<in> set (ob_streams ob)" "st_key q = ob_stream_key e" "st_shard q = ob_relay_shard_id e"
      using home[OF e] by blast
    then show ?thesis by (intro bexI[of _ "?bump q"]) simp_all
  qed
  moreover have "\<forall>q\<in>set (map ?bump (ob_streams ob)). stream_ok (ob_events ob @ recs) klog q"
    unfolding set_map ball_simps(9) using ok by blast
  ultimately show ?thesis using ob2(3) dist inv
    unfolding delivery_inv_def outbox_keys_ok_def ob2(1,2) keys by (intro conjI) (blast+)
qed

section \<open>The delivery guarantee\<close>

definition outbox_inv :: "'p outbox \<times> 'p outbox_record list \<Rightarrow> bool" where
  "outbox_inv s \<longleftrightarrow> delivery_inv (ob_streams (fst s)) (ob_events (fst s)) (snd s)"

interpretation outbox_system: invariant_system outbox_init "outbox_step cfg" outbox_inv
proof
  fix s :: "'a outbox \<times> 'a outbox_record list"
  assume "outbox_init s"
  then show "outbox_inv s" by (simp add: outbox_init_def outbox_inv_def delivery_inv_def log_ordered_def)
next
  fix s s' :: "'a outbox \<times> 'a outbox_record list"
  assume "outbox_inv s" "outbox_step cfg s s'"
  from this(2,1) show "outbox_inv s'"
  proof cases
    case (commit k recs shard ob rng ob1 ob2 klog)
    then show ?thesis using \<open>outbox_inv s\<close> delivery_inv_commit[OF delivery_inv_EnsureStream]
      by (simp add: outbox_inv_def)
  next
    case (scan now lock ticks ob klog r evs klog')
    have "delivery_inv (ob_streams ob) (ob_events ob) klog" using \<open>outbox_inv s\<close> scan(1) by (simp add: outbox_inv_def)
    then have "delivery_inv (ob_streams ob) evs klog'"
      using delivery_inv_scanShards[of _ _ _ ticks cfg lock] scan(3,4) by (simp add: workOnce_def)
    then show ?thesis using scan(2) by (simp add: outbox_inv_def)
  qed
qed

section \<open>Draining a shard\<close>

definition all_acked :: "relay_tick \<Rightarrow> bool" where
  "all_acked t \<longleftrightarrow> rt_commit t \<and> (\<forall>i. rt_acked t i)"

lemma all_acked_iteration:
  assumes "all_acked t" "tick_ok t"
  shows "published t heads = heads" "delivered_ids t heads = map ob_outbox_id heads" "failed_updates cfg t heads = []"
proof -
  have *: "rt_acked t i" "rt_appended t i" for i using assms by (auto simp: all_acked_def tick_ok_def)
  show "published t heads = heads" "failed_updates cfg t heads = []"
    by (simp_all add: published_def failed_updates_def case_prod_beta *)
  show "delivered_ids t heads = map ob_outbox_id heads"
    using map_map[of ob_outbox_id snd "enumerate 0 heads"]
    by (simp add: delivered_ids_def case_prod_beta * comp_def)
qed

lemma UpdateFailed_Nil [simp]: "UpdateFailed [] evs = evs"
  by (simp add: UpdateFailed_def)

lemma DeleteDelivered_heads:
  assumes dist: "distinct (map ob_outbox_id evs)" and heads: "set heads \<subseteq> set (stream_heads shard evs)"
  shows "DeleteDelivered (map ob_outbox_id heads) evs = filter (\<lambda>e. e \<notin> set heads) evs"
  unfolding DeleteDelivered_def tbl_delete_def
proof (rule filter_cong[OF refl])
  fix e assume e: "e \<in> set evs"
  have "e \<in> set heads" if h: "h \<in> set heads" "ob_outbox_id e = ob_outbox_id h" for h
  proof -
    have "h \<in> set evs" using heads h(1) stream_headsD(1) by (metis subsetD)
    then show ?thesis using inj_on_distinct_key[OF dist e] h by simp
  qed
  then show "(\<not> ob_outbox_id e \<in> set (map ob_outbox_id heads)) = (e \<notin> set heads)" by auto
qed

abbreviation on_shard :: "int \<Rightarrow> 'p outbox_record list \<Rightarrow> 'p outbox_record list" where
  "on_shard sh evs \<equiv> filter (\<lambda>e. ob_relay_shard_id e = sh) evs"

lemma SelectHeads_ready_nonempty:
  assumes "on_shard sh evs \<noteq> []" "\<forall>e\<in>set (on_shard sh evs). ob_next_attempt_at e \<le> now" "0 < limit"
  shows "SelectHeads sh now limit evs \<noteq> []"
proof -
  obtain e where e: "e \<in> set evs" "ob_relay_shard_id e = sh" using assms(1) by (auto simp: filter_empty_conv)
  obtain h where h: "h \<in> set (stream_heads sh evs)" using stream_heads_cover[OF e(1)] e(2) by blast
  have "ob_next_attempt_at h \<le> now" using stream_headsD(1,2)[OF h] assms(2) by simp
  then show ?thesis using SelectHeads_nonempty[OF h _ assms(3)] by blast
qed

lemma SelectHeads_ids_distinct:
  assumes "distinct (map ob_outbox_id evs)"
  shows "distinct (map ob_outbox_id (SelectHeads sh now limit evs))"
proof -
  have sub: "set (SelectHeads sh now limit evs) \<subseteq> set evs"
    using SelectHeads_subset stream_headsD(1) by (metis subsetI)
  have "distinct (SelectHeads sh now limit evs)"
    using SelectHeads_distinct[of sh now limit evs] by (simp add: distinct_map)
  moreover have "inj_on ob_outbox_id (set evs)" using assms by (simp add: distinct_map)
  ultimately show ?thesis using sub by (simp add: distinct_map inj_on_subset)
qed

section \<open>Ready shards\<close>

lemma ready_shard_listed:
  "h \<in> set (SelectHeads sh now limit evs) \<Longrightarrow> sh \<in> set (ListReadyShards now evs)"
  using SelectHeads_subset[of h sh now limit evs] stream_headsD(1,2)[of h sh evs]
  by (auto simp: ListReadyShards_def image_iff)

section \<open>Concrete runs\<close>

text \<open>One stream with two records, written and relayed with the first acknowledgement lost.\<close>

definition demo_record :: "int64 \<Rightarrow> unit outbox_record" where
  "demo_record s = \<lparr>ob_outbox_id = s, ob_event_id = s, ob_delivery_index = 0, ob_stream_key = [7],
     ob_relay_shard_id = 0, ob_stream_sequence = s, ob_topic = [1], ob_event_type = [1], ob_key = [],
     ob_payload = (), ob_trace_context = [], ob_attempts = 0, ob_next_attempt_at = 0, ob_created_at = 1\<rparr>"

definition demo_config :: relay_config where
  "demo_config = relay_defaults \<lparr>rc_has_db = True, rc_streams_table = [1], rc_events_table = [2],
     rc_has_publisher = True, rc_namespace = [3], rc_notify_channel = [], rc_listener_dsn = [], rc_workers = 0,
     rc_batch_size = 10, rc_poll_interval = 0, rc_time_slice = 0, rc_backoff_min = 0, rc_backoff_max = 0\<rparr>"

definition demo_written :: "unit outbox" where
  "demo_written = \<lparr>ob_streams = [\<lparr>st_key = [7], st_shard = 0, st_last = 2\<rparr>],
     ob_events = [demo_record 1, demo_record 2]\<rparr>"

definition demo_tick :: relay_tick where
  "demo_tick = \<lparr>rt_now = 5, rt_appended = (\<lambda>_. True), rt_acked = (\<lambda>_. True), rt_later = 5,
     rt_rand = (\<lambda>_. 0), rt_commit = True\<rparr>"

definition demo_lost :: relay_tick where
  "demo_lost = demo_tick\<lparr>rt_commit := False\<rparr>"

lemma demo_write: "reach outbox_init (outbox_step demo_config) (demo_written, [])"
proof (rule reach_step[OF reach_init])
  show "outbox_init (\<lparr>ob_streams = [], ob_events = []\<rparr> :: unit outbox, [])" by (simp add: outbox_init_def)
  show "outbox_step demo_config (\<lparr>ob_streams = [], ob_events = []\<rparr>, []) (demo_written, [])"
    by (rule outbox_step.commit[of "[7]" "[demo_record 1, demo_record 2]" 0 _ "\<lparr>rr_first = 1, rr_last = 2, rr_shard = 0\<rparr>"
          "\<lparr>ob_streams = [\<lparr>st_key = [7], st_shard = 0, st_last = 2\<rparr>], ob_events = []\<rparr>"])
      (simp_all add: EnsureStream_def ReserveSequences_def tbl_update_def stamped_def demo_record_def
        less_Suc_eq InsertBatch_def outbox_row_ok_def outbox_keys_ok_def demo_written_def)
qed

lemmas demo_scan_simps = workOnce_def demo_written_def ListReadyShards_def demo_record_def SelectHeads_def
  stream_heads_def demo_config_def relay_defaults_def demo_lost_def demo_tick_def published_def
  delivered_ids_def failed_updates_def DeleteDelivered_def UpdateFailed_def tbl_delete_def

lemma demo_scan_lost: "reach outbox_init (outbox_step demo_config) (demo_written, [demo_record 1])"
proof (rule reach_step[OF demo_write])
  have "outbox_step demo_config (demo_written, [])
      (demo_written\<lparr>ob_events := [demo_record 1, demo_record 2]\<rparr>, [demo_record 1])"
    by (rule outbox_step.scan[of demo_config 5 "\<lambda>_. True" "\<lambda>_. [demo_lost]" _ _ "Inl RelayTxFailed"])
      (simp_all add: demo_scan_simps tick_ok_def Let_def)
  then show "outbox_step demo_config (demo_written, []) (demo_written, [demo_record 1])"
    by (simp add: demo_written_def)
qed

lemma demo_scan_twice:
  "reach outbox_init (outbox_step demo_config)
     (demo_written\<lparr>ob_events := []\<rparr>, [demo_record 1, demo_record 1, demo_record 2])"
proof (rule reach_step[OF demo_scan_lost])
  show "outbox_step demo_config (demo_written, [demo_record 1])
      (demo_written\<lparr>ob_events := []\<rparr>, [demo_record 1, demo_record 1, demo_record 2])"
    by (rule outbox_step.scan[of demo_config 5 "\<lambda>_. True" "\<lambda>_. [demo_tick, demo_tick, demo_tick]" _ _ "Inr False"])
      (simp_all add: demo_scan_simps tick_ok_def Let_def)
qed

section \<open>Theorems\<close>

text \<open>
  C20: In every state that writers and relays can reach, with any pattern of broker rejections, lost
  acknowledgements and failed acknowledgement transactions, a record is in the Kafka log only after
  all records with smaller sequence numbers of its stream.
\<close>

theorem outbox_log_ordered:
  assumes "reach outbox_init (outbox_step cfg) (ob, klog)"
  shows "log_ordered klog"
  using outbox_system.reach_inv[OF assms] by (simp add: outbox_inv_def delivery_inv_def)

text \<open>The guarantee on a run that publishes the first record twice.\<close>

theorem outbox_log_ordered_witness:
  "log_ordered [demo_record 1, demo_record 1, demo_record 2]"
  using outbox_log_ordered[OF demo_scan_twice] .

text \<open>
  C21: In every reachable state each sequence number a stream has handed out belongs to a record that
  is still pending or is in the Kafka log: no event is lost, and the pending ones form a suffix.
\<close>

theorem outbox_no_loss:
  assumes "reach outbox_init (outbox_step cfg) (ob, klog)" "r \<in> set (ob_streams ob)"
  shows "\<exists>d\<ge>0. seqs (ob_events ob) (st_key r) = {d + 1..st_last r} \<and> d \<le> st_last r
    \<and> (\<forall>s\<in>{1..d}. logged klog (st_key r) s)"
proof -
  have "stream_ok (ob_events ob) klog r"
    using outbox_system.reach_inv[OF assms(1)] assms(2) by (simp add: outbox_inv_def delivery_inv_def)
  then show ?thesis unfolding stream_ok_def by force
qed

theorem outbox_no_loss_witness:
  "\<exists>d\<ge>0. seqs (ob_events demo_written) [7] = {d + 1..2} \<and> d \<le> 2
    \<and> (\<forall>s\<in>{1..d}. logged [demo_record 1] [7] s)"
  using outbox_no_loss[OF demo_scan_lost, of "\<lparr>st_key = [7], st_shard = 0, st_last = 2\<rparr>"]
  by (simp add: demo_written_def)

text \<open>
  C22: A shard whose records are all due is drained by an acknowledging broker: with more iterations
  in the time slice than pending records, \<^verbatim>\<open>processShard\<close> ends with no work left, exactly the
  records of the other shards stay, and each record of the shard is appended exactly once.
\<close>

theorem processShard_drains:
  assumes "0 < rc_batch_size cfg" "distinct (map ob_outbox_id evs)" "length (on_shard sh evs) < length ts"
    "\<forall>t\<in>set ts. tick_ok t \<and> all_acked t \<and> (\<forall>e\<in>set (on_shard sh evs). ob_next_attempt_at e \<le> rt_now t)"
  shows "\<exists>recs. processShard cfg sh ts (evs, klog) =
      (Inr False, (filter (\<lambda>e. ob_relay_shard_id e \<noteq> sh) evs, klog @ recs))
    \<and> set recs = set (on_shard sh evs) \<and> distinct (map ob_outbox_id recs)"
  using assms(2-)
proof (induction ts arbitrary: evs klog)
  case (Cons t ts)
  define heads where "heads = SelectHeads sh (rt_now t) (rc_batch_size cfg) evs"
  have sub: "set heads \<subseteq> set (stream_heads sh evs)" unfolding heads_def by (rule SelectHeads_stream_heads)
  have on: "set heads \<subseteq> set (on_shard sh evs)" using sub stream_headsD(1,2) by fastforce
  show ?case
  proof (cases "on_shard sh evs = []")
    case True
    then have "heads = []" using on by simp
    moreover have "filter (\<lambda>e. ob_relay_shard_id e \<noteq> sh) evs = evs"
      using True by (simp add: filter_empty_conv filter_id_conv)
    ultimately show ?thesis using True by (simp flip: heads_def)
  next
    case False
    define evs' where "evs' = filter (\<lambda>e. e \<notin> set heads) evs"
    have ne: "heads \<noteq> []"
      unfolding heads_def by (rule SelectHeads_ready_nonempty) (use False Cons.prems(3) assms(1) in auto)
    have acks: "all_acked t" "tick_ok t" using Cons.prems(3) by auto
    have step: "processShard cfg sh (t # ts) (evs, klog) = processShard cfg sh ts (evs', klog @ heads)"
      using ne acks DeleteDelivered_heads[OF Cons.prems(1) sub]
      by (simp add: Let_def all_acked_iteration[OF acks] evs'_def all_acked_def flip: heads_def)
    have on': "on_shard sh evs' = filter (\<lambda>e. e \<notin> set heads) (on_shard sh evs)"
      by (auto simp: evs'_def intro: filter_cong)
    obtain h where "h \<in> set heads" using ne by (meson last_in_set)
    then have "length (on_shard sh evs') < length (on_shard sh evs)"
      unfolding on' using on by (intro length_filter_less[of h]) auto
    moreover have "distinct (map ob_outbox_id evs')" using Cons.prems(1) by (simp add: evs'_def distinct_map_filter)
    ultimately obtain recs where recs: "processShard cfg sh ts (evs', klog @ heads) =
        (Inr False, (filter (\<lambda>e. ob_relay_shard_id e \<noteq> sh) evs', (klog @ heads) @ recs))"
      "set recs = set (on_shard sh evs')" "distinct (map ob_outbox_id recs)"
      using Cons.IH[of evs' "klog @ heads"] Cons.prems(2,3) by (auto simp: evs'_def)
    have "filter (\<lambda>e. ob_relay_shard_id e \<noteq> sh) evs' = filter (\<lambda>e. ob_relay_shard_id e \<noteq> sh) evs"
      using on by (auto simp: evs'_def intro: filter_cong)
    moreover have "set (heads @ recs) = set (on_shard sh evs)" using recs(2) on by (auto simp: evs'_def)
    moreover have "distinct (map ob_outbox_id (heads @ recs))"
    proof -
      have "a \<in> set heads" if "a \<in> set evs" "b \<in> set heads" "ob_outbox_id a = ob_outbox_id b" for a b
        using inj_on_distinct_key[OF Cons.prems(1), of a b] that on by auto
      then have "ob_outbox_id ` set heads \<inter> ob_outbox_id ` set recs = {}"
        unfolding recs(2) evs'_def by auto
      then show ?thesis using SelectHeads_ids_distinct[OF Cons.prems(1)] recs(3) by (simp add: heads_def)
    qed
    ultimately show ?thesis using step recs(1) by (intro exI[of _ "heads @ recs"]) simp
  qed
qed simp

theorem processShard_drains_witness:
  "\<exists>recs. processShard demo_config 0 [demo_tick, demo_tick, demo_tick] (ob_events demo_written, []) =
      (Inr False, ([], recs)) \<and> set recs = {demo_record 1, demo_record 2} \<and> distinct (map ob_outbox_id recs)"
proof -
  have on: "on_shard 0 (ob_events demo_written) = [demo_record 1, demo_record 2]"
    "filter (\<lambda>e. ob_relay_shard_id e \<noteq> 0) (ob_events demo_written) = []"
    by (simp_all add: demo_written_def demo_record_def)
  have "0 < rc_batch_size demo_config" by (simp add: demo_config_def relay_defaults_def)
  moreover have "distinct (map ob_outbox_id (ob_events demo_written))"
    by (simp add: demo_written_def demo_record_def)
  ultimately show ?thesis
    using processShard_drains[of demo_config "ob_events demo_written" 0 "[demo_tick, demo_tick, demo_tick]" "[]"]
    by (simp add: on) (simp add: demo_tick_def tick_ok_def all_acked_def demo_record_def)
qed





end
