(* ===== verification/Consumer_Model.thy ===== *)
theory Consumer_Model
  imports Cordis_Prelude "HOL-Library.AList"
begin

text \<open>
  The partition consumer of \<^verbatim>\<open>pkg/kafka/partitionconsumer\<close>: one serial worker with a bounded channel
  per assigned partition, an overflow queue that pauses fetching, retries, and a committer that commits
  the offsets of completed records in the background. One record holds the fields of
  \<^verbatim>\<open>partitionRuntime\<close>, of its workers and of \<^verbatim>\<open>partitionCommitter\<close>; every definition is what one critical
  section does. The Kafka client is outside of the repository: the partitions it has been told to
  pause are a field, and its order of epochs and offsets (\<^verbatim>\<open>kgo.EpochOffset.Less\<close>) is the parameter
  \<open>lt\<close>.
\<close>

section \<open>Configuration\<close>

record Config =
  MaxPollRecords :: int
  QueueSize :: int
  CommitInterval :: int64
  MaxUncommittedRecords :: int
  RevokeTimeout :: int64
  CommitTimeout :: int64
  ShutdownTimeout :: int64
  RetryMin :: int64
  RetryMax :: int64
  RetryMaxAttempts :: int
  DropAfterRetryExhausted :: bool

text \<open>Durations count nanoseconds.\<close>

definition withDefaults :: "Config \<Rightarrow> Config" where
  "withDefaults c =
     (let c = (if MaxPollRecords c \<le> 0 then c\<lparr>MaxPollRecords := 32\<rparr> else c);
          c = (if QueueSize c \<le> 0 then c\<lparr>QueueSize := 16\<rparr> else c);
          c = (if CommitInterval c \<le> 0 then c\<lparr>CommitInterval := 100000000\<rparr> else c);
          c = (if MaxUncommittedRecords c \<le> 0 then c\<lparr>MaxUncommittedRecords := 128\<rparr> else c);
          c = (if RevokeTimeout c \<le> 0 then c\<lparr>RevokeTimeout := 10000000000\<rparr> else c);
          c = (if CommitTimeout c \<le> 0 then c\<lparr>CommitTimeout := 5000000000\<rparr> else c);
          c = (if ShutdownTimeout c \<le> 0 then c\<lparr>ShutdownTimeout := 20000000000\<rparr> else c);
          c = (if RetryMin c \<le> 0 then c\<lparr>RetryMin := 100000000\<rparr> else c);
          c = (if RetryMax c \<le> 0 then c\<lparr>RetryMax := 5000000000\<rparr> else c)
      in if RetryMax c < RetryMin c then c\<lparr>RetryMax := RetryMin c\<rparr> else c)"

section \<open>Records, workers and the consumer\<close>

record partitionKey =
  pk_topic :: gostring
  pk_partition :: int32

record kafka_record =
  kr_Topic :: gostring
  kr_Partition :: int32
  kr_LeaderEpoch :: int32
  kr_Offset :: int64
  kr_Value :: gostring

abbreviation key_of :: "kafka_record \<Rightarrow> partitionKey" where
  "key_of r \<equiv> \<lparr>pk_topic = kr_Topic r, pk_partition = kr_Partition r\<rparr>"

text \<open>The outcome of the handler on a record: retryable, failed, and whether the retries are used up.\<close>

record outcome =
  oc_retryable :: bool
  oc_err :: bool
  oc_exhausted :: bool

text \<open>Where the goroutine of a worker is in \<^verbatim>\<open>run\<close> and \<^verbatim>\<open>processRecord\<close>.\<close>

datatype worker_phase =
  Waiting
| Handling kafka_record
| Retrying kafka_record
| Marking kafka_record
| Marked
| Exited

record partitionWorker =
  w_key :: partitionKey
  w_records :: "kafka_record list"
  w_cancelled :: bool
  w_active :: bool
  w_lastCompleted :: "kafka_record option"
  w_phase :: worker_phase

text \<open>\<^verbatim>\<open>partitionPauseReason\<close> is a \<^verbatim>\<open>uint8\<close> bit set.\<close>

type_synonym partitionPauseReason = "8 word"

definition pauseForQueue :: partitionPauseReason where "pauseForQueue = 1"
definition pauseForRetry :: partitionPauseReason where "pauseForRetry = 2"
definition pauseForCommit :: partitionPauseReason where "pauseForCommit = 4"

record consumer =
  c_cfg :: Config
  c_pool :: "partitionWorker list"
  c_workers :: "(partitionKey \<times> nat) list"
  c_queuedRecords :: "partitionKey \<Rightarrow> kafka_record list"
  c_pauseReasons :: "partitionKey \<Rightarrow> partitionPauseReason"
  c_stopped :: bool
  c_pendingOffsets :: "(partitionKey \<times> kafka_record) list"
  c_uncommitted :: "partitionKey \<Rightarrow> int"
  c_backpressured :: "partitionKey \<Rightarrow> bool"
  c_wake :: bool
  c_committer_done :: bool
  c_paused :: "partitionKey \<Rightarrow> bool"

abbreviation worker_at :: "consumer \<Rightarrow> nat \<Rightarrow> partitionWorker" where
  "worker_at s i \<equiv> c_pool s ! i"

abbreviation worker_of :: "consumer \<Rightarrow> partitionKey \<Rightarrow> nat option" where
  "worker_of s key \<equiv> map_of (c_workers s) key"

definition upd_worker :: "nat \<Rightarrow> (partitionWorker \<Rightarrow> partitionWorker) \<Rightarrow> consumer \<Rightarrow> consumer" where
  "upd_worker i f s = s\<lparr>c_pool := (c_pool s)[i := f (worker_at s i)]\<rparr>"

definition newPartitionRuntime :: "Config \<Rightarrow> consumer" where
  "newPartitionRuntime cfg =
     \<lparr>c_cfg = withDefaults cfg, c_pool = [], c_workers = [], c_queuedRecords = (\<lambda>_. []), c_pauseReasons = (\<lambda>_. 0),
      c_stopped = False, c_pendingOffsets = [], c_uncommitted = (\<lambda>_. 0), c_backpressured = (\<lambda>_. False),
      c_wake = False, c_committer_done = False, c_paused = (\<lambda>_. False)\<rparr>"

section \<open>Pausing and resuming\<close>

text \<open>An absent entry of a Go map reads as the zero value, so deleting an entry stores it.\<close>

definition pauseLocked :: "partitionKey \<Rightarrow> partitionPauseReason \<Rightarrow> consumer \<Rightarrow> consumer" where
  "pauseLocked key reason s =
     (let current = c_pauseReasons s key in
      if current AND reason \<noteq> 0 then s
      else
        let s = s\<lparr>c_pauseReasons := (c_pauseReasons s)(key := current OR reason)\<rparr> in
        if current \<noteq> 0 then s
        else s\<lparr>c_paused := (c_paused s)(key := True)\<rparr>)"

definition resumeLocked :: "partitionKey \<Rightarrow> partitionPauseReason \<Rightarrow> consumer \<Rightarrow> consumer" where
  "resumeLocked key reason s =
     (let current = c_pauseReasons s key in
      if current AND reason = 0 then s
      else
        let next_reasons = current AND NOT reason in
        if next_reasons \<noteq> 0 then s\<lparr>c_pauseReasons := (c_pauseReasons s)(key := next_reasons)\<rparr>
        else s\<lparr>c_pauseReasons := (c_pauseReasons s)(key := 0), c_paused := (c_paused s)(key := False)\<rparr>)"

definition pause :: "nat \<Rightarrow> consumer \<Rightarrow> consumer" where
  "pause i s =
     (let key = w_key (worker_at s i) in
      if worker_of s key \<noteq> Some i \<or> c_stopped s then s
      else pauseLocked key pauseForRetry s)"

definition setCommitBackpressure :: "partitionKey \<Rightarrow> bool \<Rightarrow> consumer \<Rightarrow> consumer" where
  "setCommitBackpressure key blocked s =
     (if worker_of s key = None \<or> c_stopped s then s
      else if blocked then pauseLocked key pauseForCommit s
      else resumeLocked key pauseForCommit s)"

section \<open>Partition assignment and buffering\<close>

definition new_worker :: "partitionKey \<Rightarrow> partitionWorker" where
  "new_worker key = \<lparr>w_key = key, w_records = [], w_cancelled = False, w_active = True, w_lastCompleted = None, w_phase = Waiting\<rparr>"

text \<open>The new worker is the last one of the pool; \<^verbatim>\<open>ResumeFetchPartitions\<close> gets the new assignments.\<close>

fun assign_each :: "partitionKey list \<Rightarrow> consumer \<Rightarrow> partitionKey list \<times> consumer" where
  "assign_each [] s = ([], s)"
| "assign_each (key # keys) s =
     (if worker_of s key \<noteq> None then assign_each keys s
      else
        let (new, s) = assign_each keys
              (s\<lparr>c_pool := c_pool s @ [new_worker key], c_workers := AList.update key (length (c_pool s)) (c_workers s)\<rparr>)
        in (key # new, s))"

definition assign :: "partitionKey list \<Rightarrow> consumer \<Rightarrow> consumer" where
  "assign assignments s =
     (if c_stopped s then s
      else
        let (new, s) = assign_each assignments s in
        s\<lparr>c_paused := (\<lambda>key. if key \<in> set new then False else c_paused s key)\<rparr>)"

definition enqueue :: "kafka_record \<Rightarrow> consumer \<Rightarrow> consumer" where
  "enqueue record s =
     (let key = key_of record in
      case worker_of s key of
        None \<Rightarrow> s
      | Some i \<Rightarrow>
          if c_stopped s then s
          else if c_queuedRecords s key = [] \<and> int (length (w_records (worker_at s i))) < QueueSize (c_cfg s)
          then upd_worker i (\<lambda>w. w\<lparr>w_records := w_records w @ [record]\<rparr>) s
          else pauseLocked key pauseForQueue
                 (s\<lparr>c_queuedRecords := (c_queuedRecords s)(key := c_queuedRecords s key @ [record])\<rparr>))"

text \<open>Moving queued records into the channel while it has room.\<close>

fun refill :: "int \<Rightarrow> kafka_record list \<Rightarrow> kafka_record list \<Rightarrow> kafka_record list \<times> kafka_record list" where
  "refill cap chan [] = (chan, [])"
| "refill cap chan (r # pending) =
     (if int (length chan) < cap then refill cap (chan @ [r]) pending else (chan, r # pending))"

definition afterProcessed :: "nat \<Rightarrow> consumer \<Rightarrow> consumer" where
  "afterProcessed i s =
     (let key = w_key (worker_at s i) in
      if worker_of s key \<noteq> Some i \<or> c_stopped s then s
      else
        let (chan, pending) = refill (QueueSize (c_cfg s)) (w_records (worker_at s i)) (c_queuedRecords s key);
            s = upd_worker i (\<lambda>w. w\<lparr>w_records := chan\<rparr>) s;
            s = s\<lparr>c_queuedRecords := (c_queuedRecords s)(key := pending)\<rparr>
        in if pending \<noteq> [] then s
           else if chan = [] then resumeLocked key (pauseForQueue OR pauseForRetry) s
           else s)"

section \<open>Offsets\<close>

definition cloneCompletedRecord :: "kafka_record \<Rightarrow> kafka_record" where
  "cloneCompletedRecord record = record\<lparr>kr_Value := []\<rparr>"

definition recordAfter :: "(int32 \<times> int64 \<Rightarrow> int32 \<times> int64 \<Rightarrow> bool) \<Rightarrow> kafka_record \<Rightarrow> kafka_record \<Rightarrow> bool" where
  "recordAfter lt current candidate =
     lt (kr_LeaderEpoch current, kr_Offset current) (kr_LeaderEpoch candidate, kr_Offset candidate)"

definition commitBatchSize :: nat where "commitBatchSize = 32"

definition put_pending :: "(int32 \<times> int64 \<Rightarrow> int32 \<times> int64 \<Rightarrow> bool) \<Rightarrow> kafka_record
    \<Rightarrow> (partitionKey \<times> kafka_record) list \<Rightarrow> (partitionKey \<times> kafka_record) list" where
  "put_pending lt completed pending =
     (case map_of pending (key_of completed) of
        Some current \<Rightarrow> if recordAfter lt current completed then AList.update (key_of completed) completed pending else pending
      | None \<Rightarrow> AList.update (key_of completed) completed pending)"

definition mark :: "(int32 \<times> int64 \<Rightarrow> int32 \<times> int64 \<Rightarrow> bool) \<Rightarrow> kafka_record \<Rightarrow> consumer \<Rightarrow> consumer" where
  "mark lt record s =
     (let key = key_of record;
          s = s\<lparr>c_pendingOffsets := put_pending lt (cloneCompletedRecord record) (c_pendingOffsets s),
                c_uncommitted := (c_uncommitted s)(key := c_uncommitted s key + 1)\<rparr>;
          s = (if MaxUncommittedRecords (c_cfg s) \<le> c_uncommitted s key \<and> \<not> c_backpressured s key
               then setCommitBackpressure key True (s\<lparr>c_backpressured := (c_backpressured s)(key := True)\<rparr>)
               else s)
      in if commitBatchSize \<le> length (c_pendingOffsets s) then s\<lparr>c_wake := True\<rparr> else s)"

record commitBatch =
  cb_records :: "kafka_record list"
  cb_counts :: "(partitionKey \<times> int) list"

definition takePending :: "consumer \<Rightarrow> commitBatch \<times> consumer" where
  "takePending s =
     (\<lparr>cb_records = map snd (c_pendingOffsets s),
       cb_counts = map (\<lambda>(key, _). (key, c_uncommitted s key)) (c_pendingOffsets s)\<rparr>,
      s\<lparr>c_pendingOffsets := []\<rparr>)"

fun acknowledge :: "(partitionKey \<times> int) list \<Rightarrow> consumer \<Rightarrow> consumer" where
  "acknowledge [] s = s"
| "acknowledge ((key, count) # counts) s =
     (let remaining = c_uncommitted s key - count;
          s = s\<lparr>c_uncommitted := (c_uncommitted s)(key := (if remaining \<le> 0 then 0 else remaining))\<rparr>;
          s = (if c_backpressured s key \<and> remaining < MaxUncommittedRecords (c_cfg s)
               then setCommitBackpressure key False (s\<lparr>c_backpressured := (c_backpressured s)(key := False)\<rparr>)
               else s)
      in acknowledge counts s)"

definition requeue :: "(int32 \<times> int64 \<Rightarrow> int32 \<times> int64 \<Rightarrow> bool) \<Rightarrow> kafka_record list \<Rightarrow> consumer \<Rightarrow> consumer" where
  "requeue lt records s = s\<lparr>c_pendingOffsets := foldl (\<lambda>pending record. put_pending lt record pending) (c_pendingOffsets s) records\<rparr>"

definition dropPartitions :: "partitionKey list \<Rightarrow> consumer \<Rightarrow> consumer" where
  "dropPartitions partitions s =
     s\<lparr>c_pendingOffsets := filter (\<lambda>(key, _). key \<notin> set partitions) (c_pendingOffsets s),
       c_uncommitted := (\<lambda>key. if key \<in> set partitions then 0 else c_uncommitted s key),
       c_backpressured := (\<lambda>key. if key \<in> set partitions then False else c_backpressured s key)\<rparr>"

text \<open>The first half of \<^verbatim>\<open>flush\<close>: \<open>None\<close> when there is nothing to commit or the committer is stopped.\<close>

definition flush_begin :: "consumer \<Rightarrow> commitBatch option \<times> consumer" where
  "flush_begin s =
     (let (batch, s) = takePending s in
      if cb_records batch = [] \<or> c_committer_done s then (None, s) else (Some batch, s))"

text \<open>The second half, when \<^verbatim>\<open>CommitRecords\<close> has returned without (\<open>ok\<close>) or with an error.\<close>

definition flush_end :: "(int32 \<times> int64 \<Rightarrow> int32 \<times> int64 \<Rightarrow> bool) \<Rightarrow> commitBatch \<Rightarrow> bool \<Rightarrow> consumer \<Rightarrow> consumer" where
  "flush_end lt batch ok s =
     (if ok then acknowledge (cb_counts batch) s
      else if c_committer_done s then s
      else requeue lt (cb_records batch) s)"

section \<open>Processing\<close>

text \<open>
  \<^verbatim>\<open>retryRecord\<close> on what happens to it: the context ends, or the delay passes and the handler returns.
  The result is \<open>None\<close> while the loop goes on.
\<close>

datatype retry_event = Cancelled | Attempted bool bool

fun retryRecord :: "Config \<Rightarrow> int64 \<Rightarrow> int \<Rightarrow> retry_event list \<Rightarrow> outcome option" where
  "retryRecord cfg delay attempt [] = None"
| "retryRecord cfg delay attempt (Cancelled # events) = Some \<lparr>oc_retryable = True, oc_err = True, oc_exhausted = False\<rparr>"
| "retryRecord cfg delay attempt (Attempted retryable err # events) =
     (if \<not> err \<or> \<not> retryable then Some \<lparr>oc_retryable = retryable, oc_err = err, oc_exhausted = False\<rparr>
      else if RetryMaxAttempts cfg > 0 \<and> attempt \<ge> RetryMaxAttempts cfg \<and> DropAfterRetryExhausted cfg
      then Some \<lparr>oc_retryable = retryable, oc_err = err, oc_exhausted = True\<rparr>
      else
        let attempt = (if RetryMaxAttempts cfg > 0 \<and> attempt \<ge> RetryMaxAttempts cfg then 0 else attempt)
        in retryRecord cfg (min (wrap64 (delay * 2)) (RetryMax cfg)) (attempt + 1) events)"

text \<open>The delays before the attempts, in order.\<close>

fun retry_delays :: "Config \<Rightarrow> int64 \<Rightarrow> nat \<Rightarrow> int64 list" where
  "retry_delays cfg delay 0 = []"
| "retry_delays cfg delay (Suc n) = delay # retry_delays cfg (min (wrap64 (delay * 2)) (RetryMax cfg)) n"

definition handler_outcome :: "Config \<Rightarrow> bool \<Rightarrow> bool \<Rightarrow> retry_event list \<Rightarrow> outcome option" where
  "handler_outcome cfg retryable err events =
     (if err \<and> retryable then retryRecord cfg (RetryMin cfg) 1 events
      else Some \<lparr>oc_retryable = retryable, oc_err = err, oc_exhausted = False\<rparr>)"

text \<open>The decision of \<^verbatim>\<open>processRecord\<close> after the handler: whether the record is completed.\<close>

definition completes :: "bool \<Rightarrow> outcome \<Rightarrow> bool" where
  "completes cancelled oc \<longleftrightarrow> \<not> cancelled \<and> \<not> (oc_err oc \<and> oc_retryable oc \<and> \<not> oc_exhausted oc)"

definition markCompleted :: "(int32 \<times> int64 \<Rightarrow> int32 \<times> int64 \<Rightarrow> bool) \<Rightarrow> nat \<Rightarrow> kafka_record \<Rightarrow> consumer \<Rightarrow> bool \<times> consumer" where
  "markCompleted lt i record s =
     (if \<not> w_active (worker_at s i) then (False, s)
      else (True, mark lt record (upd_worker i (\<lambda>w. w\<lparr>w_lastCompleted := Some (cloneCompletedRecord record)\<rparr>) s)))"

section \<open>Revocation and shutdown\<close>

definition removeWorkers :: "partitionKey list \<Rightarrow> consumer \<Rightarrow> nat list \<times> consumer" where
  "removeWorkers partitions s =
     (map snd (filter (\<lambda>(key, _). key \<in> set partitions) (c_workers s)),
      s\<lparr>c_workers := filter (\<lambda>(key, _). key \<notin> set partitions) (c_workers s),
        c_queuedRecords := (\<lambda>key. if key \<in> set partitions \<and> worker_of s key \<noteq> None then [] else c_queuedRecords s key),
        c_pauseReasons := (\<lambda>key. if key \<in> set partitions \<and> worker_of s key \<noteq> None then 0 else c_pauseReasons s key)\<rparr>)"

definition cancel_worker :: "nat \<Rightarrow> consumer \<Rightarrow> consumer" where
  "cancel_worker i = upd_worker i (\<lambda>w. w\<lparr>w_cancelled := True\<rparr>)"

definition stop_worker :: "nat \<Rightarrow> consumer \<Rightarrow> consumer" where
  "stop_worker i = upd_worker i (\<lambda>w. w\<lparr>w_active := False\<rparr>)"

definition completed_records :: "nat list \<Rightarrow> consumer \<Rightarrow> kafka_record list" where
  "completed_records is s = List.map_filter (\<lambda>i. w_lastCompleted (worker_at s i)) is"

text \<open>
  What \<^verbatim>\<open>revoke\<close> leaves behind once its workers are stopped; the records are those it commits, which
  is none when the partitions are lost.
\<close>

definition revoke_end :: "nat list \<Rightarrow> partitionKey list \<Rightarrow> bool \<Rightarrow> consumer \<Rightarrow> kafka_record list \<times> consumer" where
  "revoke_end is partitions commit s = ((if commit then completed_records is s else []), dropPartitions partitions s)"

text \<open>Shutdown: the part under the mutex, then the cancellation of the context all workers and the committer share.\<close>

definition stop_begin :: "consumer \<Rightarrow> nat list \<times> consumer" where
  "stop_begin s =
     (map snd (c_workers s),
      s\<lparr>c_stopped := True, c_workers := [], c_queuedRecords := (\<lambda>_. []), c_pauseReasons := (\<lambda>_. 0)\<rparr>)"

definition stop_cancel :: "consumer \<Rightarrow> consumer" where
  "stop_cancel s = s\<lparr>c_pool := map (\<lambda>w. w\<lparr>w_cancelled := True\<rparr>) (c_pool s), c_committer_done := True\<rparr>"

end
