(* ===== verification/Consumer_System.thy ===== *)
theory Consumer_System
  imports Consumer_Model
begin

text \<open>
  The partition consumer as a transition system. The goroutines (the poll loop, one per worker, the
  committer, the rebalance callbacks, shutdown) interleave at the critical sections of
  \<open>Consumer_Model\<close>. What the Kafka client and the broker promise are the named predicates
  \<open>log_ok\<close>, \<open>start_ok\<close>, \<open>poll_ok\<close>, \<open>no_stale\<close> and \<open>commit_result\<close>; the client runs one rebalance callback at a time.
\<close>

section \<open>States\<close>

text \<open>
  Beside the consumer: polled records not yet passed to \<^verbatim>\<open>enqueue\<close>, the batch a flush is committing
  (it holds \<^verbatim>\<open>commitMu\<close>), the revocation and the shutdown under way, and the offsets the broker has
  committed. The last three fields are history: what became of each record, and for every worker the
  records it was given and where in the log they start.
\<close>

record consumer_sys =
  cs_c :: consumer
  cs_polled :: "kafka_record list"
  cs_flight :: "commitBatch option"
  cs_revoking :: "(nat list \<times> partitionKey list \<times> bool) option"
  cs_stopping :: "nat list option"
  cs_committed :: "partitionKey \<Rightarrow> int64 option"
  cs_results :: "(kafka_record \<times> outcome) list"
  cs_given :: "nat \<Rightarrow> kafka_record list"
  cs_start :: "nat \<Rightarrow> nat"

type_synonym broker_log = "partitionKey \<Rightarrow> kafka_record list"

definition settled :: "consumer_sys \<Rightarrow> kafka_record \<Rightarrow> bool" where
  "settled s q \<longleftrightarrow> q \<in> fst ` set (cs_results s)"

section \<open>What the client and the broker promise\<close>

definition log_ok :: "broker_log \<Rightarrow> bool" where
  "log_ok blog \<longleftrightarrow> (\<forall>k. (\<forall>r\<in>set (blog k). key_of r = k) \<and> sorted_wrt (\<lambda>q r. kr_Offset q < kr_Offset r) (blog k))"

text \<open>Fetching starts at the committed offset, or at the beginning of the log.\<close>

definition start_ok :: "broker_log \<Rightarrow> consumer_sys \<Rightarrow> partitionKey \<Rightarrow> nat \<Rightarrow> bool" where
  "start_ok blog s k p \<longleftrightarrow> (\<forall>r\<in>set (take p (blog k)). \<exists>n. cs_committed s k = Some n \<and> kr_Offset r < n)"

text \<open>A poll returns the next records of partitions that are not paused, at most as many as asked for.\<close>

definition poll_ok :: "broker_log \<Rightarrow> consumer_sys \<Rightarrow> kafka_record list \<Rightarrow> bool" where
  "poll_ok blog s batch \<longleftrightarrow> int (length batch) \<le> MaxPollRecords (c_cfg (cs_c s))
     \<and> (\<forall>r\<in>set batch. \<not> c_paused (cs_c s) (key_of r))
     \<and> (\<forall>k i. worker_of (cs_c s) k = Some i \<longrightarrow>
          (\<exists>n. filter (\<lambda>r. key_of r = k) batch = take n (drop (cs_start s i + length (cs_given s i)) (blog k))))"

text \<open>
  A partition is assigned again only after the records polled from its earlier assignment have passed
  \<^verbatim>\<open>enqueue\<close>. The client promises this only when rebalances are blocked between polls.
\<close>

definition no_stale :: "consumer_sys \<Rightarrow> partitionKey list \<Rightarrow> bool" where
  "no_stale s keys \<longleftrightarrow> (\<forall>r\<in>set (cs_polled s). key_of r \<notin> set keys)"

text \<open>
  A commit stores the offset after a record for its partition. When it fails, some or all of the
  partitions may nevertheless be stored.
\<close>

definition commit_result :: "bool \<Rightarrow> kafka_record list \<Rightarrow> (partitionKey \<Rightarrow> int64 option) \<Rightarrow> (partitionKey \<Rightarrow> int64 option) \<Rightarrow> bool" where
  "commit_result ok records before after \<longleftrightarrow>
     (\<forall>k. after k = before k \<and> \<not> (ok \<and> (\<exists>r\<in>set records. key_of r = k))
        \<or> (\<exists>r\<in>set records. key_of r = k \<and> after k = Some (kr_Offset r + 1)))"

text \<open>Outcomes with which a record may count as done: success, a permanent error, or used up retries where those may be dropped.\<close>

definition outcome_allowed :: "Config \<Rightarrow> outcome \<Rightarrow> bool" where
  "outcome_allowed cfg oc \<longleftrightarrow> \<not> oc_err oc \<or> \<not> oc_retryable oc \<or> oc_exhausted oc \<and> DropAfterRetryExhausted cfg"

section \<open>Steps\<close>

abbreviation set_phase :: "nat \<Rightarrow> worker_phase \<Rightarrow> consumer \<Rightarrow> consumer" where
  "set_phase i p \<equiv> upd_worker i (\<lambda>w. w\<lparr>w_phase := p\<rparr>)"

abbreviation phase_at :: "consumer_sys \<Rightarrow> nat \<Rightarrow> worker_phase" where
  "phase_at s i \<equiv> w_phase (worker_at (cs_c s) i)"

inductive consumer_step :: "(int32 \<times> int64 \<Rightarrow> int32 \<times> int64 \<Rightarrow> bool) \<Rightarrow> broker_log \<Rightarrow> consumer_sys \<Rightarrow> consumer_sys \<Rightarrow> bool"
  for lt blog where
  assigned: "cs_revoking s = None \<Longrightarrow> no_stale s keys \<Longrightarrow> \<forall>k\<in>set keys. start_ok blog s k (start k) \<Longrightarrow>
    consumer_step lt blog s (s\<lparr>cs_c := assign keys (cs_c s),
      cs_start := (\<lambda>i. if length (c_pool (cs_c s)) \<le> i then start (w_key (worker_at (assign keys (cs_c s)) i)) else cs_start s i),
      cs_given := (\<lambda>i. if length (c_pool (cs_c s)) \<le> i then [] else cs_given s i)\<rparr>)"
| polled: "cs_polled s = [] \<Longrightarrow> poll_ok blog s batch \<Longrightarrow> consumer_step lt blog s (s\<lparr>cs_polled := batch\<rparr>)"
| enqueued: "cs_polled s = r # rs \<Longrightarrow>
    consumer_step lt blog s (s\<lparr>cs_c := enqueue r (cs_c s), cs_polled := rs,
      cs_given := (case worker_of (cs_c s) (key_of r) of None \<Rightarrow> cs_given s
        | Some i \<Rightarrow> if c_stopped (cs_c s) then cs_given s else (cs_given s)(i := cs_given s i @ [r]))\<rparr>)"
| received: "i < length (c_pool (cs_c s)) \<Longrightarrow> phase_at s i = Waiting \<Longrightarrow> w_records (worker_at (cs_c s) i) = r # rs \<Longrightarrow>
    consumer_step lt blog s (s\<lparr>cs_c := upd_worker i (\<lambda>w. w\<lparr>w_records := rs, w_phase := Handling r\<rparr>) (cs_c s)\<rparr>)"
| retrying: "i < length (c_pool (cs_c s)) \<Longrightarrow> phase_at s i = Handling r \<Longrightarrow>
    consumer_step lt blog s (s\<lparr>cs_c := pause i (set_phase i (Retrying r) (cs_c s))\<rparr>)"
| concluded: "i < length (c_pool (cs_c s)) \<Longrightarrow> phase_at s i = (if err \<and> retryable then Retrying r else Handling r) \<Longrightarrow>
    handler_outcome (c_cfg (cs_c s)) retryable err events = Some oc \<Longrightarrow>
    (Cancelled \<in> set events \<Longrightarrow> w_cancelled (worker_at (cs_c s) i)) \<Longrightarrow>
    consumer_step lt blog s
      (if completes (w_cancelled (worker_at (cs_c s) i)) oc
       then s\<lparr>cs_c := set_phase i (Marking r) (cs_c s), cs_results := cs_results s @ [(r, oc)]\<rparr>
       else s\<lparr>cs_c := set_phase i Exited (cs_c s)\<rparr>)"
| marked: "i < length (c_pool (cs_c s)) \<Longrightarrow> phase_at s i = Marking r \<Longrightarrow> markCompleted lt i r (cs_c s) = (ok, c') \<Longrightarrow>
    consumer_step lt blog s (s\<lparr>cs_c := set_phase i (if ok then Marked else Exited) c'\<rparr>)"
| processed: "i < length (c_pool (cs_c s)) \<Longrightarrow> phase_at s i = Marked \<Longrightarrow>
    consumer_step lt blog s (s\<lparr>cs_c := set_phase i Waiting (afterProcessed i (cs_c s))\<rparr>)"
| exited: "i < length (c_pool (cs_c s)) \<Longrightarrow> phase_at s i = Waiting \<Longrightarrow> w_cancelled (worker_at (cs_c s) i) \<Longrightarrow>
    consumer_step lt blog s (s\<lparr>cs_c := set_phase i Exited (cs_c s)\<rparr>)"
| flush_taken: "cs_flight s = None \<Longrightarrow> flush_begin (cs_c s) = (batch, c') \<Longrightarrow>
    consumer_step lt blog s (s\<lparr>cs_c := c'\<lparr>c_wake := False\<rparr>, cs_flight := batch\<rparr>)"
| flushed: "cs_flight s = Some batch \<Longrightarrow> commit_result ok (cb_records batch) (cs_committed s) after \<Longrightarrow>
    consumer_step lt blog s (s\<lparr>cs_c := flush_end lt batch ok (cs_c s), cs_flight := None, cs_committed := after\<rparr>)"
| revoke_started: "cs_revoking s = None \<Longrightarrow> removeWorkers partitions (cs_c s) = (is, c') \<Longrightarrow>
    consumer_step lt blog s (s\<lparr>cs_c := c', cs_revoking := Some (is, partitions, commit)\<rparr>)"
| cancelled: "(case cs_revoking s of Some (is, _) \<Rightarrow> i \<in> set is | None \<Rightarrow> False) \<Longrightarrow> i < length (c_pool (cs_c s)) \<Longrightarrow>
    consumer_step lt blog s (s\<lparr>cs_c := cancel_worker i (cs_c s)\<rparr>)"
| deactivated: "(case cs_revoking s of Some (is, _) \<Rightarrow> i \<in> set is | None \<Rightarrow> False) \<or> (case cs_stopping s of Some is \<Rightarrow> i \<in> set is | None \<Rightarrow> False) \<Longrightarrow>
    i < length (c_pool (cs_c s)) \<Longrightarrow> w_cancelled (worker_at (cs_c s) i) \<Longrightarrow>
    consumer_step lt blog s (s\<lparr>cs_c := stop_worker i (cs_c s)\<rparr>)"
| revoke_ended: "cs_revoking s = Some (is, partitions, commit) \<Longrightarrow> \<forall>i\<in>set is. \<not> w_active (worker_at (cs_c s) i) \<Longrightarrow> cs_flight s = None \<Longrightarrow>
    revoke_end is partitions commit (cs_c s) = (records, c') \<Longrightarrow> commit_result ok records (cs_committed s) after \<Longrightarrow>
    consumer_step lt blog s (s\<lparr>cs_c := c', cs_revoking := None, cs_committed := after\<rparr>)"
| stop_started: "cs_stopping s = None \<Longrightarrow> stop_begin (cs_c s) = (is, c') \<Longrightarrow>
    consumer_step lt blog s (s\<lparr>cs_c := c', cs_stopping := Some is\<rparr>)"
| stop_cancelled: "cs_stopping s \<noteq> None \<Longrightarrow> consumer_step lt blog s (s\<lparr>cs_c := stop_cancel (cs_c s)\<rparr>)"
| stop_ended: "cs_stopping s = Some is \<Longrightarrow> c_committer_done (cs_c s) \<Longrightarrow> \<forall>i\<in>set is. \<not> w_active (worker_at (cs_c s) i) \<Longrightarrow> cs_flight s = None \<Longrightarrow>
    commit_result ok (completed_records is (cs_c s)) (cs_committed s) after \<Longrightarrow>
    consumer_step lt blog s (s\<lparr>cs_stopping := Some [], cs_committed := after\<rparr>)"
| elsewhere: "\<forall>(r, oc)\<in>set extra. outcome_allowed (c_cfg (cs_c s)) oc \<Longrightarrow>
    \<forall>k n. after k = Some n \<longrightarrow> after k = cs_committed s k
      \<or> (\<forall>r\<in>set (blog k). kr_Offset r < n \<longrightarrow> settled (s\<lparr>cs_results := cs_results s @ extra\<rparr>) r) \<Longrightarrow>
    consumer_step lt blog s (s\<lparr>cs_committed := after, cs_results := cs_results s @ extra\<rparr>)"

definition consumer_init :: "Config \<Rightarrow> consumer_sys \<Rightarrow> bool" where
  "consumer_init cfg s \<longleftrightarrow> cs_c s = newPartitionRuntime cfg \<and> cs_polled s = [] \<and> cs_flight s = None \<and> cs_revoking s = None
     \<and> cs_stopping s = None \<and> cs_committed s = (\<lambda>_. None) \<and> cs_results s = []"

end
