(* ===== verification/Consumer_Safety.thy ===== *)
theory Consumer_Safety
  imports Consumer_System
begin

text \<open>
  At-least-once processing: the invariant behind the committed offsets. Every record given to a worker
  is settled, in the worker's hand, in its channel or in the overflow queue, in the order of the log;
  so a completed record has no unsettled predecessor, and only such records are ever committed.
\<close>

named_theorems frame \<open>fields that a critical section leaves alone\<close>

section \<open>Frames\<close>

lemma frame_pauseLocked [frame]:
  "c_cfg (pauseLocked k x s) = c_cfg s" "c_pool (pauseLocked k x s) = c_pool s" "c_workers (pauseLocked k x s) = c_workers s"
  "c_queuedRecords (pauseLocked k x s) = c_queuedRecords s" "c_stopped (pauseLocked k x s) = c_stopped s"
  "c_pendingOffsets (pauseLocked k x s) = c_pendingOffsets s" "c_uncommitted (pauseLocked k x s) = c_uncommitted s"
  "c_backpressured (pauseLocked k x s) = c_backpressured s" "c_committer_done (pauseLocked k x s) = c_committer_done s"
  by (simp_all add: pauseLocked_def Let_def)

lemma frame_resumeLocked [frame]:
  "c_cfg (resumeLocked k x s) = c_cfg s" "c_pool (resumeLocked k x s) = c_pool s" "c_workers (resumeLocked k x s) = c_workers s"
  "c_queuedRecords (resumeLocked k x s) = c_queuedRecords s" "c_stopped (resumeLocked k x s) = c_stopped s"
  "c_pendingOffsets (resumeLocked k x s) = c_pendingOffsets s" "c_uncommitted (resumeLocked k x s) = c_uncommitted s"
  "c_backpressured (resumeLocked k x s) = c_backpressured s" "c_committer_done (resumeLocked k x s) = c_committer_done s"
  by (simp_all add: resumeLocked_def Let_def)

lemma frame_pause [frame]:
  "c_cfg (pause i s) = c_cfg s" "c_pool (pause i s) = c_pool s" "c_workers (pause i s) = c_workers s"
  "c_queuedRecords (pause i s) = c_queuedRecords s" "c_stopped (pause i s) = c_stopped s"
  "c_pendingOffsets (pause i s) = c_pendingOffsets s" "c_uncommitted (pause i s) = c_uncommitted s"
  "c_backpressured (pause i s) = c_backpressured s" "c_committer_done (pause i s) = c_committer_done s"
  by (simp_all add: pause_def Let_def frame)

lemma frame_setCommitBackpressure [frame]:
  "c_cfg (setCommitBackpressure k b s) = c_cfg s" "c_pool (setCommitBackpressure k b s) = c_pool s"
  "c_workers (setCommitBackpressure k b s) = c_workers s" "c_queuedRecords (setCommitBackpressure k b s) = c_queuedRecords s"
  "c_stopped (setCommitBackpressure k b s) = c_stopped s" "c_pendingOffsets (setCommitBackpressure k b s) = c_pendingOffsets s"
  "c_uncommitted (setCommitBackpressure k b s) = c_uncommitted s" "c_backpressured (setCommitBackpressure k b s) = c_backpressured s"
  "c_committer_done (setCommitBackpressure k b s) = c_committer_done s"
  by (simp_all add: setCommitBackpressure_def frame)

lemma frame_upd_worker [frame]:
  "c_cfg (upd_worker i f s) = c_cfg s" "c_workers (upd_worker i f s) = c_workers s"
  "c_queuedRecords (upd_worker i f s) = c_queuedRecords s" "c_stopped (upd_worker i f s) = c_stopped s"
  "c_pendingOffsets (upd_worker i f s) = c_pendingOffsets s" "c_uncommitted (upd_worker i f s) = c_uncommitted s"
  "c_backpressured (upd_worker i f s) = c_backpressured s" "c_pauseReasons (upd_worker i f s) = c_pauseReasons s"
  "c_paused (upd_worker i f s) = c_paused s" "c_committer_done (upd_worker i f s) = c_committer_done s"
  "length (c_pool (upd_worker i f s)) = length (c_pool s)"
  by (simp_all add: upd_worker_def)

lemma worker_at_upd [frame]:
  "i < length (c_pool s) \<Longrightarrow> worker_at (upd_worker i f s) j = (if j = i then f (worker_at s i) else worker_at s j)"
  by (simp add: upd_worker_def)

lemma frame_mark [frame]:
  "c_cfg (mark lt r s) = c_cfg s" "c_pool (mark lt r s) = c_pool s" "c_workers (mark lt r s) = c_workers s"
  "c_queuedRecords (mark lt r s) = c_queuedRecords s" "c_stopped (mark lt r s) = c_stopped s"
  "c_committer_done (mark lt r s) = c_committer_done s"
  "c_pendingOffsets (mark lt r s) = put_pending lt (cloneCompletedRecord r) (c_pendingOffsets s)"
  "c_uncommitted (mark lt r s) = (c_uncommitted s)(key_of r := c_uncommitted s (key_of r) + 1)"
  by (simp_all add: mark_def Let_def frame)

lemma frame_acknowledge [frame]:
  "c_cfg (acknowledge cs s) = c_cfg s" "c_pool (acknowledge cs s) = c_pool s" "c_workers (acknowledge cs s) = c_workers s"
  "c_queuedRecords (acknowledge cs s) = c_queuedRecords s" "c_stopped (acknowledge cs s) = c_stopped s"
  "c_pendingOffsets (acknowledge cs s) = c_pendingOffsets s" "c_committer_done (acknowledge cs s) = c_committer_done s"
  by (induction cs s rule: acknowledge.induct) (simp_all add: Let_def frame)

lemma frame_flush_end [frame]:
  "c_cfg (flush_end lt b ok s) = c_cfg s" "c_pool (flush_end lt b ok s) = c_pool s" "c_workers (flush_end lt b ok s) = c_workers s"
  "c_queuedRecords (flush_end lt b ok s) = c_queuedRecords s" "c_stopped (flush_end lt b ok s) = c_stopped s"
  "c_committer_done (flush_end lt b ok s) = c_committer_done s"
  by (simp_all add: flush_end_def requeue_def frame)

lemma frame_dropPartitions [frame]:
  "c_cfg (dropPartitions ps s) = c_cfg s" "c_pool (dropPartitions ps s) = c_pool s" "c_workers (dropPartitions ps s) = c_workers s"
  "c_queuedRecords (dropPartitions ps s) = c_queuedRecords s" "c_stopped (dropPartitions ps s) = c_stopped s"
  by (simp_all add: dropPartitions_def)

lemma key_of_clone [simp]: "key_of (cloneCompletedRecord r) = key_of r" "kr_Offset (cloneCompletedRecord r) = kr_Offset r"
  by (simp_all add: cloneCompletedRecord_def)

lemma set_update_subset: "set (AList.update k v al) \<subseteq> insert (k, v) (set al)"
  by (induction al) auto

lemma set_put_pending: "set (put_pending lt r al) \<subseteq> insert (key_of r, r) (set al)"
  using set_update_subset[of "key_of r" r al] by (auto simp: put_pending_def split: option.splits)

lemma set_requeue: "set (foldl (\<lambda>p r. put_pending lt r p) al rs) \<subseteq> (\<lambda>r. (key_of r, r)) ` set rs \<union> set al"
  by (induction rs arbitrary: al) (use set_put_pending in \<open>fastforce+\<close>)

lemma map_of_filter_key: "map_of (filter (\<lambda>(k, _). P k) al) k = (if P k then map_of al k else None)"
  by (induction al) auto

lemma refill_append: "refill cap chan pending = (chan', pending') \<Longrightarrow> chan' @ pending' = chan @ pending"
  by (induction cap chan pending rule: refill.induct) (auto split: if_splits)

section \<open>The invariant\<close>

abbreviation settled_set :: "consumer_sys \<Rightarrow> kafka_record set" where
  "settled_set s \<equiv> fst ` set (cs_results s)"

text \<open>No unsettled record of the partition lies before \<open>r\<close>.\<close>

definition covered :: "broker_log \<Rightarrow> kafka_record set \<Rightarrow> kafka_record \<Rightarrow> bool" where
  "covered blog R r \<longleftrightarrow> (\<forall>q\<in>set (blog (key_of r)). kr_Offset q \<le> kr_Offset r \<longrightarrow> q \<in> R)"

fun in_hand :: "worker_phase \<Rightarrow> kafka_record list" where
  "in_hand (Handling r) = [r]"
| "in_hand (Retrying r) = [r]"
| "in_hand (Marking r) = [r]"
| "in_hand _ = []"

text \<open>The overflow queue that belongs to a worker, while the partition is assigned to it.\<close>

definition queue_of :: "consumer \<Rightarrow> nat \<Rightarrow> kafka_record list option" where
  "queue_of c i = (let k = w_key (worker_at c i) in if worker_of c k = Some i \<and> \<not> c_stopped c then Some (c_queuedRecords c k) else None)"

definition worker_ok ::
  "broker_log \<Rightarrow> kafka_record set \<Rightarrow> partitionWorker \<Rightarrow> kafka_record list \<Rightarrow> nat \<Rightarrow> kafka_record list option \<Rightarrow> bool" where
  "worker_ok blog R w given start queue \<longleftrightarrow>
     set (take start (blog (w_key w))) \<subseteq> R
     \<and> (\<exists>n. given = take n (drop start (blog (w_key w))))
     \<and> (w_phase w \<noteq> Exited \<longrightarrow> (\<exists>dn rest. given = dn @ in_hand (w_phase w) @ w_records w @ rest \<and> set dn \<subseteq> R
          \<and> (\<forall>q. queue = Some q \<longrightarrow> rest = q)))
     \<and> (\<forall>r. w_phase w = Marking r \<longrightarrow> r \<in> R)
     \<and> (\<forall>r. w_lastCompleted w = Some r \<longrightarrow> covered blog R r)"

definition offsets_ok :: "broker_log \<Rightarrow> consumer_sys \<Rightarrow> bool" where
  "offsets_ok blog s \<longleftrightarrow>
     (\<forall>(k, r)\<in>set (c_pendingOffsets (cs_c s)). covered blog (settled_set s) r)
     \<and> (\<forall>b. cs_flight s = Some b \<longrightarrow> (\<forall>r\<in>set (cb_records b). covered blog (settled_set s) r))
     \<and> (\<forall>k n. cs_committed s k = Some n \<longrightarrow> (\<forall>q\<in>set (blog k). kr_Offset q < n \<longrightarrow> q \<in> settled_set s))"

definition tables_ok :: "consumer_sys \<Rightarrow> bool" where
  "tables_ok s \<longleftrightarrow>
     distinct (map fst (c_workers (cs_c s)))
     \<and> (\<forall>(k, i)\<in>set (c_workers (cs_c s)). i < length (c_pool (cs_c s)) \<and> w_key (worker_at (cs_c s) i) = k)
     \<and> (\<forall>k. worker_of (cs_c s) k = None \<longrightarrow> c_queuedRecords (cs_c s) k = [])
     \<and> (\<forall>is ps c. cs_revoking s = Some (is, ps, c) \<longrightarrow> (\<forall>i\<in>set is. i < length (c_pool (cs_c s))))
     \<and> (\<forall>is. cs_stopping s = Some is \<longrightarrow> (\<forall>i\<in>set is. i < length (c_pool (cs_c s))))"

definition polled_ok :: "broker_log \<Rightarrow> consumer_sys \<Rightarrow> bool" where
  "polled_ok blog s \<longleftrightarrow> (\<forall>k i. worker_of (cs_c s) k = Some i \<and> \<not> c_stopped (cs_c s) \<longrightarrow>
     (\<exists>n. filter (\<lambda>r. key_of r = k) (cs_polled s) = take n (drop (cs_start s i + length (cs_given s i)) (blog k))))"

definition safe_sys :: "Config \<Rightarrow> broker_log \<Rightarrow> consumer_sys \<Rightarrow> bool" where
  "safe_sys cfg blog s \<longleftrightarrow> c_cfg (cs_c s) = withDefaults cfg \<and> tables_ok s \<and> polled_ok blog s \<and> offsets_ok blog s
     \<and> (\<forall>i < length (c_pool (cs_c s)). worker_ok blog (settled_set s) (worker_at (cs_c s) i) (cs_given s i) (cs_start s i) (queue_of (cs_c s) i))
     \<and> (\<forall>(r, oc)\<in>set (cs_results s). outcome_allowed (withDefaults cfg) oc)"

section \<open>Steps of a worker\<close>

lemma covered_mono: "covered blog R r \<Longrightarrow> R \<subseteq> R' \<Longrightarrow> covered blog R' r"
  by (auto simp: covered_def)

lemma covered_clone [simp]: "covered blog R (cloneCompletedRecord r) = covered blog R r"
  by (simp add: covered_def)

lemma worker_ok_new: "set (take start (blog k)) \<subseteq> R \<Longrightarrow> worker_ok blog R (new_worker k) [] start (Some [])"
  by (auto simp: worker_ok_def new_worker_def)

lemma worker_okI:
  assumes "set (take start (blog (w_key w))) \<subseteq> R" "given = take n (drop start (blog (w_key w)))"
    "given = dn @ in_hand (w_phase w) @ w_records w @ rest" "set dn \<subseteq> R" "\<And>q. queue = Some q \<Longrightarrow> rest = q"
    "\<And>r. w_phase w = Marking r \<Longrightarrow> r \<in> R" "\<And>r. w_lastCompleted w = Some r \<Longrightarrow> covered blog R r"
  shows "worker_ok blog R w given start queue"
  unfolding worker_ok_def using assms by blast

lemma worker_okE:
  assumes "worker_ok blog R w given start queue" "w_phase w \<noteq> Exited"
  obtains n dn rest where "set (take start (blog (w_key w))) \<subseteq> R" "given = take n (drop start (blog (w_key w)))"
    "given = dn @ in_hand (w_phase w) @ w_records w @ rest" "set dn \<subseteq> R" "\<forall>q. queue = Some q \<longrightarrow> rest = q"
    "\<forall>r. w_phase w = Marking r \<longrightarrow> r \<in> R" "\<forall>r. w_lastCompleted w = Some r \<longrightarrow> covered blog R r"
  using assms unfolding worker_ok_def by blast

lemma worker_ok_mono:
  assumes "worker_ok blog R w given start queue" "R \<subseteq> R'" "queue' = queue \<or> queue' = None"
  shows "worker_ok blog R' w given start queue'"
proof (cases "w_phase w = Exited")
  case True
  then show ?thesis using assms(1,2) covered_mono[OF _ assms(2)] unfolding worker_ok_def by simp blast
next
  case False
  from assms(1) this obtain n dn rest where w: "set (take start (blog (w_key w))) \<subseteq> R" "given = take n (drop start (blog (w_key w)))"
    "given = dn @ in_hand (w_phase w) @ w_records w @ rest" "set dn \<subseteq> R" "\<forall>q. queue = Some q \<longrightarrow> rest = q"
    "\<forall>r. w_phase w = Marking r \<longrightarrow> r \<in> R" "\<forall>r. w_lastCompleted w = Some r \<longrightarrow> covered blog R r"
    by (rule worker_okE) blast
  show ?thesis
    by (rule worker_okI[where n = n and dn = dn and rest = rest]) (use w assms(2,3) covered_mono in \<open>blast+\<close>)
qed

lemma worker_ok_enqueue:
  assumes "worker_ok blog R w given start (Some queue)" "given @ [r] = take n (drop start (blog (w_key w)))"
  shows "worker_ok blog R w (given @ [r]) start (Some (queue @ [r]))"
    "queue = [] \<Longrightarrow> worker_ok blog R (w\<lparr>w_records := w_records w @ [r]\<rparr>) (given @ [r]) start (Some [])"
proof -
  show "worker_ok blog R w (given @ [r]) start (Some (queue @ [r]))"
  proof (cases "w_phase w = Exited")
    case True then show ?thesis using assms unfolding worker_ok_def by auto
  next
    case False
    from assms(1) False obtain m dn rest where w: "set (take start (blog (w_key w))) \<subseteq> R" "given = take m (drop start (blog (w_key w)))"
      "given = dn @ in_hand (w_phase w) @ w_records w @ rest" "set dn \<subseteq> R" "\<forall>q. Some queue = Some q \<longrightarrow> rest = q"
      "\<forall>r. w_phase w = Marking r \<longrightarrow> r \<in> R" "\<forall>r. w_lastCompleted w = Some r \<longrightarrow> covered blog R r"
      by (rule worker_okE) blast
    show ?thesis
      by (rule worker_okI[where n = n and dn = dn and rest = "queue @ [r]"]) (use w(1,3-7) assms(2) in auto)
  qed
  then show "worker_ok blog R (w\<lparr>w_records := w_records w @ [r]\<rparr>) (given @ [r]) start (Some [])" if "queue = []"
    using that unfolding worker_ok_def by auto
qed

lemma worker_ok_phase:
  assumes "worker_ok blog R w given start queue" "in_hand p = in_hand (w_phase w)" "w_phase w \<noteq> Exited"
    "\<And>r. p = Marking r \<Longrightarrow> r \<in> R"
  shows "worker_ok blog R (w\<lparr>w_phase := p\<rparr>) given start queue"
  using assms unfolding worker_ok_def by auto

lemma worker_ok_exit: "worker_ok blog R w given start queue \<Longrightarrow> worker_ok blog R (w\<lparr>w_phase := Exited\<rparr>) given start queue"
  unfolding worker_ok_def by auto

lemma worker_ok_receive:
  assumes "worker_ok blog R w given start queue" "w_phase w = Waiting" "w_records w = r # rs"
  shows "worker_ok blog R (w\<lparr>w_records := rs, w_phase := Handling r\<rparr>) given start queue"
  using assms unfolding worker_ok_def by auto

lemma worker_ok_covers:
  assumes "log_ok blog" "worker_ok blog R w given start queue" "w_phase w = Marking r"
  shows "covered blog R r" "key_of r = w_key w"
proof -
  let ?l = "blog (w_key w)"
  have "w_phase w \<noteq> Exited" using assms(3) by simp
  from assms(2) this obtain n dn rest where w: "set (take start (blog (w_key w))) \<subseteq> R" "given = take n (drop start (blog (w_key w)))"
    "given = dn @ in_hand (w_phase w) @ w_records w @ rest" "set dn \<subseteq> R" "\<forall>q. queue = Some q \<longrightarrow> rest = q"
    "\<forall>r. w_phase w = Marking r \<longrightarrow> r \<in> R" "\<forall>r. w_lastCompleted w = Some r \<longrightarrow> covered blog R r"
    by (rule worker_okE) blast
  have g: "given = take n (drop start ?l)" "given = dn @ r # w_records w @ rest" and R: "set (take start ?l) \<subseteq> R" "set dn \<subseteq> R" "r \<in> R"
    using w(1,4) w(6) assms(3) by (simp_all add: w(2)) (metis w(2) w(3) assms(3) append_Cons append_Nil in_hand.simps(3))
  have l: "?l = take start ?l @ dn @ r # (w_records w @ rest @ drop n (drop start ?l))"
    using g by (metis append.assoc append_Cons append_take_drop_id)
  have ok: "\<forall>q\<in>set ?l. key_of q = w_key w" "sorted_wrt (\<lambda>q r. kr_Offset q < kr_Offset r) ?l"
    using assms(1) unfolding log_ok_def by blast+
  then show k: "key_of r = w_key w" using l by (metis in_set_conv_decomp append.assoc)
  have "q \<in> R" if q: "q \<in> set ?l" "kr_Offset q \<le> kr_Offset r" for q
  proof -
    have "sorted_wrt (\<lambda>q r. kr_Offset q < kr_Offset r) (take start ?l @ dn @ r # (w_records w @ rest @ drop n (drop start ?l)))"
      using ok(2) l by simp
    then have "\<forall>q\<in>set (w_records w @ rest @ drop n (drop start ?l)). kr_Offset r < kr_Offset q"
      by (auto simp: sorted_wrt_append)
    then have "q \<notin> set (w_records w @ rest @ drop n (drop start ?l))" using q(2) by (meson not_less)
    moreover have "q \<in> set (take start ?l) \<union> set dn \<union> {r} \<union> set (w_records w @ rest @ drop n (drop start ?l))"
      using q(1) arg_cong[OF l, of set] by (simp only: set_append list.set) blast
    ultimately show ?thesis using R by blast
  qed
  then show "covered blog R r" unfolding covered_def k by blast
qed

lemma worker_ok_marked:
  assumes "worker_ok blog R w given start queue" "w_phase w = Marking r" "covered blog R r"
  shows "worker_ok blog R (w\<lparr>w_lastCompleted := Some (cloneCompletedRecord r), w_phase := Marked\<rparr>) given start queue"
proof -
  have "w_phase w \<noteq> Exited" using assms(2) by simp
  from assms(1) this obtain n dn rest where w: "set (take start (blog (w_key w))) \<subseteq> R" "given = take n (drop start (blog (w_key w)))"
    "given = dn @ in_hand (w_phase w) @ w_records w @ rest" "set dn \<subseteq> R" "\<forall>q. queue = Some q \<longrightarrow> rest = q"
    "\<forall>r. w_phase w = Marking r \<longrightarrow> r \<in> R" "\<forall>r. w_lastCompleted w = Some r \<longrightarrow> covered blog R r"
    by (rule worker_okE) blast
  show ?thesis by (rule worker_okI[where dn = "dn @ [r]" and rest = rest and n = n]) (use w assms(2,3) in auto)
qed

lemma worker_ok_refill:
  assumes "worker_ok blog R w given start (Some queue)" "refill cap (w_records w) queue = (chan, pending)"
  shows "worker_ok blog R (w\<lparr>w_records := chan\<rparr>) given start (Some pending)"
  using assms(1) refill_append[OF assms(2)] unfolding worker_ok_def by auto

lemma worker_ok_flags:
  "worker_ok blog R (w\<lparr>w_cancelled := b\<rparr>) given start queue = worker_ok blog R w given start queue"
  "worker_ok blog R (w\<lparr>w_active := b\<rparr>) given start queue = worker_ok blog R w given start queue"
  by (simp_all add: worker_ok_def)

section \<open>Steps of the system\<close>

lemma safe_init: "consumer_init cfg s \<Longrightarrow> safe_sys cfg blog s"
  by (auto simp: consumer_init_def safe_sys_def newPartitionRuntime_def tables_ok_def polled_ok_def offsets_ok_def)

lemma tables_okD:
  assumes "tables_ok s" "worker_of (cs_c s) k = Some i"
  shows "i < length (c_pool (cs_c s))" "w_key (worker_at (cs_c s) i) = k"
  using assms map_of_SomeD unfolding tables_ok_def by fastforce+

lemma safe_sysD:
  assumes "safe_sys cfg blog s"
  shows "c_cfg (cs_c s) = withDefaults cfg" "tables_ok s" "polled_ok blog s" "offsets_ok blog s"
    "i < length (c_pool (cs_c s)) \<Longrightarrow>
       worker_ok blog (settled_set s) (worker_at (cs_c s) i) (cs_given s i) (cs_start s i) (queue_of (cs_c s) i)"
  using assms by (simp_all add: safe_sys_def)

text \<open>A step of worker \<open>i\<close> alone.\<close>

lemma safe_worker_step:
  assumes "safe_sys cfg blog s" "i < length (c_pool (cs_c s))"
    and c': "c_pool c' = (c_pool (cs_c s))[i := w']" "c_cfg c' = c_cfg (cs_c s)" "c_workers c' = c_workers (cs_c s)"
      "c_stopped c' = c_stopped (cs_c s)"
      "c_queuedRecords c' = c_queuedRecords (cs_c s)
       \<or> worker_of (cs_c s) (w_key w') = Some i \<and> (\<forall>k. k \<noteq> w_key w' \<longrightarrow> c_queuedRecords c' k = c_queuedRecords (cs_c s) k)"
    and w': "w_key w' = w_key (worker_at (cs_c s) i)"
      "worker_ok blog (settled_set s') w' (cs_given s i) (cs_start s i) (queue_of c' i)"
    and p: "set (c_pendingOffsets c') \<subseteq> set (c_pendingOffsets (cs_c s)) \<union> {(k, r). covered blog (settled_set s') r}"
    and s': "s' = s\<lparr>cs_c := c', cs_results := cs_results s @ extra\<rparr>" "\<forall>(r, oc)\<in>set extra. outcome_allowed (withDefaults cfg) oc"
  shows "safe_sys cfg blog s'"
proof -
  have sub: "settled_set s \<subseteq> settled_set s'" by (auto simp: s')
  have q: "queue_of c' j = queue_of (cs_c s) j" if "j \<noteq> i" for j
    using c'(5) w'(1) that
    by (cases "w_key (worker_at (cs_c s) j) = w_key w'") (auto simp: queue_of_def Let_def c'(1,3,4))
  have "worker_ok blog (settled_set s') (worker_at c' j) (cs_given s j) (cs_start s j) (queue_of c' j)"
    if j: "j < length (c_pool (cs_c s))" for j
  proof (cases "j = i")
    case False
    then have "worker_at c' j = worker_at (cs_c s) j" by (simp add: c'(1))
    moreover have "worker_ok blog (settled_set s) (worker_at (cs_c s) j) (cs_given s j) (cs_start s j) (queue_of (cs_c s) j)"
      using assms(1) j by (simp add: safe_sys_def)
    ultimately show ?thesis using worker_ok_mono[OF _ sub] q[OF False] by simp
  qed (use w'(2) assms(2) c'(1) in simp)
  moreover have wk: "w_key ((c_pool (cs_c s))[i := w'] ! j) = w_key (worker_at (cs_c s) j)" for j
    using assms(2) w'(1) by (cases "j = i") simp_all
  moreover have qk: "\<forall>k. worker_of (cs_c s) k = None \<longrightarrow> c_queuedRecords c' k = []"
    using c'(5) safe_sysD(2)[OF assms(1)] unfolding tables_ok_def by (metis option.distinct(1))
  moreover have "tables_ok s'" using assms(1) wk qk unfolding safe_sys_def tables_ok_def by (simp add: s'(1) c'(1-4))
  moreover have "offsets_ok blog s'"
  proof -
    have c: "covered blog (settled_set s') r" if "covered blog (settled_set s) r" for r by (rule covered_mono[OF that sub])
    have old: "offsets_ok blog s" using assms(1) by (simp add: safe_sys_def)
    then have "\<forall>(k, r)\<in>set (c_pendingOffsets (cs_c s)). covered blog (settled_set s') r" using c by (auto simp: offsets_ok_def)
    then have "\<forall>(k, r)\<in>set (c_pendingOffsets c'). covered blog (settled_set s') r" using p by auto
    then show ?thesis using old c sub unfolding offsets_ok_def by (simp add: s') blast
  qed
  moreover have "polled_ok blog s'" using assms(1) by (simp add: safe_sys_def polled_ok_def s'(1) c')
  ultimately show ?thesis using assms(1) s'(2) by (auto simp: safe_sys_def s'(1) c')
qed

text \<open>A step that leaves the workers alone, though it may take partitions away from them.\<close>

lemma safe_frame:
  assumes "safe_sys cfg blog s"
    and c': "c_pool c' = c_pool (cs_c s)" "c_cfg c' = c_cfg (cs_c s)" "c_workers c' = filter (\<lambda>(k, _). P k) (c_workers (cs_c s))"
      "c_stopped (cs_c s) \<longrightarrow> c_stopped c'" "\<forall>k. c_queuedRecords c' k = (if P k then c_queuedRecords (cs_c s) k else [])"
      "set (c_pendingOffsets c') \<subseteq> set (c_pendingOffsets (cs_c s)) \<union> {(k, r). covered blog (settled_set s') r}"
    and s': "cs_c s' = c'" "cs_polled s' = cs_polled s" "cs_given s' = cs_given s" "cs_start s' = cs_start s"
      "cs_results s' = cs_results s @ extra" "\<forall>(r, oc)\<in>set extra. outcome_allowed (withDefaults cfg) oc"
    and f: "\<forall>b. cs_flight s' = Some b \<longrightarrow> (\<forall>r\<in>set (cb_records b). covered blog (settled_set s') r)"
    and k: "\<forall>k n. cs_committed s' k = Some n \<longrightarrow> (\<forall>q\<in>set (blog k). kr_Offset q < n \<longrightarrow> q \<in> settled_set s')"
    and i: "\<forall>is ps c. cs_revoking s' = Some (is, ps, c) \<longrightarrow> (\<forall>i\<in>set is. i < length (c_pool (cs_c s)))"
      "\<forall>is. cs_stopping s' = Some is \<longrightarrow> (\<forall>i\<in>set is. i < length (c_pool (cs_c s)))"
  shows "safe_sys cfg blog s'"
proof -
  have sub: "settled_set s \<subseteq> settled_set s'" by (auto simp: s')
  have m: "worker_of c' k = (if P k then worker_of (cs_c s) k else None)" for k
    unfolding c'(3) by (rule map_of_filter_key)
  have "worker_ok blog (settled_set s') (worker_at c' j) (cs_given s j) (cs_start s j) (queue_of c' j)"
    if j: "j < length (c_pool (cs_c s))" for j
  proof (rule worker_ok_mono[OF _ sub])
    show "worker_ok blog (settled_set s) (worker_at c' j) (cs_given s j) (cs_start s j) (queue_of (cs_c s) j)"
      using assms(1) j by (simp add: safe_sys_def c'(1))
    show "queue_of c' j = queue_of (cs_c s) j \<or> queue_of c' j = None"
      using c'(4,5) by (auto simp: queue_of_def Let_def m c'(1))
  qed
  moreover have "tables_ok s'" using assms(1) i
    by (auto simp: safe_sys_def tables_ok_def s' c'(1,5) distinct_map_filter m) (auto simp: c'(3) distinct_map_filter)
  moreover have "offsets_ok blog s'"
  proof -
    have "\<forall>(k, r)\<in>set (c_pendingOffsets (cs_c s)). covered blog (settled_set s') r"
      using assms(1) covered_mono[OF _ sub] by (auto simp: safe_sys_def offsets_ok_def)
    then have "\<forall>(k, r)\<in>set (c_pendingOffsets c'). covered blog (settled_set s') r" using c'(6) by auto
    then show ?thesis using f k unfolding offsets_ok_def s'(1) by blast
  qed
  moreover have "polled_ok blog s'" using safe_sysD(3)[OF assms(1)] c'(4) by (simp add: polled_ok_def s' m) blast
  ultimately show ?thesis using assms(1) s'(6) by (auto simp: safe_sys_def s'(1-5) c')
qed

lemma queue_of_upd [frame]:
  "i < length (c_pool c) \<Longrightarrow> w_key (f (worker_at c i)) = w_key (worker_at c i) \<Longrightarrow> queue_of (upd_worker i f c) i = queue_of c i"
  by (simp add: queue_of_def Let_def frame)

lemma upd_worker_pool: "c_pool (upd_worker i f c) = (c_pool c)[i := f (worker_at c i)]"
  by (simp add: upd_worker_def)

text \<open>A step that changes only the record of one worker, except its key.\<close>

lemma safe_upd_worker:
  assumes "safe_sys cfg blog s" "i < length (c_pool (cs_c s))" "w_key (f (worker_at (cs_c s) i)) = w_key (worker_at (cs_c s) i)"
    and "worker_ok blog (settled_set (s\<lparr>cs_results := cs_results s @ extra\<rparr>)) (f (worker_at (cs_c s) i))
           (cs_given s i) (cs_start s i) (queue_of (cs_c s) i)"
    and "\<forall>(r, oc)\<in>set extra. outcome_allowed (withDefaults cfg) oc"
  shows "safe_sys cfg blog (s\<lparr>cs_c := upd_worker i f (cs_c s), cs_results := cs_results s @ extra\<rparr>)"
  by (rule safe_worker_step[OF assms(1,2) upd_worker_pool, where extra = extra]) (use assms in \<open>auto simp: frame\<close>)

lemmas safe_upd_worker0 = safe_upd_worker[where extra = "[]", simplified]

lemma safe_received:
  assumes "safe_sys cfg blog s" "i < length (c_pool (cs_c s))" "phase_at s i = Waiting" "w_records (worker_at (cs_c s) i) = r # rs"
  shows "safe_sys cfg blog (s\<lparr>cs_c := upd_worker i (\<lambda>w. w\<lparr>w_records := rs, w_phase := Handling r\<rparr>) (cs_c s)\<rparr>)"
  by (rule safe_upd_worker0[OF assms(1,2)]) (use worker_ok_receive[OF safe_sysD(5)[OF assms(1,2)] assms(3,4)] in simp_all)

lemma safe_exit:
  assumes "safe_sys cfg blog s" "i < length (c_pool (cs_c s))"
  shows "safe_sys cfg blog (s\<lparr>cs_c := set_phase i Exited (cs_c s)\<rparr>)"
  by (rule safe_upd_worker0[OF assms]) (use worker_ok_exit[OF safe_sysD(5)[OF assms]] in simp_all)

lemma safe_flags:
  assumes "safe_sys cfg blog s" "i < length (c_pool (cs_c s))"
  shows "safe_sys cfg blog (s\<lparr>cs_c := cancel_worker i (cs_c s)\<rparr>)" "safe_sys cfg blog (s\<lparr>cs_c := stop_worker i (cs_c s)\<rparr>)"
  unfolding cancel_worker_def stop_worker_def
  by (rule safe_upd_worker0[OF assms]; use safe_sysD(5)[OF assms] in \<open>simp add: worker_ok_flags\<close>)+

lemma outcome_allowed_handler:
  assumes "handler_outcome cfg retryable err events = Some oc" "completes c oc"
  shows "outcome_allowed cfg oc"
proof -
  have "outcome_allowed cfg oc" if "retryRecord cfg d a events = Some oc" for d a
    using that assms(2)
    by (induction cfg d a events rule: retryRecord.induct) (auto simp: outcome_allowed_def completes_def Let_def split: if_splits)
  then show ?thesis using assms by (auto simp: handler_outcome_def outcome_allowed_def completes_def split: if_splits)
qed

lemma safe_concluded:
  assumes "safe_sys cfg blog s" "i < length (c_pool (cs_c s))" "in_hand (phase_at s i) = [r]"
    "handler_outcome (c_cfg (cs_c s)) retryable err events = Some oc" "completes c oc"
  shows "safe_sys cfg blog (s\<lparr>cs_c := set_phase i (Marking r) (cs_c s), cs_results := cs_results s @ [(r, oc)]\<rparr>)"
proof (rule safe_upd_worker[OF assms(1,2)])
  have "worker_ok blog (insert r (settled_set s)) (worker_at (cs_c s) i) (cs_given s i) (cs_start s i) (queue_of (cs_c s) i)"
    by (rule worker_ok_mono[OF safe_sysD(5)[OF assms(1,2)]]) auto
  then show "worker_ok blog (settled_set (s\<lparr>cs_results := cs_results s @ [(r, oc)]\<rparr>)) ((worker_at (cs_c s) i)\<lparr>w_phase := Marking r\<rparr>)
      (cs_given s i) (cs_start s i) (queue_of (cs_c s) i)"
    using assms(3) by (intro worker_ok_phase) auto
qed (use outcome_allowed_handler[OF assms(4,5)] safe_sysD(1)[OF assms(1)] in auto)

lemma queue_of_cong:
  "c_pool c' = c_pool c \<Longrightarrow> c_workers c' = c_workers c \<Longrightarrow> c_stopped c' = c_stopped c \<Longrightarrow> c_queuedRecords c' = c_queuedRecords c
     \<Longrightarrow> queue_of c' i = queue_of c i"
  by (simp add: queue_of_def Let_def)

lemma safe_retrying:
  assumes "safe_sys cfg blog s" "i < length (c_pool (cs_c s))" "phase_at s i = Handling r"
  shows "safe_sys cfg blog (s\<lparr>cs_c := pause i (set_phase i (Retrying r) (cs_c s))\<rparr>)"
proof (rule safe_worker_step[OF assms(1,2), where extra = "[]" and w' = "(worker_at (cs_c s) i)\<lparr>w_phase := Retrying r\<rparr>"])
  let ?c = "pause i (set_phase i (Retrying r) (cs_c s))"
  have "queue_of ?c i = queue_of (cs_c s) i"
    using queue_of_upd[OF assms(2), of "\<lambda>w. w\<lparr>w_phase := Retrying r\<rparr>"]
    by (subst queue_of_cong[where c = "set_phase i (Retrying r) (cs_c s)"]) (simp_all add: frame)
  then show "worker_ok blog (settled_set (s\<lparr>cs_c := ?c\<rparr>)) ((worker_at (cs_c s) i)\<lparr>w_phase := Retrying r\<rparr>)
      (cs_given s i) (cs_start s i) (queue_of ?c i)"
    using worker_ok_phase[OF safe_sysD(5)[OF assms(1,2)], of "Retrying r"] assms(3) by simp
qed (simp_all add: frame upd_worker_pool)

lemma safe_marked:
  assumes "log_ok blog" "safe_sys cfg blog s" "i < length (c_pool (cs_c s))" "phase_at s i = Marking r"
    "markCompleted lt i r (cs_c s) = (True, c')"
  shows "safe_sys cfg blog (s\<lparr>cs_c := set_phase i Marked c'\<rparr>)"
proof -
  let ?w = "(worker_at (cs_c s) i)\<lparr>w_lastCompleted := Some (cloneCompletedRecord r), w_phase := Marked\<rparr>"
  let ?u = "upd_worker i (\<lambda>w. w\<lparr>w_lastCompleted := Some (cloneCompletedRecord r)\<rparr>) (cs_c s)"
  note ok = safe_sysD(5)[OF assms(2,3)]
  note cov = worker_ok_covers(1)[OF assms(1) ok assms(4)]
  have c': "c' = mark lt r ?u" using assms(5) by (auto simp: markCompleted_def split: if_splits)
  have "queue_of (set_phase i Marked c') i = queue_of (cs_c s) i"
    using assms(3) by (simp add: queue_of_def Let_def c' frame)
  then have "worker_ok blog (settled_set (s\<lparr>cs_c := set_phase i Marked c'\<rparr>)) ?w (cs_given s i) (cs_start s i) (queue_of (set_phase i Marked c') i)"
    using worker_ok_marked[OF ok assms(4) cov] by simp
  moreover have "set (c_pendingOffsets (set_phase i Marked c')) \<subseteq> set (c_pendingOffsets (cs_c s)) \<union> {(k, r). covered blog (settled_set s) r}"
    using set_put_pending[of lt "cloneCompletedRecord r" "c_pendingOffsets (cs_c s)"] cov by (auto simp: c' frame)
  moreover have "c_pool (set_phase i Marked c') = (c_pool (cs_c s))[i := ?w]" using assms(3) by (simp add: c' upd_worker_pool frame)
  ultimately show ?thesis
    by (intro safe_worker_step[OF assms(2,3), where extra = "[]" and w' = ?w]) (simp_all add: c' frame)
qed

lemma safe_processed:
  assumes "safe_sys cfg blog s" "i < length (c_pool (cs_c s))" "phase_at s i = Marked"
  shows "safe_sys cfg blog (s\<lparr>cs_c := set_phase i Waiting (afterProcessed i (cs_c s))\<rparr>)"
proof (cases "worker_of (cs_c s) (w_key (worker_at (cs_c s) i)) \<noteq> Some i \<or> c_stopped (cs_c s)")
  case True
  then have "afterProcessed i (cs_c s) = cs_c s" by (simp add: afterProcessed_def Let_def)
  then show ?thesis
    using safe_upd_worker0[OF assms(1,2), of "\<lambda>w. w\<lparr>w_phase := Waiting\<rparr>"] worker_ok_phase[OF safe_sysD(5)[OF assms(1,2)], of Waiting] assms(3)
    by simp
next
  case False
  let ?k = "w_key (worker_at (cs_c s) i)"
  obtain chan pending where r: "refill (QueueSize (c_cfg (cs_c s))) (w_records (worker_at (cs_c s) i)) (c_queuedRecords (cs_c s) ?k) = (chan, pending)"
    by fastforce
  let ?w = "(worker_at (cs_c s) i)\<lparr>w_records := chan, w_phase := Waiting\<rparr>"
  let ?c = "set_phase i Waiting (afterProcessed i (cs_c s))"
  have c: "c_pool ?c = (c_pool (cs_c s))[i := ?w]" "c_cfg ?c = c_cfg (cs_c s)" "c_workers ?c = c_workers (cs_c s)" "c_stopped ?c = c_stopped (cs_c s)"
    "c_queuedRecords ?c = (c_queuedRecords (cs_c s))(?k := pending)" "c_pendingOffsets ?c = c_pendingOffsets (cs_c s)"
    using False r assms(2) by (simp_all add: afterProcessed_def Let_def frame upd_worker_pool)
  have q: "queue_of (cs_c s) i = Some (c_queuedRecords (cs_c s) ?k)" "queue_of ?c i = Some pending"
    using False assms(2) by (simp_all add: queue_of_def Let_def c)
  have "worker_ok blog (settled_set s) ((worker_at (cs_c s) i)\<lparr>w_records := chan\<rparr>) (cs_given s i) (cs_start s i) (Some pending)"
    using worker_ok_refill[OF _ r] safe_sysD(5)[OF assms(1,2)] q(1) by simp
  then have "worker_ok blog (settled_set s) ((worker_at (cs_c s) i)\<lparr>w_records := chan, w_phase := Waiting\<rparr>) (cs_given s i) (cs_start s i) (Some pending)"
    using worker_ok_phase[where p = Waiting] assms(3) by fastforce
  then show ?thesis
    using False by (intro safe_worker_step[OF assms(1,2) c(1-4), where extra = "[]"]) (simp_all add: q c)
qed

text \<open>A commit of covered records stores only offsets behind which everything is settled.\<close>

lemma commit_result_settled:
  assumes "commit_result ok records before after" "\<forall>r\<in>set records. covered blog R r"
    "\<forall>k n. before k = Some n \<longrightarrow> (\<forall>q\<in>set (blog k). kr_Offset q < n \<longrightarrow> q \<in> R)"
  shows "\<forall>k n. after k = Some n \<longrightarrow> (\<forall>q\<in>set (blog k). kr_Offset q < n \<longrightarrow> q \<in> R)"
proof (intro allI impI ballI)
  fix k n q assume a: "after k = Some n" and q: "q \<in> set (blog k)" "kr_Offset q < n"
  consider "after k = before k" | r where "r \<in> set records" "key_of r = k" "after k = Some (kr_Offset r + 1)"
    using assms(1) unfolding commit_result_def by blast
  then show "q \<in> R"
  proof cases
    case 1 then have "before k = Some n" using a by simp
    then show ?thesis using assms(3) q by blast
  next
    case 2
    then have "covered blog R r" "kr_Offset q \<le> kr_Offset r" using assms(2) a q by auto
    then show ?thesis using 2(2) q(1) unfolding covered_def by blast
  qed
qed

lemma offsets_okD:
  assumes "offsets_ok blog s"
  shows "\<forall>(k, r)\<in>set (c_pendingOffsets (cs_c s)). covered blog (settled_set s) r"
    "cs_flight s = Some b \<Longrightarrow> \<forall>r\<in>set (cb_records b). covered blog (settled_set s) r"
    "\<forall>k n. cs_committed s k = Some n \<longrightarrow> (\<forall>q\<in>set (blog k). kr_Offset q < n \<longrightarrow> q \<in> settled_set s)"
  using assms unfolding offsets_ok_def by blast+

lemma tables_ok_indices:
  assumes "tables_ok s"
  shows "\<forall>is ps c. cs_revoking s = Some (is, ps, c) \<longrightarrow> (\<forall>i\<in>set is. i < length (c_pool (cs_c s)))"
    "\<forall>is. cs_stopping s = Some is \<longrightarrow> (\<forall>i\<in>set is. i < length (c_pool (cs_c s)))"
    "\<forall>i\<in>snd ` set (c_workers (cs_c s)). i < length (c_pool (cs_c s))"
    "worker_of (cs_c s) k = None \<Longrightarrow> c_queuedRecords (cs_c s) k = []"
  using assms unfolding tables_ok_def by auto

lemmas safe_parts = offsets_okD[OF safe_sysD(4)] tables_ok_indices[OF safe_sysD(2)]

lemma safe_polled:
  assumes "safe_sys cfg blog s" "poll_ok blog s batch"
  shows "safe_sys cfg blog (s\<lparr>cs_polled := batch\<rparr>)"
  using assms unfolding safe_sys_def tables_ok_def offsets_ok_def polled_ok_def poll_ok_def by simp

lemma safe_flush_taken:
  assumes "safe_sys cfg blog s" "flush_begin (cs_c s) = (batch, c')"
  shows "safe_sys cfg blog (s\<lparr>cs_c := c'\<lparr>c_wake := False\<rparr>, cs_flight := batch\<rparr>)"
proof (rule safe_frame[OF assms(1), where c' = "c'\<lparr>c_wake := False\<rparr>" and P = "\<lambda>_. True" and extra = "[]"])
  have c': "c' = (cs_c s)\<lparr>c_pendingOffsets := []\<rparr>"
    using assms(2) by (auto simp: flush_begin_def takePending_def Let_def split: if_splits)
  show "\<forall>b. cs_flight (s\<lparr>cs_c := c'\<lparr>c_wake := False\<rparr>, cs_flight := batch\<rparr>) = Some b \<longrightarrow>
      (\<forall>r\<in>set (cb_records b). covered blog (settled_set (s\<lparr>cs_c := c'\<lparr>c_wake := False\<rparr>, cs_flight := batch\<rparr>)) r)"
    using assms(2) bspec[OF safe_parts(1)[OF assms(1)]] by (fastforce simp: flush_begin_def takePending_def Let_def split: if_splits)
qed (use assms safe_parts[OF assms(1)] in \<open>auto simp: flush_begin_def takePending_def Let_def split: if_splits\<close>)

lemma safe_flushed:
  assumes "safe_sys cfg blog s" "cs_flight s = Some batch" "commit_result ok (cb_records batch) (cs_committed s) after"
  shows "safe_sys cfg blog (s\<lparr>cs_c := flush_end lt batch ok (cs_c s), cs_flight := None, cs_committed := after\<rparr>)"
proof (rule safe_frame[OF assms(1), where P = "\<lambda>_. True" and extra = "[]"])
  note cov = safe_parts(2)[OF assms(1,2)]
  show "set (c_pendingOffsets (flush_end lt batch ok (cs_c s))) \<subseteq> set (c_pendingOffsets (cs_c s))
      \<union> {(k, r). covered blog (settled_set (s\<lparr>cs_c := flush_end lt batch ok (cs_c s), cs_flight := None, cs_committed := after\<rparr>)) r}"
    using set_requeue[of lt "c_pendingOffsets (cs_c s)" "cb_records batch"] cov by (auto simp: flush_end_def requeue_def frame)
  show "\<forall>k n. cs_committed (s\<lparr>cs_c := flush_end lt batch ok (cs_c s), cs_flight := None, cs_committed := after\<rparr>) k = Some n \<longrightarrow>
      (\<forall>q\<in>set (blog k). kr_Offset q < n \<longrightarrow> q \<in> settled_set (s\<lparr>cs_c := flush_end lt batch ok (cs_c s), cs_flight := None, cs_committed := after\<rparr>))"
    using commit_result_settled[OF assms(3) cov safe_parts(3)[OF assms(1)]] by simp
qed (use safe_parts[OF assms(1)] in \<open>simp_all add: frame\<close>)

lemma completed_covered:
  assumes "safe_sys cfg blog s" "\<forall>i\<in>set is. i < length (c_pool (cs_c s))"
  shows "\<forall>r\<in>set (completed_records is (cs_c s)). covered blog (settled_set s) r"
proof
  fix r assume "r \<in> set (completed_records is (cs_c s))"
  then obtain i where "i \<in> set is" "w_lastCompleted (worker_at (cs_c s) i) = Some r"
    by (auto simp: completed_records_def List.map_filter_def)
  then show "covered blog (settled_set s) r" using safe_sysD(5)[OF assms(1), of i] assms(2) by (auto simp: worker_ok_def)
qed

lemma safe_revoke_started:
  assumes "safe_sys cfg blog s" "removeWorkers partitions (cs_c s) = (is, c')"
  shows "safe_sys cfg blog (s\<lparr>cs_c := c', cs_revoking := Some (is, partitions, commit)\<rparr>)"
  by (rule safe_frame[OF assms(1), where c' = c' and P = "\<lambda>k. k \<notin> set partitions" and extra = "[]"])
    (use assms(2) safe_parts[OF assms(1)] in \<open>auto simp: removeWorkers_def\<close>)

lemma safe_revoke_ended:
  assumes "safe_sys cfg blog s" "cs_revoking s = Some (is, partitions, commit)" "revoke_end is partitions commit (cs_c s) = (records, c')"
    "commit_result ok records (cs_committed s) after"
  shows "safe_sys cfg blog (s\<lparr>cs_c := c', cs_revoking := None, cs_committed := after\<rparr>)"
proof (rule safe_frame[OF assms(1), where c' = c' and P = "\<lambda>_. True" and extra = "[]"])
  have "\<forall>r\<in>set records. covered blog (settled_set s) r"
    using completed_covered[OF assms(1), of "is"] safe_parts(4)[OF assms(1)] assms(2,3) by (auto simp: revoke_end_def split: if_splits)
  from commit_result_settled[OF assms(4) this safe_parts(3)[OF assms(1)]]
  show "\<forall>k n. cs_committed (s\<lparr>cs_c := c', cs_revoking := None, cs_committed := after\<rparr>) k = Some n \<longrightarrow>
      (\<forall>q\<in>set (blog k). kr_Offset q < n \<longrightarrow> q \<in> settled_set (s\<lparr>cs_c := c', cs_revoking := None, cs_committed := after\<rparr>))" by simp
qed (use assms(3) safe_parts[OF assms(1)] in \<open>auto simp: revoke_end_def dropPartitions_def\<close>)

lemma safe_stop_started:
  assumes "safe_sys cfg blog s" "stop_begin (cs_c s) = (is, c')"
  shows "safe_sys cfg blog (s\<lparr>cs_c := c', cs_stopping := Some is\<rparr>)"
  by (rule safe_frame[OF assms(1), where c' = c' and P = "\<lambda>_. False" and extra = "[]"])
    (use assms(2) safe_parts[OF assms(1)] in \<open>auto simp: stop_begin_def\<close>)

lemma safe_stop_ended:
  assumes "safe_sys cfg blog s" "cs_stopping s = Some is" "commit_result ok (completed_records is (cs_c s)) (cs_committed s) after"
  shows "safe_sys cfg blog (s\<lparr>cs_stopping := Some [], cs_committed := after\<rparr>)"
  by (rule safe_frame[OF assms(1), where c' = "cs_c s" and P = "\<lambda>_. True" and extra = "[]"])
    (use commit_result_settled[OF assms(3) completed_covered[OF assms(1)] safe_parts(3)[OF assms(1)]] assms(2) safe_parts[OF assms(1)]
      in \<open>simp_all\<close>)

lemma safe_elsewhere:
  assumes "safe_sys cfg blog s" "\<forall>(r, oc)\<in>set extra. outcome_allowed (c_cfg (cs_c s)) oc"
    "\<forall>k n. after k = Some n \<longrightarrow> after k = cs_committed s k
      \<or> (\<forall>r\<in>set (blog k). kr_Offset r < n \<longrightarrow> settled (s\<lparr>cs_results := cs_results s @ extra\<rparr>) r)"
  shows "safe_sys cfg blog (s\<lparr>cs_committed := after, cs_results := cs_results s @ extra\<rparr>)"
proof (rule safe_frame[OF assms(1), where c' = "cs_c s" and P = "\<lambda>_. True" and extra = extra])
  let ?s = "s\<lparr>cs_committed := after, cs_results := cs_results s @ extra\<rparr>"
  have sub: "settled_set s \<subseteq> settled_set ?s" by auto
  show "\<forall>b. cs_flight ?s = Some b \<longrightarrow> (\<forall>r\<in>set (cb_records b). covered blog (settled_set ?s) r)"
    using safe_parts(2)[OF assms(1)] covered_mono[OF _ sub] by simp
  show "\<forall>k n. cs_committed ?s k = Some n \<longrightarrow> (\<forall>q\<in>set (blog k). kr_Offset q < n \<longrightarrow> q \<in> settled_set ?s)"
  proof (intro allI impI ballI)
    fix k n q assume a: "cs_committed ?s k = Some n" and q: "q \<in> set (blog k)" "kr_Offset q < n"
    then have "after k = Some n" by simp
    then consider "cs_committed s k = Some n" | "settled (s\<lparr>cs_results := cs_results s @ extra\<rparr>) q" using assms(3) q by metis
    then show "q \<in> settled_set ?s"
    proof cases
      case 1
      then have "q \<in> settled_set s" using safe_parts(3)[OF assms(1)] q by blast
      then show ?thesis using sub by blast
    qed (simp add: settled_def)
  qed
  show "\<forall>(r, oc)\<in>set extra. outcome_allowed (withDefaults cfg) oc" using assms(2) safe_sysD(1)[OF assms(1)] by simp
qed (use safe_parts(4,5)[OF assms(1)] in \<open>auto\<close>)

lemma safe_stop_cancelled:
  assumes "safe_sys cfg blog s"
  shows "safe_sys cfg blog (s\<lparr>cs_c := stop_cancel (cs_c s)\<rparr>)"
proof -
  let ?c = "stop_cancel (cs_c s)"
  have w: "i < length (c_pool (cs_c s)) \<Longrightarrow> worker_at ?c i = (worker_at (cs_c s) i)\<lparr>w_cancelled := True\<rparr>"
    "i < length (c_pool (cs_c s)) \<Longrightarrow> queue_of ?c i = queue_of (cs_c s) i" for i
    by (simp_all add: stop_cancel_def queue_of_def Let_def)
  have "tables_ok s" by (rule safe_sysD(2)[OF assms])
  then have "tables_ok (s\<lparr>cs_c := ?c\<rparr>)" unfolding tables_ok_def by (auto simp: stop_cancel_def)
  moreover have "i < length (c_pool (cs_c s)) \<Longrightarrow>
      worker_ok blog (settled_set s) (worker_at ?c i) (cs_given s i) (cs_start s i) (queue_of ?c i)" for i
    using safe_sysD(5)[OF assms, of i] by (simp add: w worker_ok_flags)
  ultimately show ?thesis using assms
    by (simp add: safe_sys_def polled_ok_def offsets_ok_def) (simp add: stop_cancel_def)
qed

lemma take_extend:
  assumes "given = take m (drop start l)" "r # rs = take n (drop (start + length given) l)"
  shows "given @ [r] = take (Suc (length given)) (drop start l)" "rs = take (n - 1) (drop (start + length (given @ [r])) l)"
proof -
  obtain n' where n: "n = Suc n'" "start + length given < length l"
    using assms(2) by (cases n; cases "start + length given < length l") auto
  have l: "drop (start + length given) l = l ! (start + length given) # drop (Suc (start + length given)) l"
    using n(2) by (simp add: Cons_nth_drop_Suc)
  then have r: "r = l ! (start + length given)" "rs = take n' (drop (Suc (start + length given)) l)"
    using assms(2) by (simp_all add: n(1))
  then show "rs = take (n - 1) (drop (start + length (given @ [r])) l)" by (simp add: n(1))
  have "given = take (length given) (drop start l)" using assms(1) by (metis length_take min.absorb_iff2 min.cobounded1 take_all_iff take_take min.commute nat_le_linear)
  then show "given @ [r] = take (Suc (length given)) (drop start l)"
    using n(2) by (simp add: take_Suc_conv_app_nth r(1) add.commute)
qed

lemma safe_enqueued:
  assumes "safe_sys cfg blog s" "cs_polled s = r # rs"
  shows "safe_sys cfg blog (s\<lparr>cs_c := enqueue r (cs_c s), cs_polled := rs,
      cs_given := (case worker_of (cs_c s) (key_of r) of None \<Rightarrow> cs_given s
        | Some i \<Rightarrow> if c_stopped (cs_c s) then cs_given s else (cs_given s)(i := cs_given s i @ [r]))\<rparr>)"
    (is "safe_sys cfg blog ?s")
proof (cases "worker_of (cs_c s) (key_of r) = None \<or> c_stopped (cs_c s)")
  case True
  then have s: "?s = s\<lparr>cs_polled := rs\<rparr>" by (auto simp: enqueue_def split: option.splits)
  have "polled_ok blog (s\<lparr>cs_polled := rs\<rparr>)" unfolding polled_ok_def
  proof (intro allI impI)
    fix k i assume w: "worker_of (cs_c (s\<lparr>cs_polled := rs\<rparr>)) k = Some i \<and> \<not> c_stopped (cs_c (s\<lparr>cs_polled := rs\<rparr>))"
    then have "key_of r \<noteq> k" using True by auto
    then show "\<exists>n. filter (\<lambda>r. key_of r = k) (cs_polled (s\<lparr>cs_polled := rs\<rparr>)) =
        take n (drop (cs_start (s\<lparr>cs_polled := rs\<rparr>) i + length (cs_given (s\<lparr>cs_polled := rs\<rparr>) i)) (blog k))"
      using safe_sysD(3)[OF assms(1), unfolded polled_ok_def, rule_format, of k i] w assms(2) by simp
  qed
  then show ?thesis unfolding s using assms(1) unfolding safe_sys_def tables_ok_def offsets_ok_def by simp
next
  case False
  then obtain i where i: "worker_of (cs_c s) (key_of r) = Some i" and ns: "\<not> c_stopped (cs_c s)" by auto
  let ?k = "key_of r" and ?c = "enqueue r (cs_c s)" and ?w = "worker_at (cs_c s) i"
  note il = tables_okD[OF safe_sysD(2)[OF assms(1)] i]
  note ok = safe_sysD(5)[OF assms(1) il(1)]
  have q: "queue_of (cs_c s) i = Some (c_queuedRecords (cs_c s) ?k)" using i ns il(2) by (simp add: queue_of_def)
  obtain n where n: "r # filter (\<lambda>q. key_of q = ?k) rs = take n (drop (cs_start s i + length (cs_given s i)) (blog ?k))"
    using safe_sysD(3)[OF assms(1)] i ns assms(2) unfolding polled_ok_def by fastforce
  obtain m where m: "cs_given s i = take m (drop (cs_start s i) (blog ?k))" using ok il(2) unfolding worker_ok_def by auto
  note ext = take_extend[OF m n]
  have c: "c_cfg ?c = c_cfg (cs_c s)" "c_workers ?c = c_workers (cs_c s)" "c_stopped ?c = c_stopped (cs_c s)"
    "length (c_pool ?c) = length (c_pool (cs_c s))" "c_pendingOffsets ?c = c_pendingOffsets (cs_c s)"
    "\<And>j. w_key (worker_at ?c j) = w_key (worker_at (cs_c s) j)" "\<And>j. j \<noteq> i \<Longrightarrow> worker_at ?c j = worker_at (cs_c s) j"
    "\<And>k. k \<noteq> ?k \<Longrightarrow> c_queuedRecords ?c k = c_queuedRecords (cs_c s) k"
    using i ns il(1) by (auto simp: enqueue_def Let_def frame)
  have g: "cs_given ?s = (cs_given s)(i := cs_given s i @ [r])" using i ns by simp
  have new: "worker_ok blog (settled_set s) (worker_at ?c i) (cs_given s i @ [r]) (cs_start s i) (queue_of ?c i)"
  proof (cases "c_queuedRecords (cs_c s) ?k = [] \<and> int (length (w_records ?w)) < QueueSize (c_cfg (cs_c s))")
    case True
    then have "?c = upd_worker i (\<lambda>w. w\<lparr>w_records := w_records w @ [r]\<rparr>) (cs_c s)" using i ns by (auto simp: enqueue_def Let_def)
    then show ?thesis using worker_ok_enqueue(2)[OF ok[unfolded q]] ext(1) True il q by (simp add: frame)
  next
    case False
    then have "?c = pauseLocked ?k pauseForQueue ((cs_c s)\<lparr>c_queuedRecords := (c_queuedRecords (cs_c s))(?k := c_queuedRecords (cs_c s) ?k @ [r])\<rparr>)"
      using i ns by (auto simp: enqueue_def Let_def)
    then have "worker_at ?c i = ?w" "queue_of ?c i = Some (c_queuedRecords (cs_c s) ?k @ [r])"
      using i ns il(2) by (simp_all add: queue_of_def Let_def frame)
    then show ?thesis using worker_ok_enqueue(1)[OF ok[unfolded q]] ext(1) il(2) by simp
  qed
  have "worker_ok blog (settled_set s) (worker_at ?c j) (((cs_given s)(i := cs_given s i @ [r])) j) (cs_start s j) (queue_of ?c j)"
    if j: "j < length (c_pool (cs_c s))" for j
  proof (cases "j = i")
    case False
    then have "queue_of ?c j = queue_of (cs_c s) j"
      using i c(6,8) by (cases "w_key (worker_at (cs_c s) j) = ?k") (auto simp: queue_of_def Let_def c(2,3))
    then show ?thesis using False c(7)[OF False] safe_sysD(5)[OF assms(1) j] by simp
  qed (use new in simp)
  moreover have "c_queuedRecords ?c k = []" if "worker_of (cs_c s) k = None" for k
    using c(8)[of k] i that safe_parts(7)[OF assms(1) that] by (cases "k = ?k") simp_all
  then have "tables_ok ?s" using safe_sysD(2)[OF assms(1)] unfolding tables_ok_def by (simp add: c(2,4,6))
  moreover have "polled_ok blog ?s" unfolding polled_ok_def
  proof (intro allI impI)
    fix k j assume w: "worker_of (cs_c ?s) k = Some j \<and> \<not> c_stopped (cs_c ?s)"
    show "\<exists>n. filter (\<lambda>q. key_of q = k) (cs_polled ?s) = take n (drop (cs_start ?s j + length (cs_given ?s j)) (blog k))"
    proof (cases "k = ?k")
      case True
      then have "j = i" using w i c(2) by simp
      then show ?thesis using ext(2) True by (intro exI[of _ "n - 1"]) (simp add: g)
    next
      case False
      then have "j \<noteq> i" using w il(2) tables_okD(2)[OF safe_sysD(2)[OF assms(1)], of k j] by (auto simp: c(2))
      then show ?thesis
        using safe_sysD(3)[OF assms(1), unfolded polled_ok_def, rule_format, of k j] w False assms(2) by (simp add: g c(2,3))
    qed
  qed
  ultimately show ?thesis using assms(1) unfolding safe_sys_def offsets_ok_def by (simp add: c(1-5) g)
qed

end
