(* ===== verification/Consumer_Delivery.thy ===== *)
theory Consumer_Delivery
  imports Consumer_Safety
begin

text \<open>
  Assignment of partitions, the invariant along every run of the partition consumer, and the
  properties of the consumer.
\<close>

section \<open>Assignment\<close>

lemma assign_each_frame:
  "c_cfg (snd (assign_each keys c)) = c_cfg c" "c_stopped (snd (assign_each keys c)) = c_stopped c"
  "c_queuedRecords (snd (assign_each keys c)) = c_queuedRecords c" "c_pendingOffsets (snd (assign_each keys c)) = c_pendingOffsets c"
  "c_uncommitted (snd (assign_each keys c)) = c_uncommitted c" "c_backpressured (snd (assign_each keys c)) = c_backpressured c"
  "c_pauseReasons (snd (assign_each keys c)) = c_pauseReasons c" "c_paused (snd (assign_each keys c)) = c_paused c"
  "c_pool (snd (assign_each keys c)) = c_pool c @ map new_worker (fst (assign_each keys c))"
  "set (fst (assign_each keys c)) \<subseteq> set keys"
  "distinct (map fst (c_workers c)) \<Longrightarrow> distinct (map fst (c_workers (snd (assign_each keys c))))"
  by (induction keys c rule: assign_each.induct) (simp_all add: case_prod_beta distinct_update subset_insertI2 insert_mono)

lemma assign_each_fields:
  assumes "assign_each keys c = (new, c')"
  shows "c_pool c' = c_pool c @ map new_worker new" "set new \<subseteq> set keys" "c_cfg c' = c_cfg c" "c_stopped c' = c_stopped c"
    "c_queuedRecords c' = c_queuedRecords c" "c_pendingOffsets c' = c_pendingOffsets c"
    "distinct (map fst (c_workers c)) \<Longrightarrow> distinct (map fst (c_workers c'))"
    "c_pauseReasons c' = c_pauseReasons c" "c_paused c' = c_paused c" "c_uncommitted c' = c_uncommitted c" "c_backpressured c' = c_backpressured c"
  using assign_each_frame[where keys = keys and c = c] unfolding assms by (simp_all only: fst_conv snd_conv)

lemma assign_each_keeps:
  assumes "assign_each keys c = (new, c')" "worker_of c k = Some i"
  shows "worker_of c' k = Some i"
  using assms
proof (induction keys c arbitrary: new c' rule: assign_each.induct)
  case (2 key keys c)
  show ?case
  proof (cases "worker_of c key = None")
    case True
    then have "k \<noteq> key" using 2(4) by auto
    then show ?thesis using 2(2)[OF _ _] 2(3,4) True by (auto simp: update_conv split: prod.splits)
  qed (use 2 in auto)
qed simp

lemma assign_each_new:
  assumes "assign_each keys c = (new, c')" "worker_of c k = None" "worker_of c' k = Some i"
  shows "length (c_pool c) \<le> i \<and> i < length (c_pool c') \<and> w_key (worker_at c' i) = k"
  using assms
proof (induction keys c arbitrary: new c' rule: assign_each.induct)
  case (2 key keys c)
  let ?d = "c\<lparr>c_pool := c_pool c @ [new_worker key], c_workers := AList.update key (length (c_pool c)) (c_workers c)\<rparr>"
  show ?case
  proof (cases "worker_of c key = None")
    case True
    then obtain new' where e: "assign_each keys ?d = (new', c')" using 2(3) by (auto split: prod.splits)
    show ?thesis
    proof (cases "k = key")
      case True
      then have "worker_of c' k = Some (length (c_pool c))" using assign_each_keeps[OF e, of k] by (simp add: update_conv)
      then have "i = length (c_pool c)" using 2(5) by simp
      then show ?thesis using True by (simp add: assign_each_fields(1)[OF e] nth_append new_worker_def)
    next
      case False
      then have "worker_of ?d k = None" using 2(4) by (simp add: update_conv)
      then show ?thesis using 2(2)[of new' c'] e 2(5) True by simp
    qed
  qed (use 2 in auto)
qed simp

lemma safe_assigned:
  assumes "safe_sys cfg blog s" "no_stale s keys" "\<forall>k\<in>set keys. start_ok blog s k (start k)"
  shows "safe_sys cfg blog (s\<lparr>cs_c := assign keys (cs_c s),
      cs_start := (\<lambda>i. if length (c_pool (cs_c s)) \<le> i then start (w_key (worker_at (assign keys (cs_c s)) i)) else cs_start s i),
      cs_given := (\<lambda>i. if length (c_pool (cs_c s)) \<le> i then [] else cs_given s i)\<rparr>)" (is "safe_sys cfg blog ?s")
proof (cases "c_stopped (cs_c s)")
  case True
  then have d: "assign keys (cs_c s) = cs_c s" by (simp add: assign_def)
  show ?thesis
    using assms(1) True unfolding safe_sys_def tables_ok_def polled_ok_def offsets_ok_def d by simp
next
  case False
  let ?c = "cs_c s" and ?d = "assign keys (cs_c s)" and ?n = "length (c_pool (cs_c s))"
  obtain new c' where e: "assign_each keys ?c = (new, c')" by fastforce
  note a = assign_each_fields[OF e]
  have d: "c_pool ?d = c_pool ?c @ map new_worker new" "c_workers ?d = c_workers c'" "c_cfg ?d = c_cfg ?c" "c_stopped ?d = c_stopped ?c"
    "c_queuedRecords ?d = c_queuedRecords ?c" "c_pendingOffsets ?d = c_pendingOffsets ?c"
    using False by (simp_all add: assign_def e a)
  have old: "worker_at ?d i = worker_at ?c i" if "i < ?n" for i using that by (simp add: d(1) nth_append)
  have fresh: "w_key (worker_at ?d i) \<in> set keys \<and> worker_at ?d i = new_worker (w_key (worker_at ?d i))"
    if "?n \<le> i" "i < length (c_pool ?d)" for i
    using that a(2) nth_mem[of "i - ?n" new] by (auto simp: d(1) nth_append new_worker_def)
  have ind: "i < length (c_pool ?d) \<and> w_key (worker_at ?d i) = k \<and> (worker_of ?c k = Some i \<and> i < ?n \<or> worker_of ?c k = None \<and> ?n \<le> i)"
    if w: "worker_of ?d k = Some i" for k i
  proof (cases "worker_of ?c k")
    case None
    then show ?thesis using assign_each_new[OF e None] w by (simp add: d(1,2) a(1))
  next
    case (Some j)
    then have "j = i" using assign_each_keeps[OF e Some] w by (simp add: d(2))
    then show ?thesis using tables_okD[OF safe_sysD(2)[OF assms(1)] Some] Some old by (simp add: d(1))
  qed
  have none: "worker_of ?c k = None" if "worker_of ?d k = None" for k
    using that assign_each_keeps[OF e, of k] by (cases "worker_of ?c k") (auto simp: d(2))
  have keyed: "\<forall>(k, i)\<in>set (c_workers ?d). i < length (c_pool ?d) \<and> w_key (worker_at ?d i) = k"
  proof clarify
    fix k i assume "(k, i) \<in> set (c_workers ?d)"
    moreover have "distinct (map fst (c_workers ?d))" using safe_sysD(2)[OF assms(1)] a(7) by (simp add: tables_ok_def d(2))
    ultimately show "i < length (c_pool ?d) \<and> w_key (worker_at ?d i) = k" using ind by simp
  qed
  have settled: "set (take (start k) (blog k)) \<subseteq> settled_set s" if "k \<in> set keys" for k
    using assms(3) that offsets_okD(3)[OF safe_sysD(4)[OF assms(1)]] unfolding start_ok_def by (metis in_set_takeD subsetI)
  have "worker_ok blog (settled_set ?s) (worker_at ?d i) (cs_given ?s i) (cs_start ?s i) (queue_of ?d i)" if i: "i < length (c_pool ?d)" for i
  proof (cases "i < ?n")
    case True
    have "queue_of ?d i = queue_of ?c i \<or> queue_of ?d i = None"
      using ind[of "w_key (worker_at ?c i)" i] True by (auto simp: queue_of_def Let_def d(4,5) old)
    then show ?thesis using worker_ok_mono[OF safe_sysD(5)[OF assms(1) True] order_refl] True by (simp add: old)
  next
    case False
    let ?k = "w_key (worker_at ?d i)"
    have f: "?k \<in> set keys" "worker_at ?d i = new_worker ?k" using fresh i False by simp_all
    have "queue_of ?d i = Some [] \<or> queue_of ?d i = None"
    proof (cases "worker_of ?d ?k = Some i")
      case True
      then have "worker_of ?c ?k = None" using ind[OF True] False by simp
      then show ?thesis using tables_ok_indices(4)[OF safe_sysD(2)[OF assms(1)]] True by (simp add: queue_of_def Let_def d(5))
    qed (simp add: queue_of_def Let_def)
    moreover have "worker_ok blog (settled_set s) (new_worker ?k) [] (start ?k) (Some [])"
      by (rule worker_ok_new[where blog = blog, OF settled[OF f(1)]])
    ultimately have "worker_ok blog (settled_set s) (new_worker ?k) [] (start ?k) (queue_of ?d i)"
      by (rule worker_ok_mono[OF _ order_refl, rotated])
    then show ?thesis using f(2) False by simp
  qed
  moreover have "tables_ok ?s"
  proof -
    have t: "tables_ok s" by (rule safe_sysD(2)[OF assms(1)])
    have "distinct (map fst (c_workers ?d))" using t a(7) by (simp add: tables_ok_def d(2))
    moreover have "\<forall>k. worker_of ?d k = None \<longrightarrow> c_queuedRecords ?d k = []" using none tables_ok_indices(4)[OF t] by (simp add: d(5))
    moreover have "\<forall>is ps c. cs_revoking s = Some (is, ps, c) \<longrightarrow> (\<forall>i\<in>set is. i < length (c_pool ?d))"
      "\<forall>is. cs_stopping s = Some is \<longrightarrow> (\<forall>i\<in>set is. i < length (c_pool ?d))"
      using tables_ok_indices(1,2)[OF t] by (simp_all add: d(1)) (meson trans_less_add1)+
    ultimately show ?thesis using keyed unfolding tables_ok_def by simp
  qed
  moreover have "polled_ok blog ?s" unfolding polled_ok_def
  proof (intro allI impI)
    fix k i assume w: "worker_of (cs_c ?s) k = Some i \<and> \<not> c_stopped (cs_c ?s)"
    show "\<exists>n. filter (\<lambda>r. key_of r = k) (cs_polled ?s) = take n (drop (cs_start ?s i + length (cs_given ?s i)) (blog k))"
    proof (cases "i < ?n")
      case True
      then show ?thesis using ind[of k i] w safe_sysD(3)[OF assms(1), unfolded polled_ok_def, rule_format, of k i] by (simp add: d(4))
    next
      case F: False
      then have "k \<in> set keys" using ind[of k i] w fresh[of i] by auto
      then have "filter (\<lambda>r. key_of r = k) (cs_polled s) = []" using assms(2) by (auto simp: no_stale_def filter_empty_conv)
      then show ?thesis by (intro exI[of _ 0]) simp
    qed
  qed
  ultimately show ?thesis using assms(1) unfolding safe_sys_def offsets_ok_def by (simp add: d(3,6))
qed

section \<open>Every run\<close>

lemma safe_step:
  assumes "log_ok blog" "safe_sys cfg blog s" "consumer_step lt blog s t"
  shows "safe_sys cfg blog t"
  using assms(3,2)
proof cases
  case (concluded i err retryable r events oc)
  then show ?thesis
    using safe_exit[OF assms(2)] safe_concluded[OF assms(2), of i r retryable err events oc] by (auto split: if_splits)
next
  case (marked i r ok c')
  then show ?thesis
    using safe_exit[OF assms(2), of i] safe_marked[OF assms(1,2), of i r lt c'] by (cases ok) (auto simp: markCompleted_def split: if_splits)
next
  case (elsewhere extra after)
  then show ?thesis using safe_elsewhere[OF assms(2)] by simp
qed (auto intro: safe_assigned safe_polled safe_enqueued safe_received safe_retrying safe_processed safe_exit safe_flush_taken
  safe_flushed safe_revoke_started safe_flags safe_revoke_ended safe_stop_started safe_stop_cancelled safe_stop_ended)


lemma safe_reach:
  assumes "log_ok blog" "reach (consumer_init cfg) (consumer_step lt blog) s"
  shows "safe_sys cfg blog s"
  using assms(2) by (induction rule: reach.induct) (auto intro: safe_init safe_step[OF assms(1)])

section \<open>A run\<close>

definition demo_key :: partitionKey where "demo_key = \<lparr>pk_topic = [1], pk_partition = 0\<rparr>"

definition demo_rec :: "int64 \<Rightarrow> kafka_record" where
  "demo_rec n = \<lparr>kr_Topic = [1], kr_Partition = 0, kr_LeaderEpoch = 0, kr_Offset = n, kr_Value = [7]\<rparr>"

definition demo_blog :: broker_log where
  "demo_blog k = (if k = demo_key then [demo_rec 0, demo_rec 1] else [])"

definition demo_lt :: "int32 \<times> int64 \<Rightarrow> int32 \<times> int64 \<Rightarrow> bool" where
  "demo_lt x y \<longleftrightarrow> x < y"

definition demo_cfg :: Config where
  "demo_cfg = \<lparr>MaxPollRecords = 0, QueueSize = 1, CommitInterval = 0, MaxUncommittedRecords = 1, RevokeTimeout = 0, CommitTimeout = 0,
     ShutdownTimeout = 0, RetryMin = 0, RetryMax = 0, RetryMaxAttempts = 0, DropAfterRetryExhausted = False\<rparr>"

definition demo_start :: consumer_sys where
  "demo_start = \<lparr>cs_c = newPartitionRuntime demo_cfg, cs_polled = [], cs_flight = None, cs_revoking = None, cs_stopping = None,
     cs_committed = (\<lambda>_. None), cs_results = [], cs_given = (\<lambda>_. []), cs_start = (\<lambda>_. 0)\<rparr>"

definition demo_done :: outcome where
  "demo_done = \<lparr>oc_retryable = False, oc_err = False, oc_exhausted = False\<rparr>"

lemmas demo_defs = demo_key_def demo_rec_def demo_blog_def demo_cfg_def demo_start_def demo_done_def newPartitionRuntime_def withDefaults_def Let_def

lemma demo_log: "log_ok demo_blog"
  by (simp add: log_ok_def demo_defs)

definition demo1 :: consumer_sys where
  "demo1 = demo_start\<lparr>cs_c := assign [demo_key] (cs_c demo_start),
     cs_start := (\<lambda>i. if length (c_pool (cs_c demo_start)) \<le> i then (\<lambda>_. 0) (w_key (worker_at (assign [demo_key] (cs_c demo_start)) i)) else cs_start demo_start i),
     cs_given := (\<lambda>i. if length (c_pool (cs_c demo_start)) \<le> i then [] else cs_given demo_start i)\<rparr>"

definition demo2 :: consumer_sys where "demo2 = demo1\<lparr>cs_polled := [demo_rec 0]\<rparr>"

definition demo3 :: consumer_sys where
  "demo3 = demo2\<lparr>cs_c := enqueue (demo_rec 0) (cs_c demo2), cs_polled := [],
     cs_given := (case worker_of (cs_c demo2) (key_of (demo_rec 0)) of None \<Rightarrow> cs_given demo2
       | Some i \<Rightarrow> if c_stopped (cs_c demo2) then cs_given demo2 else (cs_given demo2)(i := cs_given demo2 i @ [demo_rec 0]))\<rparr>"

definition demo4 :: consumer_sys where
  "demo4 = demo3\<lparr>cs_c := upd_worker 0 (\<lambda>w. w\<lparr>w_records := [], w_phase := Handling (demo_rec 0)\<rparr>) (cs_c demo3)\<rparr>"

definition demo5 :: consumer_sys where
  "demo5 = demo4\<lparr>cs_c := set_phase 0 (Marking (demo_rec 0)) (cs_c demo4), cs_results := cs_results demo4 @ [(demo_rec 0, demo_done)]\<rparr>"

definition demo6 :: consumer_sys where
  "demo6 = demo5\<lparr>cs_c := set_phase 0 Marked (snd (markCompleted demo_lt 0 (demo_rec 0) (cs_c demo5)))\<rparr>"

definition demo7 :: consumer_sys where
  "demo7 = demo6\<lparr>cs_c := (snd (flush_begin (cs_c demo6)))\<lparr>c_wake := False\<rparr>, cs_flight := fst (flush_begin (cs_c demo6))\<rparr>"

definition demo_batch :: commitBatch where
  "demo_batch = \<lparr>cb_records = [(demo_rec 0)\<lparr>kr_Value := []\<rparr>], cb_counts = [(demo_key, 1)]\<rparr>"

definition demo8 :: consumer_sys where
  "demo8 = demo7\<lparr>cs_c := flush_end demo_lt demo_batch True (cs_c demo7), cs_flight := None, cs_committed := (\<lambda>_. None)(demo_key := Some 1)\<rparr>"

lemma demo_step1: "consumer_step lt demo_blog demo_start demo1"
  unfolding demo1_def by (rule consumer_step.assigned) (simp_all add: demo_start_def no_stale_def start_ok_def)

lemma demo_step2: "consumer_step lt demo_blog demo1 demo2"
proof -
  have c: "c_workers (cs_c demo1) = [(demo_key, 0)]" "cs_start demo1 0 + length (cs_given demo1 0) = 0"
    "\<not> c_paused (cs_c demo1) (key_of (demo_rec 0))" "MaxPollRecords (c_cfg (cs_c demo1)) = 32" "cs_polled demo1 = []"
    by code_simp+
  have "poll_ok demo_blog demo1 [demo_rec 0]" unfolding poll_ok_def
  proof (intro conjI allI impI)
    fix k i assume "worker_of (cs_c demo1) k = Some i"
    then have "k = demo_key" "i = 0" by (simp_all add: c(1) split: if_splits)
    then show "\<exists>n. filter (\<lambda>r. key_of r = k) [demo_rec 0] = take n (drop (cs_start demo1 i + length (cs_given demo1 i)) (demo_blog k))"
      using c(2) by (intro exI[of _ 1]) (simp add: demo_blog_def demo_key_def demo_rec_def)
  qed (use c in simp_all)
  then show ?thesis unfolding demo2_def by (rule consumer_step.polled[OF c(5)])
qed

lemma demo_step3: "consumer_step lt demo_blog demo2 demo3"
  unfolding demo3_def by (rule consumer_step.enqueued) (simp add: demo2_def)

lemma demo_step4: "consumer_step lt demo_blog demo3 demo4"
  unfolding demo4_def by (rule consumer_step.received) code_simp+

lemma demo_step5: "consumer_step lt demo_blog demo4 demo5"
proof -
  have "completes (w_cancelled (worker_at (cs_c demo4) 0)) demo_done" by code_simp
  then have d: "demo5 = (if completes (w_cancelled (worker_at (cs_c demo4) 0)) demo_done
       then demo4\<lparr>cs_c := set_phase 0 (Marking (demo_rec 0)) (cs_c demo4), cs_results := cs_results demo4 @ [(demo_rec 0, demo_done)]\<rparr>
       else demo4\<lparr>cs_c := set_phase 0 Exited (cs_c demo4)\<rparr>)" by (simp add: demo5_def)
  show ?thesis unfolding d
  proof (rule consumer_step.concluded[where err = False and retryable = False and events = "[]"])
    show "0 < length (c_pool (cs_c demo4))" "phase_at demo4 0 = (if False \<and> False then Retrying (demo_rec 0) else Handling (demo_rec 0))"
      by code_simp+
  qed (simp_all add: handler_outcome_def demo_done_def)
qed

lemma demo_step6: "consumer_step demo_lt demo_blog demo5 demo6"
proof -
  have "fst (markCompleted demo_lt 0 (demo_rec 0) (cs_c demo5))" "0 < length (c_pool (cs_c demo5))" "phase_at demo5 0 = Marking (demo_rec 0)"
    by code_simp+
  then show ?thesis
    using consumer_step.marked[of 0 demo5 "demo_rec 0" demo_lt True "snd (markCompleted demo_lt 0 (demo_rec 0) (cs_c demo5))" demo_blog]
    unfolding demo6_def by (simp add: prod_eq_iff)
qed

lemma demo_step7: "consumer_step lt demo_blog demo6 demo7"
  unfolding demo7_def by (rule consumer_step.flush_taken) (code_simp, simp)

lemma demo_step8: "consumer_step demo_lt demo_blog demo7 demo8"
proof -
  have f: "cs_flight demo7 = Some demo_batch" "cs_committed demo7 = (\<lambda>_. None)"
    by code_simp (simp add: demo7_def demo6_def demo5_def demo4_def demo3_def demo2_def demo1_def demo_start_def)
  have "commit_result True (cb_records demo_batch) (cs_committed demo7) ((\<lambda>_. None)(demo_key := Some 1))"
    unfolding f(2) by (auto simp: commit_result_def demo_batch_def demo_rec_def demo_key_def)
  from consumer_step.flushed[OF f(1) this] show ?thesis unfolding demo8_def by simp
qed

lemma demo_runs:
  "reach (consumer_init demo_cfg) (consumer_step demo_lt demo_blog) demo3" "reach (consumer_init demo_cfg) (consumer_step demo_lt demo_blog) demo6"
proof -
  have r: "reach (consumer_init demo_cfg) (consumer_step demo_lt demo_blog) demo_start"
    by (rule reach_init) (simp add: consumer_init_def demo_start_def)
  note go = reach_step[where init = "consumer_init demo_cfg" and step = "consumer_step demo_lt demo_blog"]
  show r3: "reach (consumer_init demo_cfg) (consumer_step demo_lt demo_blog) demo3"
    by (rule go[OF go[OF go[OF r demo_step1] demo_step2] demo_step3])
  show "reach (consumer_init demo_cfg) (consumer_step demo_lt demo_blog) demo6"
    by (rule go[OF go[OF go[OF r3 demo_step4] demo_step5] demo_step6])
qed

lemma demo_run8: "reach (consumer_init demo_cfg) (consumer_step demo_lt demo_blog) demo8"
  by (rule reach_step[where step = "consumer_step demo_lt demo_blog", OF reach_step[where step = "consumer_step demo_lt demo_blog", OF demo_runs(2) demo_step7] demo_step8])

section \<open>Properties\<close>



text \<open>
  The premise \<open>no_stale\<close> is needed. A record polled before its partition was revoked and assigned again
  passes \<^verbatim>\<open>enqueue\<close> into the new worker ahead of the records the new assignment starts with; once it is
  completed, its offset waits for the next commit although the record before it was never handled.
\<close>

lemma stale_record_committed:
  "let c = assign [demo_key] (snd (revoke_end [0] [demo_key] True (stop_worker 0 (snd (removeWorkers [demo_key] (cs_c demo1))))));
       c = enqueue (demo_rec 1) c;
       c = upd_worker 1 (\<lambda>w. w\<lparr>w_records := [], w_phase := Marking (demo_rec 1)\<rparr>) c;
       (ok, c) = markCompleted demo_lt 1 (demo_rec 1) c
   in ok \<and> map kr_Offset (cb_records (fst (takePending c))) = [1] \<and> demo_rec 0 \<in> set (demo_blog demo_key)"
  by code_simp

end
