(* ===== verification/Consumer_Flow.thy ===== *)
theory Consumer_Flow
  imports Consumer_Delivery
begin

text \<open>
  Flow control of the partition consumer: buffers are bounded, a partition is paused exactly while a
  reason for it is recorded, and back-pressure from slow commits is lifted by the next successful commit.
\<close>

section \<open>Pause reasons as bits\<close>

lemma pause_bits [simp]:
  "bit pauseForQueue n \<longleftrightarrow> n = 0" "bit pauseForRetry n \<longleftrightarrow> n = 1" "bit pauseForCommit n \<longleftrightarrow> n = 2"
proof -
  have e: "pauseForQueue = 2 ^ 0" "pauseForRetry = 2 ^ 1" "pauseForCommit = 2 ^ 2"
    by (simp_all add: pauseForQueue_def pauseForRetry_def pauseForCommit_def)
  show "bit pauseForQueue n \<longleftrightarrow> n = 0" "bit pauseForRetry n \<longleftrightarrow> n = 1" "bit pauseForCommit n \<longleftrightarrow> n = 2"
    unfolding e bit_exp_iff by (auto simp: possible_bit_def)
qed

lemma reasons_pauseLocked:
  assumes "\<And>n. bit reason n \<longleftrightarrow> n = b"
  shows "c_pauseReasons (pauseLocked key reason c) = (c_pauseReasons c)(key := c_pauseReasons c key OR reason)"
proof -
  have "x AND reason \<noteq> 0 \<Longrightarrow> x OR reason = x" for x
    unfolding bit_eq_iff[of "x AND reason" 0] bit_eq_iff[of "x OR reason" x] using assms by (auto simp: bit_simps)
  then show ?thesis by (auto simp: pauseLocked_def Let_def fun_eq_iff)
qed

lemma reasons_resumeLocked:
  "c_pauseReasons (resumeLocked key reason c) = (c_pauseReasons c)(key := c_pauseReasons c key AND NOT reason)"
proof -
  have "x AND reason = 0 \<Longrightarrow> x AND NOT reason = x" for x :: partitionPauseReason
    unfolding bit_eq_iff[of "x AND reason" 0] bit_eq_iff[of "x AND NOT reason" x] by (auto simp: bit_simps)
  then show ?thesis by (auto simp: resumeLocked_def Let_def fun_eq_iff)
qed

text \<open>The client is told to pause with the first reason and to resume with the last one.\<close>

lemma paused_pauseLocked:
  assumes "c_paused c key \<longleftrightarrow> c_pauseReasons c key \<noteq> 0" "bit reason b"
  shows "c_paused (pauseLocked key reason c) k = (if k = key then c_pauseReasons (pauseLocked key reason c) key \<noteq> 0 else c_paused c k)"
proof -
  have "x OR reason \<noteq> 0" for x using assms(2) by (metis bit_0_eq bit_or_iff bot_apply bot_bool_def)
  then show ?thesis using assms(1) by (auto simp: pauseLocked_def Let_def)
qed

lemma paused_resumeLocked:
  assumes "c_paused c key \<longleftrightarrow> c_pauseReasons c key \<noteq> 0"
  shows "c_paused (resumeLocked key reason c) k = (if k = key then c_pauseReasons (resumeLocked key reason c) key \<noteq> 0 else c_paused c k)"
  using assms by (auto simp: resumeLocked_def Let_def)

section \<open>Flow of one partition\<close>

definition key_flow :: "consumer \<Rightarrow> partitionKey \<Rightarrow> bool" where
  "key_flow c k \<longleftrightarrow>
     (c_queuedRecords c k \<noteq> [] \<longrightarrow> bit (c_pauseReasons c k) 0)
     \<and> (worker_of c k = None \<longrightarrow> c_queuedRecords c k = [] \<and> c_pauseReasons c k = 0)
     \<and> (worker_of c k \<noteq> None \<longrightarrow> (c_paused c k \<longleftrightarrow> c_pauseReasons c k \<noteq> 0) \<and> (c_backpressured c k \<longleftrightarrow> bit (c_pauseReasons c k) 2))
     \<and> (c_backpressured c k \<longrightarrow> MaxUncommittedRecords (c_cfg c) \<le> c_uncommitted c k) \<and> 0 \<le> c_uncommitted c k"

definition flow :: "consumer \<Rightarrow> bool" where
  "flow c \<longleftrightarrow> (\<forall>w\<in>set (c_pool c). int (length (w_records w)) \<le> QueueSize (c_cfg c)) \<and> (c_stopped c \<longrightarrow> c_workers c = []) \<and> (\<forall>k. key_flow c k)"

lemma flowD:
  assumes "flow c"
  shows "c_queuedRecords c k \<noteq> [] \<Longrightarrow> bit (c_pauseReasons c k) 0"
    "worker_of c k = None \<Longrightarrow> c_queuedRecords c k = []" "worker_of c k = None \<Longrightarrow> c_pauseReasons c k = 0"
    "worker_of c k = Some i \<Longrightarrow> c_paused c k \<longleftrightarrow> c_pauseReasons c k \<noteq> 0"
    "worker_of c k = Some i \<Longrightarrow> c_backpressured c k \<longleftrightarrow> bit (c_pauseReasons c k) 2"
    "c_backpressured c k \<Longrightarrow> MaxUncommittedRecords (c_cfg c) \<le> c_uncommitted c k" "0 \<le> c_uncommitted c k"
    "w \<in> set (c_pool c) \<Longrightarrow> int (length (w_records w)) \<le> QueueSize (c_cfg c)" "worker_of c k = Some i \<Longrightarrow> \<not> c_stopped c"
  using assms unfolding flow_def key_flow_def by auto

text \<open>A change of the workers alone.\<close>

lemma flow_upd_worker:
  assumes "flow c" "i < length (c_pool c)" "int (length (w_records (f (worker_at c i)))) \<le> QueueSize (c_cfg c)"
  shows "flow (upd_worker i f c)"
  using assms set_update_subset_insert[of "c_pool c" i "f (worker_at c i)"]
  unfolding flow_def key_flow_def by (auto simp: frame upd_worker_pool)

lemma flow_phase: "flow c \<Longrightarrow> i < length (c_pool c) \<Longrightarrow> flow (set_phase i p c)"
  using flow_upd_worker[of c i] flowD(8)[of c "worker_at c i"] by simp

lemma flow_change:
  assumes "flow c" "c_cfg c' = c_cfg c" "c_workers c' = c_workers c" "c_stopped c' = c_stopped c"
    "\<And>w. w \<in> set (c_pool c') \<Longrightarrow> int (length (w_records w)) \<le> QueueSize (c_cfg c)"
    "\<And>k. k \<noteq> key \<Longrightarrow> c_queuedRecords c' k = c_queuedRecords c k \<and> c_pauseReasons c' k = c_pauseReasons c k \<and> c_paused c' k = c_paused c k
       \<and> c_backpressured c' k = c_backpressured c k \<and> c_uncommitted c' k = c_uncommitted c k"
    "key_flow c' key"
  shows "flow c'"
proof -
  have "key_flow c' k" for k
    using assms(1,7) assms(6)[of k] unfolding flow_def key_flow_def by (cases "k = key") (auto simp: assms(2-4))
  then show ?thesis using assms(1,5) unfolding flow_def by (auto simp: assms(2-4))
qed

lemma paused_other [frame]:
  "k \<noteq> key \<Longrightarrow> c_paused (pauseLocked key reason c) k = c_paused c k" "k \<noteq> key \<Longrightarrow> c_paused (resumeLocked key reason c) k = c_paused c k"
  "k \<noteq> key \<Longrightarrow> c_pauseReasons (pauseLocked key reason c) k = c_pauseReasons c k"
  "k \<noteq> key \<Longrightarrow> c_pauseReasons (resumeLocked key reason c) k = c_pauseReasons c k"
  by (simp_all add: pauseLocked_def resumeLocked_def Let_def)

lemma flow_pause:
  assumes "flow c"
  shows "flow (pause i c)"
proof (cases "worker_of c (w_key (worker_at c i)) = Some i \<and> \<not> c_stopped c")
  case True
  let ?k = "w_key (worker_at c i)"
  have d: "pause i c = pauseLocked ?k pauseForRetry c" using True by (simp add: pause_def Let_def)
  note r = reasons_pauseLocked[OF pause_bits(2), of ?k c]
  note p = paused_pauseLocked[OF flowD(4)[OF assms True[THEN conjunct1]], of pauseForRetry 1]
  show ?thesis unfolding d
  proof (rule flow_change[OF assms])
    show "key_flow (pauseLocked ?k pauseForRetry c) ?k"
      using True flowD(1-7)[OF assms, where k = ?k] unfolding key_flow_def by (simp add: frame p) (simp add: r bit_simps)
  qed (use flowD(8)[OF assms] in \<open>simp_all add: frame\<close>)
qed (use assms in \<open>auto simp: pause_def Let_def\<close>)

lemma flow_setCommitBackpressure:
  assumes "flow c" "c_pool d = c_pool c" "c_cfg d = c_cfg c" "c_workers d = c_workers c" "c_stopped d = c_stopped c"
    "c_queuedRecords d = c_queuedRecords c" "c_pauseReasons d = c_pauseReasons c" "c_paused d = c_paused c"
    "c_backpressured d = (c_backpressured c)(key := blocked)" "c_uncommitted d = (c_uncommitted c)(key := u)"
    "0 \<le> u" "blocked \<Longrightarrow> MaxUncommittedRecords (c_cfg c) \<le> u"
  shows "flow (setCommitBackpressure key blocked d)"
proof (cases "worker_of c key")
  case None
  then have c': "setCommitBackpressure key blocked d = d" by (simp add: setCommitBackpressure_def assms(4))
  show ?thesis unfolding c'
    by (rule flow_change[OF assms(1), where key = key])
      (use None flowD[OF assms(1)] assms(11,12) in \<open>simp_all add: key_flow_def assms(2-10)\<close>)
next
  case (Some i)
  then have ns: "\<not> c_stopped c" by (rule flowD(9)[OF assms(1)])
  have pd: "c_paused d key \<longleftrightarrow> c_pauseReasons d key \<noteq> 0" using flowD(4)[OF assms(1) Some] by (simp add: assms(7,8))
  note p = paused_pauseLocked[OF pd, of pauseForCommit 2] paused_resumeLocked[OF pd, of pauseForCommit]
  note r = reasons_pauseLocked[OF pause_bits(3), of key d] reasons_resumeLocked[of key pauseForCommit d]
  note old = flowD(1-7)[OF assms(1), where k = key]
  show ?thesis
  proof (cases blocked)
    case True
    then have c': "setCommitBackpressure key blocked d = pauseLocked key pauseForCommit d"
      using Some ns by (simp add: setCommitBackpressure_def assms(4,5))
    show ?thesis unfolding c'
    proof (rule flow_change[OF assms(1), where key = key])
      show "key_flow (pauseLocked key pauseForCommit d) key"
        using Some assms(11,12) old True unfolding key_flow_def by (simp add: frame p assms(2-10)) (simp add: r bit_simps assms(7))
    qed (use flowD(8)[OF assms(1)] in \<open>simp_all add: frame assms(2-10)\<close>)
  next
    case False
    then have c': "setCommitBackpressure key blocked d = resumeLocked key pauseForCommit d"
      using Some ns by (simp add: setCommitBackpressure_def assms(4,5))
    show ?thesis unfolding c'
    proof (rule flow_change[OF assms(1), where key = key])
      show "key_flow (resumeLocked key pauseForCommit d) key"
        using Some assms(11,12) old False unfolding key_flow_def by (simp add: frame p assms(2-10)) (simp add: r bit_simps assms(7))
    qed (use flowD(8)[OF assms(1)] in \<open>simp_all add: frame assms(2-10)\<close>)
  qed
qed

text \<open>The fields the flow of records does not depend on.\<close>

lemma flow_irrelevant [simp]:
  "flow (c\<lparr>c_wake := y\<rparr>) = flow c" "flow (c\<lparr>c_pendingOffsets := x\<rparr>) = flow c"
  by (simp_all add: flow_def key_flow_def)

lemma flow_mark:
  assumes "flow c"
  shows "flow (mark lt r c)"
proof -
  let ?k = "key_of r" and ?u = "c_uncommitted c (key_of r) + 1"
  let ?c = "c\<lparr>c_pendingOffsets := put_pending lt (cloneCompletedRecord r) (c_pendingOffsets c), c_uncommitted := (c_uncommitted c)(?k := ?u)\<rparr>"
  let ?b = "MaxUncommittedRecords (c_cfg c) \<le> ?u \<and> \<not> c_backpressured c ?k"
  have "flow (if ?b then setCommitBackpressure ?k True (?c\<lparr>c_backpressured := (c_backpressured c)(?k := True)\<rparr>) else ?c)"
  proof (cases ?b)
    case True
    then have "flow (setCommitBackpressure ?k True (?c\<lparr>c_backpressured := (c_backpressured c)(?k := True)\<rparr>))"
      using flowD(7)[OF assms, of ?k] by (intro flow_setCommitBackpressure[OF assms, where u = ?u]) auto
    then show ?thesis using True by simp
  next
    case False
    have "flow ?c" by (rule flow_change[OF assms, where key = ?k])
      (use flowD(1-7)[OF assms, where k = ?k] flowD(8)[OF assms] in \<open>auto simp: key_flow_def\<close>)
    then show ?thesis using False by auto
  qed
  then have main: "flow (if ?b then setCommitBackpressure ?k True (?c\<lparr>c_backpressured := (c_backpressured c)(?k := True)\<rparr>) else ?c)" .
  have wake: "flow m \<Longrightarrow> flow (if q then m\<lparr>c_wake := True\<rparr> else m)" for m q by simp
  show ?thesis unfolding mark_def Let_def by (rule wake) (use main in \<open>auto split: if_splits\<close>)
qed

lemma flow_acknowledge: "flow c \<Longrightarrow> flow (acknowledge counts c)"
proof (induction counts c rule: acknowledge.induct)
  case (2 key count counts c)
  let ?r = "c_uncommitted c key - count"
  let ?c = "c\<lparr>c_uncommitted := (c_uncommitted c)(key := if ?r \<le> 0 then 0 else ?r)\<rparr>"
  let ?b = "c_backpressured c key \<and> ?r < MaxUncommittedRecords (c_cfg c)"
  have "flow (if ?b then setCommitBackpressure key False (?c\<lparr>c_backpressured := (c_backpressured c)(key := False)\<rparr>) else ?c)"
  proof (cases ?b)
    case True
    have "flow (setCommitBackpressure key False (?c\<lparr>c_backpressured := (c_backpressured c)(key := False)\<rparr>))"
      by (rule flow_setCommitBackpressure[OF 2(2), where u = "if ?r \<le> 0 then 0 else ?r"]) simp_all
    then show ?thesis using True by simp
  next
    case False
    have "flow ?c" by (rule flow_change[OF 2(2), where key = key])
      (use False flowD(1-7)[OF 2(2), where k = key] flowD(8)[OF 2(2)] in \<open>auto simp: key_flow_def\<close>)
    then show ?thesis using False by auto
  qed
  then show ?case using 2(1) by (simp add: Let_def cong: if_cong)
qed simp

lemma refill_bound: "refill cap chan pending = (chan', pending') \<Longrightarrow> int (length chan) \<le> cap \<Longrightarrow> int (length chan') \<le> cap"
  by (induction cap chan pending rule: refill.induct) (auto split: if_splits)

lemma flow_afterProcessed:
  assumes "flow c" "i < length (c_pool c)"
  shows "flow (afterProcessed i c)"
proof (cases "worker_of c (w_key (worker_at c i)) = Some i \<and> \<not> c_stopped c")
  case True
  let ?k = "w_key (worker_at c i)"
  obtain chan pending where rf: "refill (QueueSize (c_cfg c)) (w_records (worker_at c i)) (c_queuedRecords c ?k) = (chan, pending)" by fastforce
  have len: "int (length chan) \<le> QueueSize (c_cfg c)" using refill_bound[OF rf] flowD(8)[OF assms(1), of "worker_at c i"] assms(2) by simp
  have app: "chan @ pending = w_records (worker_at c i) @ c_queuedRecords c ?k" by (rule refill_append[OF rf])
  let ?u = "upd_worker i (\<lambda>w. w\<lparr>w_records := chan\<rparr>) c"
  let ?d = "?u\<lparr>c_queuedRecords := (c_queuedRecords c)(?k := pending)\<rparr>"
  have d: "afterProcessed i c = (if pending \<noteq> [] then ?d else if chan = [] then resumeLocked ?k (pauseForQueue OR pauseForRetry) ?d else ?d)"
    using True rf by (simp add: afterProcessed_def Let_def frame)
  have fu: "flow ?u" by (rule flow_upd_worker[OF assms]) (use len in simp)
  have fd: "flow ?d"
  proof (rule flow_change[OF fu, where key = ?k])
    have q: "c_queuedRecords c ?k \<noteq> []" if "pending \<noteq> []"
      using rf that by (cases "c_queuedRecords c ?k") auto
    show "key_flow ?d ?k" using True q flowD(1-7)[OF assms(1), where k = ?k] unfolding key_flow_def by (auto simp: frame)
  qed (use flowD(8)[OF fu] in \<open>simp_all add: frame\<close>)
  show ?thesis
  proof (cases "pending = [] \<and> chan = []")
    case e: True
    define x where "x = ?d"
    have x: "flow x" "c_queuedRecords x ?k = []" "worker_of x ?k = Some i" using fd e True by (simp_all add: x_def frame)
    have "flow (resumeLocked ?k (pauseForQueue OR pauseForRetry) x)"
    proof (rule flow_change[OF x(1), where key = ?k])
      show "key_flow (resumeLocked ?k (pauseForQueue OR pauseForRetry) x) ?k"
        using x flowD(1-7)[OF x(1), where k = ?k] unfolding key_flow_def
        by (simp add: frame paused_resumeLocked[OF flowD(4)[OF x(1,3)]]) (simp add: reasons_resumeLocked bit_simps)
    qed (use flowD(8)[OF x(1)] in \<open>simp_all add: frame\<close>)
    then have "flow (resumeLocked ?k (pauseForQueue OR pauseForRetry) ?d)" by (simp add: x_def)
    then show ?thesis using e by (simp add: d)
  qed (use fd in \<open>auto simp: d\<close>)
qed (use assms in \<open>auto simp: afterProcessed_def Let_def\<close>)

lemma flow_enqueue:
  assumes "flow c" "\<And>i. worker_of c (key_of r) = Some i \<Longrightarrow> i < length (c_pool c)"
  shows "flow (enqueue r c)"
proof (cases "worker_of c (key_of r)")
  case (Some i)
  let ?k = "key_of r"
  have ns: "\<not> c_stopped c" by (rule flowD(9)[OF assms(1) Some])
  show ?thesis
  proof (cases "c_queuedRecords c ?k = [] \<and> int (length (w_records (worker_at c i))) < QueueSize (c_cfg c)")
    case True
    then have "enqueue r c = upd_worker i (\<lambda>w. w\<lparr>w_records := w_records w @ [r]\<rparr>) c" using Some ns by (simp add: enqueue_def)
    then show ?thesis using flow_upd_worker[OF assms(1) assms(2)[OF Some]] True by simp
  next
    case False
    let ?d = "c\<lparr>c_queuedRecords := (c_queuedRecords c)(?k := c_queuedRecords c ?k @ [r])\<rparr>"
    have e: "enqueue r c = pauseLocked ?k pauseForQueue ?d" using Some ns False by (auto simp: enqueue_def Let_def)
    have pd: "c_paused ?d ?k \<longleftrightarrow> c_pauseReasons ?d ?k \<noteq> 0" using flowD(4)[OF assms(1) Some] by simp
    show ?thesis unfolding e
    proof (rule flow_change[OF assms(1), where key = ?k])
      show "key_flow (pauseLocked ?k pauseForQueue ?d) ?k"
        using Some flowD(1-7)[OF assms(1), where k = ?k] unfolding key_flow_def
        by (simp add: frame paused_pauseLocked[OF pd, of pauseForQueue 0]) (simp add: reasons_pauseLocked[OF pause_bits(1)] bit_simps)
    qed (use flowD(8)[OF assms(1)] in \<open>simp_all add: frame\<close>)
  qed
qed (use assms in \<open>simp add: enqueue_def\<close>)

lemma assign_each_names: "assign_each keys c = (new, c') \<Longrightarrow> k \<in> set new \<longleftrightarrow> worker_of c k = None \<and> worker_of c' k \<noteq> None"
proof (induction keys c arbitrary: new c' rule: assign_each.induct)
  case (2 key keys c)
  let ?d = "c\<lparr>c_pool := c_pool c @ [new_worker key], c_workers := AList.update key (length (c_pool c)) (c_workers c)\<rparr>"
  show ?case
  proof (cases "worker_of c key = None")
    case True
    then obtain new' where e: "assign_each keys ?d = (new', c')" "new = key # new'" using 2(3) by (auto split: prod.splits)
    have "k \<in> set new' \<longleftrightarrow> worker_of ?d k = None \<and> worker_of c' k \<noteq> None" using 2(2)[OF _ e(1)] True by simp
    then show ?thesis using e(2) True assign_each_keeps[OF e(1), of key] by (cases "k = key") (simp_all add: update_conv)
  qed (use 2 in auto)
qed auto

lemma flow_assign:
  assumes "flow c" "0 \<le> QueueSize (c_cfg c)" "\<And>k. worker_of c k = None \<Longrightarrow> k \<in> set keys \<Longrightarrow> \<not> c_backpressured c k"
  shows "flow (assign keys c)"
proof (cases "c_stopped c")
  case False
  obtain new c' where e: "assign_each keys c = (new, c')" by fastforce
  note a = assign_each_fields[OF e]
  have in_new: "k \<in> set new \<longleftrightarrow> worker_of c k = None \<and> worker_of c' k \<noteq> None" "k \<in> set new \<Longrightarrow> k \<in> set keys" for k
    using assign_each_names[OF e] a(2) by auto
  have "key_flow (assign keys c) k" for k
    using assign_each_keeps[OF e, of k] in_new[of k] flowD(1-7)[OF assms(1), where k = k] assms(3)[of k] False
    by (cases "worker_of c k"; cases "worker_of c' k") (auto simp: key_flow_def assign_def e a)
  moreover have "int (length (w_records w)) \<le> QueueSize (c_cfg c)" if "w \<in> set (c_pool c @ map new_worker new)" for w
    using that flowD(8)[OF assms(1)] assms(2) by (auto simp: new_worker_def)
  ultimately show ?thesis using False by (auto simp: flow_def assign_def e a)
qed (use assms in \<open>simp add: assign_def\<close>)

lemma flow_removeWorkers:
  assumes "flow c" "removeWorkers partitions c = (is, c')"
  shows "flow c'"
proof -
  have c': "c' = snd (removeWorkers partitions c)" by (simp add: assms(2))
  have "key_flow c' k" for k
    using flowD(1-7)[OF assms(1), where k = k] unfolding c'
    by (cases "k \<in> set partitions") (auto simp: key_flow_def removeWorkers_def map_of_filter_key)
  then show ?thesis using assms(1) by (auto simp: flow_def c' removeWorkers_def)
qed

lemma flow_stop_begin:
  assumes "flow c" "stop_begin c = (is, c')"
  shows "flow c'"
  using assms flowD(6,7)[OF assms(1)] by (auto simp: flow_def key_flow_def stop_begin_def)

lemma flow_dropPartitions:
  assumes "flow c" "\<And>k. k \<in> set partitions \<Longrightarrow> worker_of c k = None"
  shows "flow (dropPartitions partitions c)"
proof -
  have "key_flow (dropPartitions partitions c) k" for k
    using flowD(1-7)[OF assms(1), where k = k] assms(2)[of k] by (cases "k \<in> set partitions") (auto simp: key_flow_def dropPartitions_def)
  then show ?thesis using assms(1) by (auto simp: flow_def dropPartitions_def)
qed

lemma flow_stop_cancel: "flow c \<Longrightarrow> flow (stop_cancel c)"
  by (auto simp: flow_def key_flow_def stop_cancel_def)

lemma flow_flags:
  "flow c \<Longrightarrow> i < length (c_pool c) \<Longrightarrow> flow (cancel_worker i c)" "flow c \<Longrightarrow> i < length (c_pool c) \<Longrightarrow> flow (stop_worker i c)"
  using flow_upd_worker[of c i] flowD(8)[of c "worker_at c i"] by (simp_all add: cancel_worker_def stop_worker_def)

lemma flow_newPartitionRuntime: "flow (newPartitionRuntime cfg)"
  by (simp add: flow_def key_flow_def newPartitionRuntime_def)

section \<open>Flow of the system\<close>

text \<open>What a flush under way will take off the count of a partition.\<close>

definition taken :: "commitBatch option \<Rightarrow> partitionKey \<Rightarrow> int" where
  "taken b k = (case b of None \<Rightarrow> 0 | Some b \<Rightarrow> (case map_of (cb_counts b) k of None \<Rightarrow> 0 | Some n \<Rightarrow> n))"

definition pending_ok :: "consumer_sys \<Rightarrow> bool" where
  "pending_ok s \<longleftrightarrow> distinct (map fst (c_pendingOffsets (cs_c s))) \<and> (\<forall>(k, r)\<in>set (c_pendingOffsets (cs_c s)). key_of r = k)
     \<and> (\<forall>b. cs_flight s = Some b \<longrightarrow> map key_of (cb_records b) = map fst (cb_counts b) \<and> distinct (map fst (cb_counts b)))
     \<and> (\<not> c_committer_done (cs_c s) \<longrightarrow> (\<forall>k. taken (cs_flight s) k < c_uncommitted (cs_c s) k \<longrightarrow> k \<in> fst ` set (c_pendingOffsets (cs_c s))))"

abbreviation revoked :: "consumer_sys \<Rightarrow> partitionKey \<Rightarrow> bool" where
  "revoked s k \<equiv> (case cs_revoking s of Some (is, ps, _) \<Rightarrow> k \<in> set ps | None \<Rightarrow> False)"

definition owners_ok :: "consumer_sys \<Rightarrow> bool" where
  "owners_ok s \<longleftrightarrow>
     (\<forall>i < length (c_pool (cs_c s)). w_active (worker_at (cs_c s) i) \<longrightarrow> c_stopped (cs_c s)
        \<or> worker_of (cs_c s) (w_key (worker_at (cs_c s) i)) = Some i
        \<or> (case cs_revoking s of Some (is, ps, _) \<Rightarrow> i \<in> set is \<and> w_key (worker_at (cs_c s) i) \<in> set ps | None \<Rightarrow> False))
     \<and> (\<forall>k. revoked s k \<longrightarrow> worker_of (cs_c s) k = None)
     \<and> (\<forall>k. worker_of (cs_c s) k = None \<and> c_backpressured (cs_c s) k \<longrightarrow> c_stopped (cs_c s) \<or> revoked s k)"

definition buffered :: "consumer_sys \<Rightarrow> partitionKey \<Rightarrow> int" where
  "buffered s k = int (length (c_queuedRecords (cs_c s) k)) + int (length (filter (\<lambda>r. key_of r = k) (cs_polled s)))"

definition sys_flow :: "consumer_sys \<Rightarrow> bool" where
  "sys_flow s \<longleftrightarrow> flow (cs_c s) \<and> pending_ok s \<and> owners_ok s
     \<and> (\<forall>k i. worker_of (cs_c s) k = Some i \<longrightarrow> buffered s k \<le> MaxPollRecords (c_cfg (cs_c s)))"

lemma keys_put_pending:
  "fst ` set (put_pending lt r al) = insert (key_of r) (fst ` set al)"
  "distinct (map fst al) \<Longrightarrow> distinct (map fst (put_pending lt r al))"
  by (auto simp: put_pending_def dom_update distinct_update image_iff dest: map_of_SomeD split: option.splits)
    (metis map_of_SomeD fst_conv)+

lemma keys_requeue:
  "fst ` set (foldl (\<lambda>p r. put_pending lt r p) al rs) = fst ` set al \<union> key_of ` set rs"
  "distinct (map fst al) \<Longrightarrow> distinct (map fst (foldl (\<lambda>p r. put_pending lt r p) al rs))"
  by (induction rs arbitrary: al) (auto simp: keys_put_pending)

lemma assign_each_index:
  assumes "assign_each keys c = (new, c')" "length (c_pool c) \<le> i" "i < length (c_pool c')"
  shows "worker_of c' (w_key (worker_at c' i)) = Some i"
  using assms
proof (induction keys c arbitrary: new c' rule: assign_each.induct)
  case (2 key keys c)
  let ?d = "c\<lparr>c_pool := c_pool c @ [new_worker key], c_workers := AList.update key (length (c_pool c)) (c_workers c)\<rparr>"
  show ?case
  proof (cases "worker_of c key = None")
    case True
    then obtain new' where e: "assign_each keys ?d = (new', c')" using 2(3) by (auto split: prod.splits)
    show ?thesis
    proof (cases "i = length (c_pool c)")
      case True
      have "w_key (worker_at c' i) = key" using True by (simp add: assign_each_fields(1)[OF e] nth_append new_worker_def)
      then show ?thesis using assign_each_keeps[OF e, of key i] True by (simp add: update_conv)
    next
      case False
      then show ?thesis using 2(2)[OF _ e] 2(4,5) True by simp
    qed
  qed (use 2 in auto)
qed auto

lemma acknowledge_counts:
  "distinct (map fst counts) \<Longrightarrow> c_uncommitted (acknowledge counts c) k =
     (case map_of counts k of None \<Rightarrow> c_uncommitted c k | Some n \<Rightarrow> max 0 (c_uncommitted c k - n))"
  "distinct (map fst counts) \<Longrightarrow> c_backpressured (acknowledge counts c) k =
     (case map_of counts k of None \<Rightarrow> c_backpressured c k | Some n \<Rightarrow> c_backpressured c k \<and> MaxUncommittedRecords (c_cfg c) \<le> c_uncommitted c k - n)"
  by (induction counts c rule: acknowledge.induct)
    (auto simp: Let_def frame map_of_eq_None_iff[symmetric] split: option.splits)

lemma sys_flowD:
  assumes "sys_flow s"
  shows "flow (cs_c s)" "pending_ok s" "owners_ok s"
    "worker_of (cs_c s) k = Some i \<Longrightarrow> buffered s k \<le> MaxPollRecords (c_cfg (cs_c s))"
  using assms by (auto simp: sys_flow_def)

lemma owners_okD:
  assumes "owners_ok s"
  shows "i < length (c_pool (cs_c s)) \<Longrightarrow> w_active (worker_at (cs_c s) i) \<Longrightarrow> c_stopped (cs_c s)
      \<or> worker_of (cs_c s) (w_key (worker_at (cs_c s) i)) = Some i
      \<or> (case cs_revoking s of Some (is, ps, _) \<Rightarrow> i \<in> set is \<and> w_key (worker_at (cs_c s) i) \<in> set ps | None \<Rightarrow> False)"
    "revoked s k \<Longrightarrow> worker_of (cs_c s) k = None"
    "worker_of (cs_c s) k = None \<Longrightarrow> c_backpressured (cs_c s) k \<Longrightarrow> c_stopped (cs_c s) \<or> revoked s k"
  using assms unfolding owners_ok_def by blast+

lemma owners_worker:
  assumes "owners_ok s" "i < length (c_pool (cs_c s))" "w_key w = w_key (worker_at (cs_c s) i)" "w_active w \<longrightarrow> w_active (worker_at (cs_c s) i)"
    "c_pool c' = (c_pool (cs_c s))[i := w]" "c_workers c' = c_workers (cs_c s)" "c_stopped c' = c_stopped (cs_c s)"
    "c_backpressured c' = c_backpressured (cs_c s)" "cs_revoking s' = cs_revoking s" "cs_c s' = c'"
  shows "owners_ok s'"
proof -
  have w: "w_key (worker_at (cs_c s') j) = w_key (worker_at (cs_c s) j)" "w_active (worker_at (cs_c s') j) \<longrightarrow> w_active (worker_at (cs_c s) j)"
    "length (c_pool (cs_c s')) = length (c_pool (cs_c s))" for j
    using assms(2-4) by (cases "j = i"; simp add: assms(5,10))+
  show ?thesis using assms(1) w(2) unfolding owners_ok_def w(1,3) assms(6-9)[folded assms(10)] by blast
qed

lemma owners_same:
  assumes "owners_ok s" "c_pool (cs_c s') = c_pool (cs_c s)" "c_workers (cs_c s') = c_workers (cs_c s)"
    "c_stopped (cs_c s') = c_stopped (cs_c s)" "cs_revoking s' = cs_revoking s"
    "\<And>k. c_backpressured (cs_c s') k \<Longrightarrow> c_backpressured (cs_c s) k"
  shows "owners_ok s'"
  using assms(1,6) unfolding owners_ok_def assms(2-5) by blast

text \<open>A step of one worker that leaves queue and offsets alone.\<close>

lemma sys_flow_worker:
  assumes "sys_flow s" "i < length (c_pool (cs_c s))" "flow c'"
    "c_pool c' = (c_pool (cs_c s))[i := w]" "w_key w = w_key (worker_at (cs_c s) i)" "w_active w \<longrightarrow> w_active (worker_at (cs_c s) i)"
    "c_cfg c' = c_cfg (cs_c s)" "c_workers c' = c_workers (cs_c s)" "c_stopped c' = c_stopped (cs_c s)"
    "\<And>k. length (c_queuedRecords c' k) \<le> length (c_queuedRecords (cs_c s) k)" "c_pendingOffsets c' = c_pendingOffsets (cs_c s)"
    "c_uncommitted c' = c_uncommitted (cs_c s)" "c_backpressured c' = c_backpressured (cs_c s)" "c_committer_done c' = c_committer_done (cs_c s)"
  shows "sys_flow (s\<lparr>cs_c := c', cs_results := x\<rparr>)" (is "sys_flow ?s")
proof -
  have "owners_ok ?s" by (rule owners_worker[OF sys_flowD(3)[OF assms(1)] assms(2,5,6,4)]) (simp_all add: assms)
  moreover have "pending_ok ?s" using sys_flowD(2)[OF assms(1)] by (simp add: pending_ok_def assms)
  moreover have "buffered ?s k \<le> MaxPollRecords (c_cfg c')" if "worker_of c' k = Some j" for k j
    using sys_flowD(4)[OF assms(1), of k j] that assms(10)[of k] by (simp add: assms(7,8) buffered_def)
  ultimately show ?thesis using assms(3) unfolding sys_flow_def by simp
qed

lemma sys_flow_upd:
  assumes "sys_flow s" "i < length (c_pool (cs_c s))" "w_key (f (worker_at (cs_c s) i)) = w_key (worker_at (cs_c s) i)"
    "w_active (f (worker_at (cs_c s) i)) \<longrightarrow> w_active (worker_at (cs_c s) i)" "length (w_records (f (worker_at (cs_c s) i))) \<le> length (w_records (worker_at (cs_c s) i))"
  shows "sys_flow (s\<lparr>cs_c := upd_worker i f (cs_c s), cs_results := x\<rparr>)"
proof (rule sys_flow_worker[OF assms(1,2), where w = "f (worker_at (cs_c s) i)"])
  have "int (length (w_records (worker_at (cs_c s) i))) \<le> QueueSize (c_cfg (cs_c s))"
    by (rule flowD(8)[OF sys_flowD(1)[OF assms(1)]]) (use assms(2) in simp)
  then show "flow (upd_worker i f (cs_c s))" using assms(5) by (intro flow_upd_worker[OF sys_flowD(1)[OF assms(1)] assms(2)]) simp
qed (use assms(3,4) in \<open>simp_all add: frame upd_worker_pool\<close>)

lemmas sys_flow_upd0 = sys_flow_upd[where x = "cs_results s" and s = s for s, simplified]

lemma sys_flow_retrying:
  assumes "sys_flow s" "i < length (c_pool (cs_c s))"
  shows "sys_flow (s\<lparr>cs_c := pause i (set_phase i p (cs_c s))\<rparr>)"
  using sys_flow_worker[OF assms flow_pause[OF flow_phase[OF sys_flowD(1)[OF assms(1)] assms(2), of p], of i],
      where x = "cs_results s" and w = "(worker_at (cs_c s) i)\<lparr>w_phase := p\<rparr>"]
  by (simp add: frame upd_worker_pool)

lemma refill_shrinks: "refill cap chan pending = (chan', pending') \<Longrightarrow> length pending' \<le> length pending"
  by (induction cap chan pending rule: refill.induct) (auto split: if_splits)

lemma sys_flow_processed:
  assumes "sys_flow s" "i < length (c_pool (cs_c s))"
  shows "sys_flow (s\<lparr>cs_c := set_phase i p (afterProcessed i (cs_c s))\<rparr>)"
proof -
  let ?c = "cs_c s" and ?k = "w_key (worker_at (cs_c s) i)"
  obtain chan pending where r: "refill (QueueSize (c_cfg ?c)) (w_records (worker_at ?c i)) (c_queuedRecords ?c ?k) = (chan, pending)" by fastforce
  define guard where "guard \<longleftrightarrow> worker_of ?c ?k = Some i \<and> \<not> c_stopped ?c"
  have f: "c_pool (afterProcessed i ?c) = (c_pool ?c)[i := (worker_at ?c i)\<lparr>w_records := (if guard then chan else w_records (worker_at ?c i))\<rparr>]"
    "c_queuedRecords (afterProcessed i ?c) = (if guard then (c_queuedRecords ?c)(?k := pending) else c_queuedRecords ?c)"
    "c_cfg (afterProcessed i ?c) = c_cfg ?c" "c_workers (afterProcessed i ?c) = c_workers ?c" "c_stopped (afterProcessed i ?c) = c_stopped ?c"
    "c_pendingOffsets (afterProcessed i ?c) = c_pendingOffsets ?c" "c_uncommitted (afterProcessed i ?c) = c_uncommitted ?c"
    "c_backpressured (afterProcessed i ?c) = c_backpressured ?c" "c_committer_done (afterProcessed i ?c) = c_committer_done ?c"
    by (auto simp: afterProcessed_def Let_def r guard_def frame upd_worker_pool)
  have "flow (set_phase i p (afterProcessed i ?c))"
    using flow_phase[OF flow_afterProcessed[OF sys_flowD(1)[OF assms(1)] assms(2)]] assms(2) by (simp add: f)
  from sys_flow_worker[OF assms this, where x = "cs_results s" and w = "(worker_at ?c i)\<lparr>w_records := (if guard then chan else w_records (worker_at ?c i)), w_phase := p\<rparr>"]
  show ?thesis using assms(2) refill_shrinks[OF r] by (simp add: f frame upd_worker_pool)
qed

lemma sys_flow_marked:
  assumes "log_ok blog" "safe_sys cfg blog s" "sys_flow s" "i < length (c_pool (cs_c s))" "phase_at s i = Marking r"
    "markCompleted lt i r (cs_c s) = (True, c')"
  shows "sys_flow (s\<lparr>cs_c := set_phase i Marked c'\<rparr>)" (is "sys_flow ?s")
proof -
  let ?k = "key_of r"
  let ?u = "upd_worker i (\<lambda>w. w\<lparr>w_lastCompleted := Some (cloneCompletedRecord r)\<rparr>) (cs_c s)"
  have active: "w_active (worker_at (cs_c s) i)" and c': "c' = mark lt r ?u" using assms(6) by (auto simp: markCompleted_def split: if_splits)
  have k: "?k = w_key (worker_at (cs_c s) i)" using worker_ok_covers(2)[OF assms(1) safe_sysD(5)[OF assms(2,4)] assms(5)] .
  have w: "w_key (worker_at (set_phase i Marked c') j) = w_key (worker_at (cs_c s) j)"
    "w_active (worker_at (set_phase i Marked c') j) = w_active (worker_at (cs_c s) j)"
    "length (c_pool (set_phase i Marked c')) = length (c_pool (cs_c s))" for j
    using assms(4) by (simp_all add: c' frame)
  have f: "c_workers (set_phase i Marked c') = c_workers (cs_c s)" "c_stopped (set_phase i Marked c') = c_stopped (cs_c s)"
    "c_cfg (set_phase i Marked c') = c_cfg (cs_c s)" "c_queuedRecords (set_phase i Marked c') = c_queuedRecords (cs_c s)"
    "c_committer_done (set_phase i Marked c') = c_committer_done (cs_c s)"
    "c_pendingOffsets (set_phase i Marked c') = put_pending lt (cloneCompletedRecord r) (c_pendingOffsets (cs_c s))"
    "c_uncommitted (set_phase i Marked c') = (c_uncommitted (cs_c s))(?k := c_uncommitted (cs_c s) ?k + 1)"
    "\<And>k. k \<noteq> ?k \<Longrightarrow> c_backpressured (set_phase i Marked c') k = c_backpressured (cs_c s) k"
    by (simp_all add: c' frame) (simp add: mark_def Let_def frame)
  have "flow ?u" by (rule flow_upd_worker[OF sys_flowD(1)[OF assms(3)] assms(4)])
    (use flowD(8)[OF sys_flowD(1)[OF assms(3)], of "worker_at (cs_c s) i"] assms(4) in simp)
  then have "flow (set_phase i Marked c')" unfolding c' by (intro flow_phase flow_mark) (use assms(4) in \<open>simp_all add: frame\<close>)
  moreover have "owners_ok ?s"
  proof -
    have o: "owners_ok s" by (rule sys_flowD(3)[OF assms(3)])
    have own: "c_stopped (cs_c s) \<or> worker_of (cs_c s) ?k \<noteq> None \<or> revoked s ?k"
      using o[unfolded owners_ok_def, THEN conjunct1, rule_format, OF assms(4) active]
      unfolding k by (cases "cs_revoking s") auto
    have "worker_of (cs_c s) k = None \<and> c_backpressured (set_phase i Marked c') k \<longrightarrow> c_stopped (cs_c s) \<or> revoked s k" for k
    proof (cases "k = ?k")
      case True then show ?thesis using own by auto
    next
      case False then show ?thesis using o f(8) unfolding owners_ok_def by simp
    qed
    moreover have "cs_c ?s = set_phase i Marked c'" "cs_revoking ?s = cs_revoking s" by simp_all
    ultimately show ?thesis using o unfolding owners_ok_def by (simp only: w f(1,2)) blast
  qed
  moreover have "pending_ok ?s"
  proof -
    have p: "pending_ok s" by (rule sys_flowD(2)[OF assms(3)])
    have "\<forall>x\<in>set (put_pending lt (cloneCompletedRecord r) (c_pendingOffsets (cs_c s))). key_of (snd x) = fst x"
    proof
      fix x assume "x \<in> set (put_pending lt (cloneCompletedRecord r) (c_pendingOffsets (cs_c s)))"
      then have "x = (?k, cloneCompletedRecord r) \<or> x \<in> set (c_pendingOffsets (cs_c s))"
        using subsetD[OF set_put_pending[of lt "cloneCompletedRecord r" "c_pendingOffsets (cs_c s)"], of x] by simp
      then show "key_of (snd x) = fst x" using p unfolding pending_ok_def by auto
    qed
    then show ?thesis using p unfolding pending_ok_def by (auto simp: f keys_put_pending case_prod_beta)
  qed
  ultimately show ?thesis using sys_flowD(4)[OF assms(3)] unfolding sys_flow_def buffered_def by (simp add: f)
qed

lemma sys_flow_flush_taken:
  assumes "sys_flow s" "cs_flight s = None" "flush_begin (cs_c s) = (batch, c')"
  shows "sys_flow (s\<lparr>cs_c := c'\<lparr>c_wake := False\<rparr>, cs_flight := batch\<rparr>)" (is "sys_flow ?s")
proof -
  have c': "c' = (cs_c s)\<lparr>c_pendingOffsets := []\<rparr>"
    and b: "batch = (if c_pendingOffsets (cs_c s) = [] \<or> c_committer_done (cs_c s) then None else Some \<lparr>cb_records = map snd (c_pendingOffsets (cs_c s)),
       cb_counts = map (\<lambda>(key, _). (key, c_uncommitted (cs_c s) key)) (c_pendingOffsets (cs_c s))\<rparr>)"
    using assms(3) by (auto simp: flush_begin_def takePending_def Let_def split: if_splits)
  have p: "pending_ok s" by (rule sys_flowD(2)[OF assms(1)])
  have counts: "map_of (map (\<lambda>(key, _). (key, c_uncommitted (cs_c s) key)) al) k = (if k \<in> fst ` set al then Some (c_uncommitted (cs_c s) k) else None)"
    for k and al :: "(partitionKey \<times> kafka_record) list" by (induction al) auto
  have "map key_of (map snd al) = map fst (map (\<lambda>(key, _). (key, u key)) al)" if "\<forall>(k, r)\<in>set al. key_of r = k"
    for al and u :: "partitionKey \<Rightarrow> int" using that by (induction al) auto
  then have "pending_ok ?s" using p assms(2) unfolding pending_ok_def
    by (auto simp: c' b taken_def counts comp_def case_prod_beta)
  moreover have "owners_ok ?s" by (rule owners_same[OF sys_flowD(3)[OF assms(1)]]) (simp_all add: c')
  ultimately show ?thesis using sys_flowD(1,4)[OF assms(1)] unfolding sys_flow_def buffered_def by (simp add: c')
qed

lemma sys_flow_flushed:
  assumes "sys_flow s" "cs_flight s = Some batch"
  shows "sys_flow (s\<lparr>cs_c := flush_end lt batch ok (cs_c s), cs_flight := None, cs_committed := after\<rparr>)" (is "sys_flow ?s")
proof -
  let ?c = "flush_end lt batch ok (cs_c s)"
  have p: "pending_ok s" and o: "owners_ok s" by (rule sys_flowD[OF assms(1)])+
  have d: "distinct (map fst (cb_counts batch))" "map key_of (cb_records batch) = map fst (cb_counts batch)" using p assms(2) by (auto simp: pending_ok_def)
  have "flow ?c" using flow_acknowledge[OF sys_flowD(1)[OF assms(1)]] sys_flowD(1)[OF assms(1)] by (simp add: flush_end_def requeue_def)
  moreover have "owners_ok ?s"
  proof -
    have "c_backpressured ?c k \<Longrightarrow> c_backpressured (cs_c s) k" for k
      using d(1) by (auto simp: flush_end_def requeue_def acknowledge_counts split: option.splits if_splits)
    then show ?thesis by (intro owners_same[OF o]) (simp_all add: frame)
  qed
  moreover have "pending_ok ?s"
  proof (cases ok)
    case True
    then show ?thesis using p d(1) assms(2) unfolding pending_ok_def
      by (auto simp: flush_end_def frame acknowledge_counts taken_def split: option.splits)
  next
    case False
    have ks: "key_of ` set (cb_records batch) = fst ` set (cb_counts batch)" using arg_cong[OF d(2), of set] by simp
    have "k \<in> fst ` set (c_pendingOffsets (cs_c s)) \<union> fst ` set (cb_counts batch)"
      if "\<not> c_committer_done (cs_c s)" "0 < c_uncommitted (cs_c s) k" for k
    proof (cases "map_of (cb_counts batch) k")
      case None
      then have "taken (cs_flight s) k < c_uncommitted (cs_c s) k" using that assms(2) by (simp add: taken_def)
      then show ?thesis using p that(1) unfolding pending_ok_def by simp
    next
      case (Some n) then show ?thesis by (force dest: map_of_SomeD)
    qed
    moreover have "\<forall>(k, r)\<in>set (c_pendingOffsets ?c). key_of r = k"
      using p False set_requeue[of lt "c_pendingOffsets (cs_c s)" "cb_records batch"] by (auto simp: pending_ok_def flush_end_def requeue_def)
    moreover have "distinct (map fst (c_pendingOffsets ?c))" using p False by (simp add: pending_ok_def flush_end_def requeue_def keys_requeue)
    moreover have "fst ` set (c_pendingOffsets ?c) = fst ` set (c_pendingOffsets (cs_c s)) \<union> fst ` set (cb_counts batch)"
      if "\<not> c_committer_done (cs_c s)" using False that by (simp add: flush_end_def requeue_def keys_requeue ks)
    moreover have "c_uncommitted ?c = c_uncommitted (cs_c s)" using False by (simp add: flush_end_def requeue_def)
    ultimately show ?thesis unfolding pending_ok_def by (simp add: frame taken_def)
  qed
  ultimately show ?thesis using sys_flowD(4)[OF assms(1)] unfolding sys_flow_def buffered_def by (simp add: frame)
qed

lemma sys_flow_enqueued:
  assumes "tables_ok s" "sys_flow s" "cs_polled s = r # rs"
  shows "sys_flow (s\<lparr>cs_c := enqueue r (cs_c s), cs_polled := rs, cs_given := g\<rparr>)" (is "sys_flow ?s")
proof -
  let ?c = "enqueue r (cs_c s)"
  have e: "c_cfg ?c = c_cfg (cs_c s)" "c_workers ?c = c_workers (cs_c s)" "c_stopped ?c = c_stopped (cs_c s)" "c_pendingOffsets ?c = c_pendingOffsets (cs_c s)"
    "c_uncommitted ?c = c_uncommitted (cs_c s)" "c_backpressured ?c = c_backpressured (cs_c s)" "c_committer_done ?c = c_committer_done (cs_c s)"
    "length (c_pool ?c) = length (c_pool (cs_c s))"
    by (simp_all add: enqueue_def Let_def frame split: option.splits)
  have w: "w_key (worker_at ?c j) = w_key (worker_at (cs_c s) j)" "w_active (worker_at ?c j) = w_active (worker_at (cs_c s) j)" for j
    using tables_okD(1)[OF assms(1), of "key_of r"] by (auto simp: enqueue_def Let_def frame split: option.splits)
  have "owners_ok ?s"
  proof -
    have "cs_c ?s = ?c" "cs_revoking ?s = cs_revoking s" by simp_all
    then show ?thesis using sys_flowD(3)[OF assms(2)] unfolding owners_ok_def by (simp only: e w)
  qed
  moreover have "pending_ok ?s" using sys_flowD(2)[OF assms(2)] by (simp add: pending_ok_def e)
  moreover have "flow ?c" by (rule flow_enqueue[OF sys_flowD(1)[OF assms(2)]]) (rule tables_okD(1)[OF assms(1)])
  moreover have "buffered ?s k \<le> buffered s k" for k
    by (auto simp: buffered_def assms(3) enqueue_def Let_def frame split: option.splits)
  then have "buffered ?s k \<le> MaxPollRecords (c_cfg (cs_c s))" if "worker_of (cs_c s) k = Some i" for k i
    using sys_flowD(4)[OF assms(2) that] by (rule order_trans)
  ultimately show ?thesis unfolding sys_flow_def by (simp add: e)
qed

lemma sys_flow_polled:
  assumes "sys_flow s" "cs_polled s = []" "poll_ok blog s batch"
  shows "sys_flow (s\<lparr>cs_polled := batch\<rparr>)" (is "sys_flow ?s")
proof -
  have "buffered ?s k \<le> MaxPollRecords (c_cfg (cs_c s))" if w: "worker_of (cs_c s) k = Some i" for k i
  proof (cases "filter (\<lambda>r. key_of r = k) batch = []")
    case True then show ?thesis using sys_flowD(4)[OF assms(1) w] by (simp add: buffered_def)
  next
    case False
    then have "\<not> c_paused (cs_c s) k" using assms(3) by (auto simp: poll_ok_def filter_empty_conv)
    then have "c_queuedRecords (cs_c s) k = []"
      using flowD(1,4)[OF sys_flowD(1)[OF assms(1)], of k] w by (metis bit_0_eq bot_apply bot_bool_def)
    moreover have "int (length batch) \<le> MaxPollRecords (c_cfg (cs_c s))" using assms(3) by (simp add: poll_ok_def)
    then have "int (length (filter (\<lambda>r. key_of r = k) batch)) \<le> MaxPollRecords (c_cfg (cs_c s))"
      by (rule order_trans[OF of_nat_mono[OF length_filter_le]])
    ultimately show ?thesis by (simp add: buffered_def)
  qed
  moreover have "owners_ok ?s" by (rule owners_same[OF sys_flowD(3)[OF assms(1)]]) simp_all
  ultimately show ?thesis using sys_flowD(1,2)[OF assms(1)] unfolding sys_flow_def pending_ok_def by simp
qed

lemma assign_each_done: "c_committer_done (snd (assign_each keys c)) = c_committer_done c"
  by (induction keys c rule: assign_each.induct) (simp_all add: case_prod_beta)

lemma sys_flow_assigned:
  assumes "sys_flow s" "tables_ok s" "cs_revoking s = None" "no_stale s keys" "0 \<le> QueueSize (c_cfg (cs_c s))" "0 \<le> MaxPollRecords (c_cfg (cs_c s))"
  shows "sys_flow (s\<lparr>cs_c := assign keys (cs_c s), cs_start := x, cs_given := y\<rparr>)" (is "sys_flow ?s")
proof (cases "c_stopped (cs_c s)")
  case True
  then have a: "assign keys (cs_c s) = cs_c s" by (simp add: assign_def)
  have "owners_ok ?s" by (rule owners_same[OF sys_flowD(3)[OF assms(1)]]) (simp_all add: a)
  then show ?thesis using sys_flowD(1,2,4)[OF assms(1)] unfolding sys_flow_def pending_ok_def buffered_def by (simp add: a)
next
  case False
  let ?c = "cs_c s" and ?d = "assign keys (cs_c s)"
  obtain new c' where e: "assign_each keys ?c = (new, c')" by fastforce
  note a = assign_each_fields[OF e]
  have d: "c_pool ?d = c_pool c'" "c_workers ?d = c_workers c'" "c_cfg ?d = c_cfg ?c" "c_stopped ?d = c_stopped ?c"
    "c_queuedRecords ?d = c_queuedRecords ?c" "c_pendingOffsets ?d = c_pendingOffsets ?c" "c_uncommitted ?d = c_uncommitted ?c"
    "c_backpressured ?d = c_backpressured ?c" "c_committer_done ?d = c_committer_done ?c"
    using False assign_each_done[of keys ?c] by (simp_all add: assign_def e a)
  have o: "owners_ok s" by (rule sys_flowD(3)[OF assms(1)])
  have nb: "\<not> c_backpressured ?c k" if "worker_of ?c k = None" for k using owners_okD(3)[OF o that] False by (auto simp: assms(3))
  have "flow ?d" by (rule flow_assign[OF sys_flowD(1)[OF assms(1)] assms(5)]) (rule nb)
  moreover have "owners_ok ?s" unfolding owners_ok_def
  proof (intro conjI allI impI)
    fix i assume i: "i < length (c_pool (cs_c ?s))" "w_active (worker_at (cs_c ?s) i)"
    have "worker_of ?d (w_key (worker_at ?d i)) = Some i"
    proof (cases "i < length (c_pool ?c)")
      case True
      then have "worker_of ?c (w_key (worker_at ?c i)) = Some i" using o i False unfolding owners_ok_def by (simp add: assms(3) d(1) a(1) nth_append)
      then show ?thesis using assign_each_keeps[OF e] True by (simp add: d(1,2) a(1) nth_append)
    next
      case False then show ?thesis using assign_each_index[OF e] i by (simp add: d(1,2))
    qed
    then show "c_stopped (cs_c ?s) \<or> worker_of (cs_c ?s) (w_key (worker_at (cs_c ?s) i)) = Some i
      \<or> (case cs_revoking ?s of Some (is, ps, _) \<Rightarrow> i \<in> set is \<and> w_key (worker_at (cs_c ?s) i) \<in> set ps | None \<Rightarrow> False)" by simp
  next
    fix k assume "worker_of (cs_c ?s) k = None \<and> c_backpressured (cs_c ?s) k"
    then show "c_stopped (cs_c ?s) \<or> revoked ?s k" using nb[of k] assign_each_keeps[OF e, of k] by (cases "worker_of ?c k") (auto simp: d(2,8))
  qed (simp add: assms(3))
  moreover have "pending_ok ?s" using sys_flowD(2)[OF assms(1)] by (simp add: pending_ok_def d)
  moreover have "buffered ?s k \<le> MaxPollRecords (c_cfg ?c)" if "worker_of ?d k = Some i" for k i
  proof (cases "worker_of ?c k")
    case None
    then have "k \<in> set keys" using assign_each_names[OF e, of k] a(2) that by (auto simp: d(2))
    then have "filter (\<lambda>r. key_of r = k) (cs_polled s) = []" using assms(4) by (auto simp: no_stale_def filter_empty_conv)
    then show ?thesis using tables_ok_indices(4)[OF assms(2) None] assms(6) by (simp add: buffered_def d(5))
  next
    case (Some j) then show ?thesis using sys_flowD(4)[OF assms(1) Some] by (simp add: buffered_def d(5))
  qed
  ultimately show ?thesis unfolding sys_flow_def by (simp add: d(3))
qed

lemma sys_flow_revoke_started:
  assumes "sys_flow s" "tables_ok s" "cs_revoking s = None" "removeWorkers partitions (cs_c s) = (is, c')"
  shows "sys_flow (s\<lparr>cs_c := c', cs_revoking := Some (is, partitions, commit)\<rparr>)" (is "sys_flow ?s")
proof -
  have r: "is = map snd (filter (\<lambda>(key, _). key \<in> set partitions) (c_workers (cs_c s)))" "c' = snd (removeWorkers partitions (cs_c s))"
    using assms(4) by (auto simp: removeWorkers_def)
  have f: "c_pool c' = c_pool (cs_c s)" "worker_of c' k = (if k \<in> set partitions then None else worker_of (cs_c s) k)" "c_stopped c' = c_stopped (cs_c s)"
    "c_backpressured c' = c_backpressured (cs_c s)" "c_pendingOffsets c' = c_pendingOffsets (cs_c s)" "c_uncommitted c' = c_uncommitted (cs_c s)"
    "c_committer_done c' = c_committer_done (cs_c s)" "c_cfg c' = c_cfg (cs_c s)"
    "k \<notin> set partitions \<Longrightarrow> c_queuedRecords c' k = c_queuedRecords (cs_c s) k" for k
    by (simp_all add: r(2) removeWorkers_def map_of_filter_key)
  have o: "owners_ok s" by (rule sys_flowD(3)[OF assms(1)])
  have "owners_ok ?s" unfolding owners_ok_def
  proof (intro conjI allI impI)
    fix i assume i: "i < length (c_pool (cs_c ?s))" "w_active (worker_at (cs_c ?s) i)"
    let ?k = "w_key (worker_at (cs_c s) i)"
    have "c_stopped (cs_c s) \<or> worker_of (cs_c s) ?k = Some i" using o i unfolding owners_ok_def by (simp add: assms(3) f)
    moreover have "i \<in> set is" if "worker_of (cs_c s) ?k = Some i" "?k \<in> set partitions"
      using map_of_SomeD[OF that(1)] that(2) by (force simp: r(1))
    ultimately show "c_stopped (cs_c ?s) \<or> worker_of (cs_c ?s) (w_key (worker_at (cs_c ?s) i)) = Some i
      \<or> (case cs_revoking ?s of Some (is, ps, _) \<Rightarrow> i \<in> set is \<and> w_key (worker_at (cs_c ?s) i) \<in> set ps | None \<Rightarrow> False)"
      by (auto simp: f)
  next
    fix k assume "worker_of (cs_c ?s) k = None \<and> c_backpressured (cs_c ?s) k"
    then show "c_stopped (cs_c ?s) \<or> revoked ?s k" using o unfolding owners_ok_def by (auto simp: f assms(3) split: if_splits)
  qed (simp add: f)
  moreover have "pending_ok ?s" using sys_flowD(2)[OF assms(1)] by (simp add: pending_ok_def f)
  moreover have "buffered ?s k \<le> MaxPollRecords (c_cfg c')" if "worker_of c' k = Some i" for k i
    using sys_flowD(4)[OF assms(1), of k i] that by (simp add: buffered_def f split: if_splits)
  ultimately show ?thesis using flow_removeWorkers[OF sys_flowD(1)[OF assms(1)] assms(4)] unfolding sys_flow_def by simp
qed

lemma sys_flow_revoke_ended:
  assumes "sys_flow s" "cs_revoking s = Some (is, partitions, commit)" "\<forall>i\<in>set is. \<not> w_active (worker_at (cs_c s) i)" "cs_flight s = None"
    "revoke_end is partitions commit (cs_c s) = (records, c')"
  shows "sys_flow (s\<lparr>cs_c := c', cs_revoking := None, cs_committed := after\<rparr>)" (is "sys_flow ?s")
proof -
  have c': "c' = dropPartitions partitions (cs_c s)" using assms(5) by (simp add: revoke_end_def)
  have o: "owners_ok s" by (rule sys_flowD(3)[OF assms(1)])
  have none: "worker_of (cs_c s) k = None" if "k \<in> set partitions" for k using o that unfolding owners_ok_def by (simp add: assms(2))
  have "owners_ok ?s" unfolding owners_ok_def
  proof (intro conjI allI impI)
    fix i assume i: "i < length (c_pool (cs_c ?s))" "w_active (worker_at (cs_c ?s) i)"
    then have "c_stopped (cs_c s) \<or> worker_of (cs_c s) (w_key (worker_at (cs_c s) i)) = Some i \<or> i \<in> set is"
      using o unfolding owners_ok_def by (auto simp: c' dropPartitions_def assms(2))
    moreover have "i \<notin> set is" using i assms(3) by (auto simp: c' dropPartitions_def)
    ultimately show "c_stopped (cs_c ?s) \<or> worker_of (cs_c ?s) (w_key (worker_at (cs_c ?s) i)) = Some i
      \<or> (case cs_revoking ?s of Some (is, ps, _) \<Rightarrow> i \<in> set is \<and> w_key (worker_at (cs_c ?s) i) \<in> set ps | None \<Rightarrow> False)"
      by (simp add: c' dropPartitions_def)
  next
    fix k assume "worker_of (cs_c ?s) k = None \<and> c_backpressured (cs_c ?s) k"
    then show "c_stopped (cs_c ?s) \<or> revoked ?s k"
      using o unfolding owners_ok_def by (auto simp: c' dropPartitions_def assms(2) split: if_splits)
  qed simp
  moreover have "pending_ok ?s"
  proof -
    have p: "pending_ok s" by (rule sys_flowD(2)[OF assms(1)])
    have "fst ` set (c_pendingOffsets c') = fst ` set (c_pendingOffsets (cs_c s)) - set partitions" by (force simp: c' dropPartitions_def)
    then show ?thesis using p unfolding pending_ok_def
      by (simp add: taken_def assms(4)) (auto simp: c' dropPartitions_def distinct_map_filter)
  qed
  moreover have "flow c'" unfolding c' by (rule flow_dropPartitions[OF sys_flowD(1)[OF assms(1)] none])
  ultimately show ?thesis using sys_flowD(4)[OF assms(1)] unfolding sys_flow_def buffered_def by (simp add: c' dropPartitions_def)
qed

lemma sys_flow_stop:
  assumes "sys_flow s"
  shows "stop_begin (cs_c s) = (is, c') \<Longrightarrow> sys_flow (s\<lparr>cs_c := c', cs_stopping := Some is\<rparr>)"
    "sys_flow (s\<lparr>cs_c := stop_cancel (cs_c s)\<rparr>)"
proof -
  note p = sys_flowD(2)[OF assms] and o = sys_flowD(3)[OF assms]
  show "sys_flow (s\<lparr>cs_c := c', cs_stopping := Some is\<rparr>)" (is "sys_flow ?s") if b: "stop_begin (cs_c s) = (is, c')"
  proof -
    have c': "c' = snd (stop_begin (cs_c s))" by (simp add: b)
    have "owners_ok ?s" unfolding owners_ok_def by (simp add: c' stop_begin_def)
    moreover have "pending_ok ?s" using p by (simp add: pending_ok_def c' stop_begin_def)
    ultimately show ?thesis using flow_stop_begin[OF sys_flowD(1)[OF assms] b] unfolding sys_flow_def by (simp add: c' stop_begin_def)
  qed
  show "sys_flow (s\<lparr>cs_c := stop_cancel (cs_c s)\<rparr>)" (is "sys_flow ?s")
  proof -
    have w: "w_key (worker_at (stop_cancel (cs_c s)) i) = w_key (worker_at (cs_c s) i) \<and> w_active (worker_at (stop_cancel (cs_c s)) i) = w_active (worker_at (cs_c s) i)"
      if "i < length (c_pool (cs_c s))" for i using that by (simp add: stop_cancel_def)
    have "owners_ok ?s" unfolding owners_ok_def
    proof (intro conjI allI impI)
      fix i assume i: "i < length (c_pool (cs_c ?s))" "w_active (worker_at (cs_c ?s) i)"
      then have l: "i < length (c_pool (cs_c s))" by (simp add: stop_cancel_def)
      have "cs_c ?s = stop_cancel (cs_c s)" "cs_revoking ?s = cs_revoking s" "c_stopped (stop_cancel (cs_c s)) = c_stopped (cs_c s)"
        "c_workers (stop_cancel (cs_c s)) = c_workers (cs_c s)" by (simp_all add: stop_cancel_def)
      then show "c_stopped (cs_c ?s) \<or> worker_of (cs_c ?s) (w_key (worker_at (cs_c ?s) i)) = Some i
        \<or> (case cs_revoking ?s of Some (is, ps, _) \<Rightarrow> i \<in> set is \<and> w_key (worker_at (cs_c ?s) i) \<in> set ps | None \<Rightarrow> False)"
        using owners_okD(1)[OF o l] w[OF l] i(2) by (cases "cs_revoking s") auto
    qed (use owners_okD(2,3)[OF o] in \<open>simp_all add: stop_cancel_def\<close>)
    then show ?thesis using flow_stop_cancel[OF sys_flowD(1)[OF assms]] p sys_flowD(4)[OF assms]
      unfolding sys_flow_def pending_ok_def buffered_def by (simp add: stop_cancel_def)
  qed
qed

lemma withDefaults_positive:
  "0 < MaxPollRecords (withDefaults cfg)" "0 < QueueSize (withDefaults cfg)" "0 < MaxUncommittedRecords (withDefaults cfg)"
  "0 < RetryMin (withDefaults cfg)" "RetryMin (withDefaults cfg) \<le> RetryMax (withDefaults cfg)"
  by (simp_all add: withDefaults_def Let_def)

lemma sys_flow_step:
  assumes "log_ok blog" "safe_sys cfg blog s" "sys_flow s" "consumer_step lt blog s t"
  shows "sys_flow t"
  using assms(4)
proof cases
  case (assigned keys start)
  have "0 \<le> QueueSize (c_cfg (cs_c s))" "0 \<le> MaxPollRecords (c_cfg (cs_c s))"
    using withDefaults_positive[of cfg] safe_sysD(1)[OF assms(2)] by simp_all
  from sys_flow_assigned[OF assms(3) safe_sysD(2)[OF assms(2)] assigned(2,3) this] show ?thesis unfolding assigned(1) .
next
  case (polled batch) then show ?thesis using sys_flow_polled[OF assms(3)] by simp
next
  case (enqueued r rs) then show ?thesis using sys_flow_enqueued[OF safe_sysD(2)[OF assms(2)] assms(3)] by simp
next
  case (received i r rs) then show ?thesis by (auto intro: sys_flow_upd0[OF assms(3)])
next
  case (retrying i r) then show ?thesis using sys_flow_retrying[OF assms(3)] by simp
next
  case (concluded i err retryable r events oc)
  then show ?thesis using sys_flow_upd[OF assms(3), of i] sys_flow_upd0[OF assms(3), of i] by (auto split: if_splits)
next
  case (marked i r ok c')
  show ?thesis
  proof (cases ok)
    case True then show ?thesis using marked sys_flow_marked[OF assms(1-3), of i r lt c'] by simp
  next
    case False
    then have "c' = cs_c s" using marked(4) by (auto simp: markCompleted_def split: if_splits)
    then show ?thesis using marked False sys_flow_upd0[OF assms(3), of i "\<lambda>w. w\<lparr>w_phase := Exited\<rparr>"] by simp
  qed
next
  case (processed i) then show ?thesis using sys_flow_processed[OF assms(3)] by simp
next
  case (exited i) then show ?thesis using sys_flow_upd0[OF assms(3), of i] by simp
next
  case (flush_taken batch c') then show ?thesis using sys_flow_flush_taken[OF assms(3)] by simp
next
  case (flushed batch ok after) then show ?thesis using sys_flow_flushed[OF assms(3)] by simp
next
  case (revoke_started partitions "is" c' commit)
  then show ?thesis using sys_flow_revoke_started[OF assms(3) safe_sysD(2)[OF assms(2)]] by simp
next
  case (cancelled i) then show ?thesis using sys_flow_upd0[OF assms(3), of i] by (simp add: cancel_worker_def)
next
  case (deactivated i) then show ?thesis using sys_flow_upd0[OF assms(3), of i] by (simp add: stop_worker_def)
next
  case (revoke_ended "is" partitions commit records c' ok after)
  then show ?thesis using sys_flow_revoke_ended[OF assms(3)] by simp
next
  case (stop_started "is" c') then show ?thesis using sys_flow_stop(1)[OF assms(3)] by simp
next
  case stop_cancelled then show ?thesis using sys_flow_stop(2)[OF assms(3)] by simp
next
  case (stop_ended "is" ok after)
  then have "owners_ok t" by (intro owners_same[OF sys_flowD(3)[OF assms(3)]]) simp_all
  then show ?thesis using stop_ended sys_flowD[OF assms(3)] unfolding sys_flow_def pending_ok_def buffered_def by simp
next
  case (elsewhere extra after)
  then have "owners_ok t" by (intro owners_same[OF sys_flowD(3)[OF assms(3)]]) simp_all
  then show ?thesis using elsewhere sys_flowD[OF assms(3)] unfolding sys_flow_def pending_ok_def buffered_def by simp
qed

lemma sys_flow_reach:
  assumes "log_ok blog" "reach (consumer_init cfg) (consumer_step lt blog) s"
  shows "sys_flow s"
  using assms(2)
proof (induction rule: reach.induct)
  case (reach_init s)
  then show ?case by (auto simp: consumer_init_def sys_flow_def flow_newPartitionRuntime[unfolded newPartitionRuntime_def] owners_ok_def pending_ok_def taken_def newPartitionRuntime_def)
next
  case (reach_step s t)
  then show ?case using sys_flow_step[OF assms(1) safe_reach[OF assms(1) reach_step(1)]] by blast
qed

section \<open>Retries\<close>

lemma retryRecord_ends:
  assumes "0 < RetryMaxAttempts cfg" "DropAfterRetryExhausted cfg" "RetryMaxAttempts cfg - a < int (length events)" "a \<le> RetryMaxAttempts cfg"
  shows "retryRecord cfg d a events \<noteq> None"
  using assms(3,4)
proof (induction events arbitrary: d a)
  case (Cons e events)
  show ?case
  proof (cases e)
    case (Attempted retryable err)
    have "retryRecord cfg (min (wrap64 (d * 2)) (RetryMax cfg)) (a + 1) events \<noteq> None" if "a < RetryMaxAttempts cfg"
      by (rule Cons.IH) (use Cons.prems that in simp_all)
    then show ?thesis using Cons.prems assms(1,2) by (simp add: Attempted Let_def)
  qed simp
qed simp

lemma retryRecord_goes_on: "\<not> DropAfterRetryExhausted cfg \<Longrightarrow> retryRecord cfg d a (replicate n (Attempted True True)) = None"
  by (induction n arbitrary: d a) (simp_all add: Let_def)

lemma delay_doubles:
  fixes lo hi d :: int64
  assumes "0 < lo" "lo \<le> d" "d \<le> hi" "hi < 2 ^ 62"
  shows "lo \<le> min (wrap64 (d * 2)) hi" "min (wrap64 (d * 2)) hi \<le> hi"
proof -
  have "wrap64 (d * 2) = d * 2" by (rule wrap64_id) (use assms in simp_all)
  then show "lo \<le> min (wrap64 (d * 2)) hi" "min (wrap64 (d * 2)) hi \<le> hi" using assms by simp_all
qed

lemma retry_delays_bounded:
  assumes "0 < lo" "RetryMax cfg < 2 ^ 62" "lo \<le> d0" "d0 \<le> RetryMax cfg"
  shows "\<forall>d\<in>set (retry_delays cfg d0 n). lo \<le> d \<and> d \<le> RetryMax cfg"
  using assms(3,4)
proof (induction n arbitrary: d0)
  case (Suc n)
  let ?d = "min (wrap64 (d0 * 2)) (RetryMax cfg)"
  have 1: "lo \<le> ?d" "?d \<le> RetryMax cfg" by (rule delay_doubles[OF assms(1) Suc.prems assms(2)])+
  have 2: "\<forall>d\<in>set (retry_delays cfg ?d n). lo \<le> d \<and> d \<le> RetryMax cfg" by (rule Suc.IH[OF 1])
  have 3: "set (retry_delays cfg d0 (Suc n)) = insert d0 (set (retry_delays cfg ?d n))" by (simp only: retry_delays.simps list.set)
  show ?case unfolding 3 using 2 Suc.prems by blast
next
  case 0
  show ?case by simp
qed

section \<open>Properties\<close>







end
