(* ===== verification/Cursor.thy ===== *)
theory Cursor
  imports Cordis_Prelude
begin

text \<open>
  Opaque list continuation tokens (\<^verbatim>\<open>pkg/cursor\<close>): a token is \<^verbatim>\<open>p.k.h\<close> with the base64url payload, the
  kind of list and a MAC over both. Shown: what \<^verbatim>\<open>Encode\<close> writes \<^verbatim>\<open>Decode\<close> reads back, a token of one
  kind is refused for every other, a token that is accepted carries the codec's own MAC, and following
  the cursors of a sorted list visits every item once.
\<close>

section \<open>Base64url without padding\<close>

text \<open>
  \<^verbatim>\<open>base64.RawURLEncoding\<close>. The decoder skips line breaks and, not being strict, ignores the unused
  bits of the last character.
\<close>

definition b64_char :: "nat \<Rightarrow> rune" where
  "b64_char n = (if n < 26 then 65 + n else if n < 52 then 71 + n else if n < 62 then n - 4 else if n = 62 then 45 else 95)"

definition b64_value :: "rune \<Rightarrow> nat option" where
  "b64_value c =
     (if 65 \<le> c \<and> c \<le> 90 then Some (c - 65)
      else if 97 \<le> c \<and> c \<le> 122 then Some (c - 71)
      else if 48 \<le> c \<and> c \<le> 57 then Some (c + 4)
      else if c = 45 then Some 62 else if c = 95 then Some 63 else None)"

fun b64_groups :: "nat list \<Rightarrow> nat list" where
  "b64_groups [] = []"
| "b64_groups [a] = [a div 4, a mod 4 * 16]"
| "b64_groups [a, b] = [a div 4, a mod 4 * 16 + b div 16, b mod 16 * 4]"
| "b64_groups (a # b # c # xs) = a div 4 # (a mod 4 * 16 + b div 16) # (b mod 16 * 4 + c div 64) # c mod 64 # b64_groups xs"

definition b64_encode :: "nat list \<Rightarrow> gostring" where
  "b64_encode bytes = map b64_char (b64_groups bytes)"

fun b64_bytes :: "nat list \<Rightarrow> nat list option" where
  "b64_bytes [] = Some []"
| "b64_bytes [w] = None"
| "b64_bytes [w, x] = Some [w * 4 + x div 16]"
| "b64_bytes [w, x, y] = Some [w * 4 + x div 16, x mod 16 * 16 + y div 4]"
| "b64_bytes (w # x # y # z # xs) =
     map_option (\<lambda>bs. (w * 4 + x div 16) # (x mod 16 * 16 + y div 4) # (y mod 4 * 64 + z) # bs) (b64_bytes xs)"

definition b64_decode :: "gostring \<Rightarrow> nat list option" where
  "b64_decode s =
     (let vs = map b64_value (filter (\<lambda>c. c \<noteq> 10 \<and> c \<noteq> 13) s) in
      if None \<in> set vs then None else b64_bytes (map the vs))"

lemma b64_value_char: "n < 64 \<Longrightarrow> b64_value (b64_char n) = Some n"
  by (auto simp: b64_value_def b64_char_def)

lemma b64_char_plain: "n < 64 \<Longrightarrow> b64_char n \<noteq> 10 \<and> b64_char n \<noteq> 13 \<and> b64_char n \<noteq> 46"
  by (auto simp: b64_char_def)

lemma b64_groups_bound: "\<forall>b\<in>set bs. b < 256 \<Longrightarrow> \<forall>n\<in>set (b64_groups bs). n < 64"
  by (induction bs rule: b64_groups.induct) auto

lemma b64_bytes_groups: "\<forall>b\<in>set bs. b < 256 \<Longrightarrow> b64_bytes (b64_groups bs) = Some bs"
  by (induction bs rule: b64_groups.induct) auto

lemma b64_groups_Nil [simp]: "b64_groups bs = [] \<longleftrightarrow> bs = []"
  by (cases bs rule: b64_groups.cases) auto

lemma b64_decode_encode:
  assumes "\<forall>b\<in>set bs. b < 256"
  shows "b64_decode (b64_encode bs) = Some bs"
proof -
  note bnd = b64_groups_bound[OF assms]
  have f: "filter (\<lambda>c. c \<noteq> 10 \<and> c \<noteq> 13) (map b64_char (b64_groups bs)) = map b64_char (b64_groups bs)"
    using bnd b64_char_plain by (auto simp: filter_id_conv)
  have v: "map b64_value (map b64_char (b64_groups bs)) = map Some (b64_groups bs)"
    using bnd b64_value_char by simp
  show ?thesis unfolding b64_decode_def b64_encode_def f v Let_def using b64_bytes_groups[OF assms] by (auto simp: comp_def)
qed

lemma b64_encode_plain: "\<forall>b\<in>set bs. b < 256 \<Longrightarrow> 46 \<notin> set (b64_encode bs)"
  using b64_groups_bound b64_char_plain by (fastforce simp: b64_encode_def)

lemma b64_encode_Nil [simp]: "b64_encode bs = [] \<longleftrightarrow> bs = []"
  by (simp add: b64_encode_def)

section \<open>The codec\<close>

abbreviation (input) MinSecretLen :: nat where "MinSecretLen \<equiv> 32"

definition KindUserGuilds :: gostring where "KindUserGuilds = str ''user_guilds''"
definition KindGuildMembers :: gostring where "KindGuildMembers = str ''guild_members''"
definition KindGuildBans :: gostring where "KindGuildBans = str ''guild_bans''"
definition KindGuildInvites :: gostring where "KindGuildInvites = str ''guild_invites''"
definition KindGuildRoleMembers :: gostring where "KindGuildRoleMembers = str ''guild_role_members''"
definition KindGuildMentionTargets :: gostring where "KindGuildMentionTargets = str ''guild_mention_targets''"

datatype cursor_error = ErrInvalid | CodecRequired | SecretTooShort

text \<open>
  \<open>hmac secret message\<close> is HMAC-SHA256 and a \<open>json\<close> is how \<^verbatim>\<open>encoding/json\<close> writes and reads one
  payload type; both are arguments of the model.
\<close>

record Codec =
  cd_secret :: gostring
  cd_hmac :: "gostring \<Rightarrow> gostring \<Rightarrow> nat list"

record 'p json =
  js_Marshal :: "'p \<Rightarrow> nat list"
  js_Unmarshal :: "nat list \<Rightarrow> 'p option"

definition NewCodec :: "(gostring \<Rightarrow> gostring \<Rightarrow> nat list) \<Rightarrow> gostring \<Rightarrow> cursor_error + Codec" where
  "NewCodec hmac secret =
     (if byte_len secret < MinSecretLen then Inl SecretTooShort else Inr \<lparr>cd_secret = secret, cd_hmac = hmac\<rparr>)"

definition mac :: "Codec \<Rightarrow> gostring \<Rightarrow> gostring \<Rightarrow> gostring" where
  "mac c p kind = b64_encode (cd_hmac c (cd_secret c) (p @ [46] @ kind))"

definition validateKind :: "gostring \<Rightarrow> cursor_error + unit" where
  "validateKind kind = (if kind = [] \<or> 46 \<in> set kind then Inl ErrInvalid else Inr ())"

text \<open>\<^verbatim>\<open>strings.Split(token, ".")\<close>.\<close>

fun split_dots :: "gostring \<Rightarrow> gostring list" where
  "split_dots [] = [[]]"
| "split_dots (c # s) = (if c = 46 then [] # split_dots s
     else case split_dots s of part # parts \<Rightarrow> (c # part) # parts | [] \<Rightarrow> [[c]])"

definition split :: "gostring \<Rightarrow> cursor_error + gostring \<times> gostring \<times> gostring" where
  "split token = (case split_dots token of
       [p, kind, h] \<Rightarrow> if p = [] \<or> kind = [] \<or> h = [] then Inl ErrInvalid else Inr (p, kind, h)
     | _ \<Rightarrow> Inl ErrInvalid)"

definition Encode :: "Codec option \<Rightarrow> 'p json \<Rightarrow> gostring \<Rightarrow> 'p \<Rightarrow> cursor_error + gostring" where
  "Encode c json kind payload = (case c of
       None \<Rightarrow> Inl CodecRequired
     | Some c \<Rightarrow>
         (case validateKind kind of
            Inl e \<Rightarrow> Inl e
          | Inr _ \<Rightarrow>
              let p = b64_encode (js_Marshal json payload); h = mac c p kind
              in Inr (p @ [46] @ kind @ [46] @ h)))"

text \<open>\<open>None\<close> is an unset cursor (\<^verbatim>\<open>ok = false\<close>).\<close>

definition Decode :: "Codec option \<Rightarrow> 'p json \<Rightarrow> gostring \<Rightarrow> gostring \<Rightarrow> cursor_error + 'p option" where
  "Decode c json kind token =
     (if token = [] then Inr None
      else case c of
        None \<Rightarrow> Inl CodecRequired
      | Some c \<Rightarrow>
          (case validateKind kind of
             Inl e \<Rightarrow> Inl e
           | Inr _ \<Rightarrow>
               (case split token of
                  Inl e \<Rightarrow> Inl e
                | Inr (p, k, h) \<Rightarrow>
                    if k \<noteq> kind then Inl ErrInvalid
                    else if h \<noteq> mac c p k then Inl ErrInvalid
                    else case b64_decode p of
                      None \<Rightarrow> Inl ErrInvalid
                    | Some raw \<Rightarrow>
                        (case js_Unmarshal json raw of None \<Rightarrow> Inl ErrInvalid | Some payload \<Rightarrow> Inr (Some payload)))))"

definition Trim :: "'a list \<Rightarrow> int \<Rightarrow> 'a list \<times> bool" where
  "Trim items limit =
     (let limit = (if limit < 0 then 0 else limit) in
      if int (length items) > limit then (take (nat limit) items, True) else (items, False))"

section \<open>Round trip and integrity\<close>

lemma split_dots_append: "46 \<notin> set p \<Longrightarrow> split_dots (p @ 46 # s) = p # split_dots s"
  by (induction p) auto

lemma split_dots_plain: "46 \<notin> set p \<Longrightarrow> split_dots p = [p]"
  by (induction p) auto

lemma split_dots_neq_Nil [simp]: "split_dots s \<noteq> []"
  by (induction s) (auto split: list.splits)

lemma split_dots_inverse: "split_dots s = parts \<Longrightarrow> s = concat (map (\<lambda>p. p @ [46]) (butlast parts)) @ last parts"
proof (induction s arbitrary: parts)
  case (Cons c s)
  show ?case
  proof (cases "c = 46")
    case True
    then show ?thesis using Cons.IH[OF refl] Cons.prems by auto
  next
    case False
    obtain q qs where q: "split_dots s = q # qs" using split_dots_neq_Nil by (metis neq_Nil_conv)
    then show ?thesis using Cons.IH[OF q] Cons.prems False by (cases qs) auto
  qed
qed auto

lemma split_Inr:
  "split token = Inr (p, k, h) \<longleftrightarrow> split_dots token = [p, k, h] \<and> p \<noteq> [] \<and> k \<noteq> [] \<and> h \<noteq> []"
  by (auto simp: split_def split: list.splits if_splits)

text \<open>The assumptions on the parameters: digests are non-empty byte strings, and a payload is written as non-empty bytes that read back as itself.\<close>

definition codec_ok :: "Codec \<Rightarrow> bool" where
  "codec_ok c \<longleftrightarrow> (\<forall>m. cd_hmac c (cd_secret c) m \<noteq> [] \<and> (\<forall>b\<in>set (cd_hmac c (cd_secret c) m). b < 256))"

definition json_ok :: "'p json \<Rightarrow> 'p \<Rightarrow> bool" where
  "json_ok json payload \<longleftrightarrow> js_Unmarshal json (js_Marshal json payload) = Some payload \<and> js_Marshal json payload \<noteq> []
     \<and> (\<forall>b\<in>set (js_Marshal json payload). b < 256)"

lemma split_Encode:
  assumes "Encode (Some c) json kind payload = Inr token" "codec_ok c" "json_ok json payload"
  shows "split token = Inr (b64_encode (js_Marshal json payload), kind, mac c (b64_encode (js_Marshal json payload)) kind)"
proof -
  let ?p = "b64_encode (js_Marshal json payload)"
  have k: "kind \<noteq> []" "46 \<notin> set kind" and t: "token = ?p @ 46 # kind @ 46 # mac c ?p kind"
    using assms(1) by (auto simp: Encode_def validateKind_def Let_def split: if_splits)
  have p: "46 \<notin> set ?p" "?p \<noteq> []" using assms(3) b64_encode_plain by (auto simp: json_ok_def)
  have h: "46 \<notin> set (mac c ?p kind)" "mac c ?p kind \<noteq> []" using assms(2) b64_encode_plain by (auto simp: codec_ok_def mac_def)
  show ?thesis using k p h by (simp add: t split_Inr split_dots_append split_dots_plain)
qed

lemma Decode_Encode:
  assumes "Encode (Some c) json kind payload = Inr token" "codec_ok c" "json_ok json payload"
  shows "Decode (Some c) json kind token = Inr (Some payload)"
proof -
  have "token \<noteq> []" "validateKind kind = Inr ()" using assms(1) by (auto simp: Encode_def Let_def split: sum.splits)
  then show ?thesis using split_Encode[OF assms] assms(3) b64_decode_encode
    by (auto simp: Decode_def json_ok_def)
qed

lemma Decode_other_kind:
  assumes "Encode (Some c) json kind payload = Inr token" "codec_ok c" "json_ok json payload" "kind' \<noteq> kind"
  shows "Decode (Some c) json' kind' token = Inl ErrInvalid"
proof -
  have "token \<noteq> []" using assms(1) by (auto simp: Encode_def Let_def split: sum.splits)
  then show ?thesis using split_Encode[OF assms(1-3)] assms(4)
    by (auto simp: Decode_def validateKind_def)
qed

lemma Decode_authentic:
  assumes "Decode (Some c) json kind token = Inr (Some payload)"
  shows "\<exists>p. token = p @ [46] @ kind @ [46] @ mac c p kind"
proof -
  obtain p h where "split token = Inr (p, kind, h)" "h = mac c p kind"
    using assms by (auto simp: Decode_def split: if_splits sum.splits option.splits)
  then show ?thesis using split_dots_inverse[of token] by (auto simp: split_Inr)
qed

section \<open>Pages\<close>

lemma Trim_page: "0 \<le> limit \<Longrightarrow> fst (Trim items limit) = take (nat limit) items"
  by (auto simp: Trim_def)

lemma Trim_more: "0 \<le> limit \<Longrightarrow> snd (Trim items limit) \<longleftrightarrow> limit < int (length items)"
  by (auto simp: Trim_def)

text \<open>
  A list in the strict order of a key, continued after the last item of a page: the next query finds
  exactly the items that are left.
\<close>

lemma page_continues:
  fixes key :: "'a \<Rightarrow> 'k::linorder"
  assumes sorted: "sorted_wrt (\<lambda>x y. key x < key y) xs" and n: "0 < n" "n \<le> length xs"
  shows "filter (\<lambda>x. key (last (take n xs)) < key x) xs = drop n xs"
proof -
  have l: "last (take n xs) = xs ! (n - 1)" using n by (subst last_conv_nth) auto
  let ?Q = "\<lambda>x. key (xs ! (n - 1)) < key x"
  have "\<not> ?Q (xs ! i)" if "i < n" for i
  proof (cases "i = n - 1")
    case False
    then have "i < n - 1" using that by simp
    moreover have "n - 1 < length xs" using n by simp
    ultimately show ?thesis using sorted_wrt_nth_less[OF sorted, of i "n - 1"] by simp
  qed simp
  then have 1: "filter ?Q (take n xs) = []" using n by (auto simp: filter_empty_conv in_set_conv_nth)
  have "?Q (drop n xs ! j)" if "j < length (drop n xs)" for j
    using that n sorted_wrt_nth_less[OF sorted, of "n - 1" "n + j"] by simp
  then have 2: "filter ?Q (drop n xs) = drop n xs" by (metis filter_True in_set_conv_nth)
  have "filter ?Q xs = filter ?Q (take n xs @ drop n xs)" by simp
  then show ?thesis unfolding l filter_append 1 2 by simp
qed

lemma sorted_strict: "distinct (map key xs) \<Longrightarrow> sorted (map key xs) \<Longrightarrow> sorted_wrt (\<lambda>x y. key x < (key y :: 'k::linorder)) xs"
  by (induction xs) (auto simp: less_le)

lemma page_of_table:
  fixes key :: "'a \<Rightarrow> 'k::linorder"
  assumes "distinct (map key (filter P t))" "0 < n" "n \<le> length (filter P t)"
  defines "full \<equiv> sort_key key (filter P t)"
  shows "sort_key key (filter (\<lambda>x. P x \<and> key (last (take n full)) < key x) t) = drop n full"
proof -
  have s: "sorted_wrt (\<lambda>x y. key x < key y) full"
    by (rule sorted_strict) (use assms(1) in \<open>simp_all add: full_def distinct_map\<close>)
  have "sort_key key (filter (\<lambda>x. P x \<and> key (last (take n full)) < key x) t)
      = filter (\<lambda>x. key (last (take n full)) < key x) full"
    by (simp add: full_def filter_sort conj_commute)
  then show ?thesis using page_continues[OF s assms(2)] assms(3) by (simp add: full_def)
qed

end
