(* ===== verification/Guild_Model.thy ===== *)
theory Guild_Model
  imports Outbox
begin

text \<open>
  Data of the guild service: the rows of its tables (\<^verbatim>\<open>internal/model\<close> and the migrations),
  the errors its store and its handlers return, the payloads of its events, its configuration and
  the services it calls.
\<close>

section \<open>Rows\<close>

type_synonym perms = "64 word"

record Guild =
  g_ID :: int64
  g_OwnerID :: int64
  g_Name :: gostring
  g_Description :: gostring
  g_IconAssetID :: int64
  g_Revision :: int64
  g_AccessRevision :: int64
  g_ChannelLayoutRevision :: int64
  g_CreatedAt :: int64
  g_UpdatedAt :: int64
  g_DeletedAt :: int64

record GuildMember =
  m_GuildID :: int64
  m_UserID :: int64
  m_Nickname :: gostring
  m_Revision :: int64
  m_JoinedAt :: int64
  m_UpdatedAt :: int64
  m_DeletedAt :: int64

record GuildMemberProfile =
  p_GuildID :: int64
  p_UserID :: int64
  p_Username :: gostring
  p_Name :: gostring
  p_Nickname :: gostring
  p_UsernameSearch :: gostring
  p_NameSearch :: gostring
  p_NicknameSearch :: gostring
  p_AvatarAssetID :: int64
  p_ProfileUpdatedAt :: int64

record GuildBan =
  b_GuildID :: int64
  b_UserID :: int64
  b_ActorUserID :: int64
  b_Reason :: gostring
  b_CreatedAt :: int64

record GuildInvite =
  i_ID :: int64
  i_Code :: gostring
  i_GuildID :: int64
  i_CreatorUserID :: int64
  i_MaxUses :: int32
  i_Uses :: int32
  i_ExpiresAt :: int64
  i_CreatedAt :: int64

record Role =
  r_ID :: int64
  r_GuildID :: int64
  r_Name :: gostring
  r_Permissions :: perms
  r_Position :: int32
  r_IsDefault :: bool
  r_Revision :: int64
  r_CreatedAt :: int64
  r_UpdatedAt :: int64
  r_DeletedAt :: int64

record Channel =
  c_ID :: int64
  c_GuildID :: int64
  c_Name :: gostring
  c_Type :: int32
  c_Position :: int32
  c_Topic :: gostring
  c_Revision :: int64
  c_CreatedAt :: int64
  c_UpdatedAt :: int64
  c_DeletedAt :: int64
  c_ParentID :: int64

record ChannelPermissionOverwrite =
  o_ChannelID :: int64
  o_GuildID :: int64
  o_AppliesTo :: int32
  o_AppliesToID :: int64
  o_Allow :: perms
  o_Deny :: perms
  o_Revision :: int64
  o_CreatedAt :: int64
  o_UpdatedAt :: int64

text \<open>\<^verbatim>\<open>guild_member_roles\<close> and \<^verbatim>\<open>guild_idempotency_keys\<close> have no struct of their own.\<close>

record GuildMemberRole =
  mr_GuildID :: int64
  mr_UserID :: int64
  mr_RoleID :: int64
  mr_CreatedAt :: int64

record guildIdempotencyRow =
  ik_ActorUserID :: int64
  ik_Operation :: gostring
  ik_Key :: gostring
  ik_RequestHash :: gostring
  ik_ResourceID :: int64
  ik_CreatedAt :: int64
  ik_ExpiresAt :: int64

section \<open>Protobuf enumerations\<close>

abbreviation (input) CHANNEL_UNSPECIFIED :: int32 where "CHANNEL_UNSPECIFIED \<equiv> 0"
abbreviation (input) CHANNEL_TEXT :: int32 where "CHANNEL_TEXT \<equiv> 1"
abbreviation (input) CHANNEL_CATEGORY :: int32 where "CHANNEL_CATEGORY \<equiv> 2"
abbreviation (input) CHANNEL_VOICE :: int32 where "CHANNEL_VOICE \<equiv> 3"
abbreviation (input) OVERWRITE_ROLE :: int32 where "OVERWRITE_ROLE \<equiv> 1"
abbreviation (input) OVERWRITE_MEMBER :: int32 where "OVERWRITE_MEMBER \<equiv> 2"

section \<open>Errors\<close>

text \<open>
  The store's sentinel errors, PostgreSQL errors by class (\<open>CheckViolation\<close> is code 23514,
  \<open>UniqueViolation\<close> 23505), the errors of \<^verbatim>\<open>server/errors.go\<close>, and errors passed through from
  the user and media services.
\<close>

datatype guild_error =
    ErrNoRows
  | ErrMemberAlreadyExists
  | ErrUserBanned
  | ErrGuildChannelLayoutRevisionConflict
  | ErrResourceLimitExceeded
  | ErrIdempotencyContention
  | CheckViolation
  | UniqueViolation
  | StoreError gostring
  | InvalidRequest gostring
  | NotFound
  | PermissionDenied
  | MemberAlreadyExists
  | InviteNotFound
  | NotGuildIconUpload
  | UserBanned
  | ResourceLimitExceeded
  | ChannelLayoutConflict
  | IdempotencyKeyReused
  | Unavailable
  | Internal gostring
  | ClientError gostring

abbreviation invalidRequest :: "string \<Rightarrow> guild_error" where
  "invalidRequest m \<equiv> InvalidRequest (str m)"

definition mapStoreError :: "guild_error \<Rightarrow> guild_error" where
  "mapStoreError err = (case err of
       ErrNoRows \<Rightarrow> NotFound
     | ErrIdempotencyContention \<Rightarrow> Unavailable
     | ErrMemberAlreadyExists \<Rightarrow> MemberAlreadyExists
     | ErrUserBanned \<Rightarrow> UserBanned
     | ErrResourceLimitExceeded \<Rightarrow> ResourceLimitExceeded
     | ErrGuildChannelLayoutRevisionConflict \<Rightarrow> ChannelLayoutConflict
     | CheckViolation \<Rightarrow> invalidRequest ''invalid guild state''
     | e \<Rightarrow> e)"

section \<open>Events\<close>

text \<open>\<^verbatim>\<open>userv1.UserProfile\<close>.\<close>

record UserProfile =
  up_UserID :: int64
  up_Name :: gostring
  up_Bio :: gostring
  up_AvatarAssetID :: int64
  up_CreatedAt :: int64
  up_UpdatedAt :: int64
  up_Username :: gostring

datatype userProfilePayload = UserProfilePayload
  (upp_UserID: gostring) (upp_Name: gostring) (upp_Bio: gostring) (upp_AvatarAssetID: gostring)
  (upp_CreatedAt: int64) (upp_UpdatedAt: int64) (upp_Username: gostring)

text \<open>The payload structs of \<^verbatim>\<open>server/events.go\<close>, fields in their order.\<close>

datatype event_data =
    guildPayload (pl_ID: gostring) (pl_OwnerID: gostring) (pl_Name: gostring) (pl_Description: gostring)
      (pl_IconAssetID: gostring) (pl_Revision: int64) (pl_CreatedAt: int64) (pl_UpdatedAt: int64)
  | guildDeletedPayload (pl_ID: gostring) (pl_Revision: int64) (pl_DeletedAt: int64)
  | guildMemberPayload (pl_GuildID: gostring) (pl_UserID: gostring) (pl_Profile: userProfilePayload)
      (pl_Nickname: gostring) (pl_Revision: int64) (pl_JoinedAt: int64) (pl_UpdatedAt: int64)
  | guildMemberRemovedPayload (pl_GuildID: gostring) (pl_UserID: gostring) (pl_Revision: int64) (pl_RemovedAt: int64)
  | guildMemberBannedPayload (pl_GuildID: gostring) (pl_UserID: gostring) (pl_ActorUserID: gostring)
      (pl_Profile: userProfilePayload) (pl_ActorProfile: userProfilePayload) (pl_Reason: gostring) (pl_BannedAt: int64)
  | guildMemberUnbannedPayload (pl_GuildID: gostring) (pl_UserID: gostring) (pl_Profile: userProfilePayload)
      (pl_UnbannedAt: int64)
  | guildRolePayload (pl_ID: gostring) (pl_GuildID: gostring) (pl_Name: gostring) (pl_Permissions: gostring)
      (pl_Position: int32) (pl_IsDefault: bool) (pl_Revision: int64) (pl_CreatedAt: int64) (pl_UpdatedAt: int64)
  | guildRoleDeletedPayload (pl_ID: gostring) (pl_GuildID: gostring) (pl_Revision: int64) (pl_DeletedAt: int64)
  | guildMemberRolesUpdatedPayload (pl_GuildID: gostring) (pl_UserID: gostring) (pl_RoleIDs: "gostring list")
      (pl_UpdatedAt: int64)
  | guildChannelPayload (pl_ID: gostring) (pl_GuildID: gostring) (pl_Name: gostring) (pl_Type: int32)
      (pl_Position: int32) (pl_Topic: gostring) (pl_Revision: int64) (pl_CreatedAt: int64) (pl_UpdatedAt: int64)
      (pl_ParentID: gostring) (pl_ChannelLayoutRevision: int64)
  | guildChannelDeletedPayload (pl_ID: gostring) (pl_GuildID: gostring) (pl_Revision: int64) (pl_DeletedAt: int64)
      (pl_ChannelLayoutRevision: int64)
  | guildChannelOverwritePayload (pl_ChannelID: gostring) (pl_GuildID: gostring) (pl_AppliesTo: int32)
      (pl_AppliesToID: gostring) (pl_Allow: gostring) (pl_Deny: gostring) (pl_Revision: int64) (pl_UpdatedAt: int64)
  | guildChannelOverwriteDeletedPayload (pl_ChannelID: gostring) (pl_GuildID: gostring) (pl_AppliesTo: int32)
      (pl_AppliesToID: gostring)

text \<open>
  The JSON envelope of an event. \<open>ev_AccessRevision\<close> is the \<^verbatim>\<open>access_revision\<close> member that
  \<^verbatim>\<open>addEventAccessRevision\<close> adds to the data object.
\<close>

record eventEnvelope =
  ev_Type :: gostring
  ev_Data :: event_data
  ev_AccessRevision :: "int64 option"
  ev_IdempotencyKey :: gostring
  ev_StreamSequence :: int64
  ev_DeliveryIndex :: int

record guildEvent =
  ge_EventID :: int64
  ge_DeliveryIndex :: int
  ge_StreamKey :: gostring
  ge_Type :: gostring
  ge_GuildID :: int64
  ge_Key :: gostring
  ge_Payload :: eventEnvelope

section \<open>The database\<close>

record guild_db =
  db_guilds :: "Guild list"
  db_members :: "GuildMember list"
  db_roles :: "Role list"
  db_member_roles :: "GuildMemberRole list"
  db_channels :: "Channel list"
  db_overwrites :: "ChannelPermissionOverwrite list"
  db_bans :: "GuildBan list"
  db_invites :: "GuildInvite list"
  db_idempotency :: "guildIdempotencyRow list"
  db_profiles :: "GuildMemberProfile list"
  db_outbox :: "eventEnvelope outbox"

type_synonym 'a gtx = "(guild_db, guild_error, 'a) tx"

section \<open>Configuration and environment\<close>

record ResourceLimitsConfig =
  rl_OwnedGuildsPerUser :: int
  rl_JoinedGuildsPerUser :: int
  rl_RolesPerGuild :: int
  rl_ChannelsPerGuild :: int
  rl_ActiveInvitesPerGuild :: int
  rl_OverwritesPerChannel :: int

definition OwnedGuilds :: "ResourceLimitsConfig \<Rightarrow> int" where
  "OwnedGuilds c = (if rl_OwnedGuildsPerUser c \<le> 0 then 10 else rl_OwnedGuildsPerUser c)"

definition JoinedGuilds :: "ResourceLimitsConfig \<Rightarrow> int" where
  "JoinedGuilds c = (if rl_JoinedGuildsPerUser c \<le> 0 then 100 else rl_JoinedGuildsPerUser c)"

definition Roles :: "ResourceLimitsConfig \<Rightarrow> int" where
  "Roles c = (if rl_RolesPerGuild c \<le> 0 then 250 else rl_RolesPerGuild c)"

definition Channels :: "ResourceLimitsConfig \<Rightarrow> int" where
  "Channels c = (if rl_ChannelsPerGuild c \<le> 0 then 500 else rl_ChannelsPerGuild c)"

definition ActiveInvites :: "ResourceLimitsConfig \<Rightarrow> int" where
  "ActiveInvites c = (if rl_ActiveInvitesPerGuild c \<le> 0 then 100 else rl_ActiveInvitesPerGuild c)"

definition Overwrites :: "ResourceLimitsConfig \<Rightarrow> int" where
  "Overwrites c = (if rl_OverwritesPerChannel c \<le> 0 then 100 else rl_OverwritesPerChannel c)"

record IdempotencyConfig =
  ic_KeyMaxLength :: int
  ic_CreateGuildTTLSeconds :: int
  ic_CreateGuildRoleTTLSeconds :: int
  ic_CreateGuildChannelTTLSeconds :: int
  ic_CreateGuildInviteTTLSeconds :: int

definition KeyLength :: "IdempotencyConfig \<Rightarrow> int" where
  "KeyLength c = (if ic_KeyMaxLength c \<le> 0 then 255 else ic_KeyMaxLength c)"

text \<open>Durations in milliseconds: the handlers only use \<^verbatim>\<open>TTL().Milliseconds()\<close>.\<close>

definition idempotencyTTL :: "int \<Rightarrow> int64 \<Rightarrow> int64" where
  "idempotencyTTL seconds fallback = (if seconds \<le> 0 then fallback else seconds * 1000)"

definition CreateGuildTTL :: "IdempotencyConfig \<Rightarrow> int64" where
  "CreateGuildTTL c = idempotencyTTL (ic_CreateGuildTTLSeconds c) 86400000"

definition CreateGuildRoleTTL :: "IdempotencyConfig \<Rightarrow> int64" where
  "CreateGuildRoleTTL c = idempotencyTTL (ic_CreateGuildRoleTTLSeconds c) 86400000"

definition CreateGuildChannelTTL :: "IdempotencyConfig \<Rightarrow> int64" where
  "CreateGuildChannelTTL c = idempotencyTTL (ic_CreateGuildChannelTTLSeconds c) 86400000"

definition CreateGuildInviteTTL :: "IdempotencyConfig \<Rightarrow> int64" where
  "CreateGuildInviteTTL c = idempotencyTTL (ic_CreateGuildInviteTTLSeconds c) 86400000"

definition Shards :: "int \<Rightarrow> int" where
  "Shards shardCount = (if shardCount \<le> 0 then 64 else shardCount)"

definition EventTopic :: "gostring \<Rightarrow> gostring" where
  "EventTopic topic = (if topic = [] then str ''cordis.guild.events.v1'' else topic)"

text \<open>The values hashed into an idempotency fingerprint (\<^verbatim>\<open>server/idempotency.go\<close>, version 1).\<close>

datatype fingerprint =
    GuildFingerprint gostring
  | RoleFingerprint int64 gostring perms
  | ChannelFingerprint int64 gostring int32 gostring int64
  | InviteFingerprint int64 int32 int64

text \<open>The messages of \<^verbatim>\<open>media/v1/media.proto\<close> the icon handlers exchange.\<close>

record Asset =
  as_ID :: int64
  as_Kind :: int32
  as_CreatedByUserID :: int64
  as_SubjectID :: int64

abbreviation (input) ASSET_KIND_GUILD_ICON :: int32 where "ASSET_KIND_GUILD_ICON \<equiv> 2"

record CreateUploadRequest =
  cu_ActorUserID :: int64
  cu_ExpectedSize :: int64
  cu_ContentType :: gostring
  cu_GuildIconGuildID :: int64
  cu_IdempotencyKey :: "gostring option"

record CreateUploadResponse =
  cr_UploadID :: int64
  cr_PresignedURL :: gostring
  cr_ExpiresAt :: int64
  cr_RequestHeaders :: "(gostring \<times> gostring) list"
  cr_Status :: int32
  cr_IdempotentReplay :: bool

text \<open>
  What a handler takes from outside the database in one call: clock readings (its own, the store's
  and the outbox writer's), the \<open>n\<close>-th identifier it draws from the snowflake generator, the random
  numbers behind an invite code by attempt and place, the digest of a fingerprint, \<^verbatim>\<open>strings.ToLower\<close>, the trace context,
  the answers of the user and media services (a missing response message is \<open>None\<close>), and the order
  in which Go iterates over a map built from the given entries.
\<close>

record guild_env =
  e_now :: int64
  e_store_now :: int64
  e_outbox_now :: int64
  e_gen :: "nat \<Rightarrow> int64"
  e_rand :: "nat \<Rightarrow> nat \<Rightarrow> nat"
  e_digest :: "fingerprint \<Rightarrow> gostring"
  e_to_lower :: "gostring \<Rightarrow> gostring"
  e_trace :: gostring
  e_GetUser :: "int64 \<Rightarrow> guild_error + int64"
  e_BatchGetUserProfiles :: "int64 list \<Rightarrow> guild_error + UserProfile option list option"
  e_GetAsset :: "int64 \<Rightarrow> guild_error + Asset"
  e_CreateUpload :: "CreateUploadRequest \<Rightarrow> guild_error + CreateUploadResponse"
  e_CompleteUpload :: "int64 \<Rightarrow> int64 \<Rightarrow> guild_error + int64"
  e_AbortUpload :: "int64 \<Rightarrow> int64 \<Rightarrow> guild_error + unit"
  e_iter :: "(int64 \<times> int32) list \<Rightarrow> (int64 \<times> int32) list"
  e_Limits :: ResourceLimitsConfig
  e_Idempotency :: IdempotencyConfig
  e_Topic :: gostring
  e_ShardCount :: int

end
