(* ===== verification/Guild_Store.thy ===== *)
theory Guild_Store
  imports Guild_Model
begin

text \<open>
  The guild service's SQL store (\<^verbatim>\<open>internal/store\<close>, statements from
  \<^verbatim>\<open>internal/store/queries\<close>, constraints and triggers from the migrations). Every operation is a
  transaction on the database; statements run one after another, so a transaction sees its own
  writes. Each operation has a rule in \<open>store_simps\<close> that says when it succeeds and what it leaves.
\<close>

named_theorems store_simps \<open>success of the store operations, decomposed\<close>

section \<open>Constraints\<close>

definition guild_row_ok :: "Guild \<Rightarrow> bool" where
  "guild_row_ok g \<longleftrightarrow> 0 < g_ID g \<and> 0 < g_OwnerID g \<and> 1 \<le> length (g_Name g) \<and> length (g_Name g) \<le> 100
     \<and> 0 \<le> g_IconAssetID g \<and> 0 < g_Revision g \<and> 0 < g_CreatedAt g \<and> 0 \<le> g_UpdatedAt g \<and> 0 \<le> g_DeletedAt g
     \<and> 0 < g_AccessRevision g \<and> length (g_Description g) \<le> 1024 \<and> 0 < g_ChannelLayoutRevision g"

definition member_row_ok :: "GuildMember \<Rightarrow> bool" where
  "member_row_ok m \<longleftrightarrow> 0 < m_GuildID m \<and> 0 < m_UserID m \<and> 0 < m_Revision m \<and> 0 < m_JoinedAt m
     \<and> 0 \<le> m_UpdatedAt m \<and> 0 \<le> m_DeletedAt m"

text \<open>\<^verbatim>\<open>permissions BIGINT CHECK (permissions >= 0)\<close> stores \<^verbatim>\<open>int64(permissions)\<close>.\<close>

definition role_row_ok :: "Role \<Rightarrow> bool" where
  "role_row_ok r \<longleftrightarrow> 0 < r_ID r \<and> 0 < r_GuildID r \<and> 1 \<le> length (r_Name r) \<and> length (r_Name r) \<le> 100
     \<and> 0 \<le> sint (r_Permissions r) \<and> 0 \<le> r_Position r \<and> 0 < r_Revision r \<and> 0 < r_CreatedAt r
     \<and> 0 \<le> r_UpdatedAt r \<and> 0 \<le> r_DeletedAt r"

definition member_role_row_ok :: "GuildMemberRole \<Rightarrow> bool" where
  "member_role_row_ok x \<longleftrightarrow> 0 < mr_GuildID x \<and> 0 < mr_UserID x \<and> 0 < mr_RoleID x \<and> 0 < mr_CreatedAt x"

definition channel_row_ok :: "Channel \<Rightarrow> bool" where
  "channel_row_ok c \<longleftrightarrow> 0 < c_ID c \<and> 0 < c_GuildID c \<and> 1 \<le> length (c_Name c) \<and> length (c_Name c) \<le> 100
     \<and> c_Type c \<in> {1, 2, 3} \<and> 0 \<le> c_Position c \<and> length (c_Topic c) \<le> 1024 \<and> 0 < c_Revision c
     \<and> 0 < c_CreatedAt c \<and> 0 \<le> c_UpdatedAt c \<and> 0 \<le> c_DeletedAt c \<and> 0 \<le> c_ParentID c"

definition overwrite_row_ok :: "ChannelPermissionOverwrite \<Rightarrow> bool" where
  "overwrite_row_ok x \<longleftrightarrow> 0 < o_ChannelID x \<and> 0 < o_GuildID x \<and> o_AppliesTo x \<in> {1, 2} \<and> 0 < o_AppliesToID x
     \<and> 0 \<le> sint (o_Allow x) \<and> 0 \<le> sint (o_Deny x) \<and> 0 < o_Revision x \<and> 0 < o_CreatedAt x
     \<and> 0 \<le> o_UpdatedAt x \<and> o_Allow x AND o_Deny x = 0"

definition ban_row_ok :: "GuildBan \<Rightarrow> bool" where
  "ban_row_ok b \<longleftrightarrow> 0 < b_GuildID b \<and> 0 < b_UserID b \<and> 0 < b_ActorUserID b \<and> length (b_Reason b) \<le> 512
     \<and> 0 < b_CreatedAt b"

definition invite_row_ok :: "GuildInvite \<Rightarrow> bool" where
  "invite_row_ok i \<longleftrightarrow> 0 < i_ID i \<and> 1 \<le> length (i_Code i) \<and> length (i_Code i) \<le> 32 \<and> 0 < i_GuildID i
     \<and> 0 < i_CreatorUserID i \<and> 0 \<le> i_MaxUses i \<and> 0 \<le> i_Uses i \<and> 0 \<le> i_ExpiresAt i \<and> 0 < i_CreatedAt i
     \<and> (i_MaxUses i = 0 \<or> i_Uses i \<le> i_MaxUses i)"

definition idempotency_row_ok :: "guildIdempotencyRow \<Rightarrow> bool" where
  "idempotency_row_ok k \<longleftrightarrow> 0 < ik_ActorUserID k \<and> ik_Operation k \<noteq> [] \<and> ik_Key k \<noteq> []
     \<and> length (ik_RequestHash k) = 32 \<and> 0 < ik_ResourceID k \<and> 0 < ik_CreatedAt k \<and> ik_CreatedAt k < ik_ExpiresAt k"

definition profile_row_ok :: "GuildMemberProfile \<Rightarrow> bool" where
  "profile_row_ok p \<longleftrightarrow> 0 < p_GuildID p \<and> 0 < p_UserID p \<and> 0 \<le> p_AvatarAssetID p \<and> 0 \<le> p_ProfileUpdatedAt p"

section \<open>Statement forms\<close>

text \<open>
  Inserting one row: check constraints come before unique keys (\<open>ks\<close> says whether the new row
  collides). Updating: every changed row is checked. \<open>update_one\<close> is an update by primary key
  whose \<^verbatim>\<open>RETURNING\<close> row is scanned by \<^verbatim>\<open>scanOne\<close>.
\<close>

definition insert_row :: "('r \<Rightarrow> bool) \<Rightarrow> ('r \<Rightarrow> 'r \<Rightarrow> bool) \<Rightarrow> 'r \<Rightarrow> 'r list \<Rightarrow> guild_error + 'r list" where
  "insert_row ok clash r t =
     (if \<not> ok r then Inl CheckViolation
      else if list_ex (clash r) t then Inl UniqueViolation
      else Inr (t @ [r]))"

definition update_rows :: "('r \<Rightarrow> bool) \<Rightarrow> ('r \<Rightarrow> bool) \<Rightarrow> ('r \<Rightarrow> 'r) \<Rightarrow> 'r list \<Rightarrow> guild_error + 'r list" where
  "update_rows ok p f t =
     (if list_all (\<lambda>r. p r \<longrightarrow> ok (f r)) t then Inr (tbl_update p f t) else Inl CheckViolation)"

definition update_one :: "('r \<Rightarrow> bool) \<Rightarrow> ('r \<Rightarrow> bool) \<Rightarrow> ('r \<Rightarrow> 'r) \<Rightarrow> 'r list \<Rightarrow> guild_error + ('r \<times> 'r list)" where
  "update_one ok p f t =
     (case update_rows ok p f t of
        Inl e \<Rightarrow> Inl e
      | Inr t' \<Rightarrow> (case List.find p t of None \<Rightarrow> Inl ErrNoRows | Some r \<Rightarrow> Inr (f r, t')))"

definition select_one :: "('r \<Rightarrow> bool) \<Rightarrow> 'r list \<Rightarrow> guild_error + 'r" where
  "select_one p t = (case List.find p t of None \<Rightarrow> Inl ErrNoRows | Some r \<Rightarrow> Inr r)"

lemma insert_row_Inr [store_simps]:
  "insert_row ok clash r t = Inr t' \<longleftrightarrow> ok r \<and> (\<forall>q\<in>set t. \<not> clash r q) \<and> t' = t @ [r]"
  by (auto simp: insert_row_def list_ex_iff)

lemma update_rows_Inr [store_simps]:
  "update_rows ok p f t = Inr t' \<longleftrightarrow> (\<forall>r\<in>set t. p r \<longrightarrow> ok (f r)) \<and> t' = tbl_update p f t"
  by (auto simp: update_rows_def list_all_iff)

lemma update_one_Inr [store_simps]:
  "update_one ok p f t = Inr (q, t') \<longleftrightarrow>
     (\<forall>r\<in>set t. p r \<longrightarrow> ok (f r)) \<and> (\<exists>r. List.find p t = Some r \<and> q = f r) \<and> t' = tbl_update p f t"
  by (auto simp: update_one_def update_rows_def list_all_iff split: option.splits)

lemma select_one_Inr [store_simps]: "select_one p t = Inr r \<longleftrightarrow> List.find p t = Some r"
  by (auto simp: select_one_def split: option.splits)

section \<open>Access revision triggers\<close>

text \<open>
  Migration 000007: row triggers raise \<^verbatim>\<open>guilds.access_revision\<close> by one for every inserted,
  deleted or (for the columns named there) updated row of the tables that decide access.
  \<open>gids\<close> lists the guild of every affected row.
\<close>

definition bump_guild_access_revision :: "int64 list \<Rightarrow> guild_db \<Rightarrow> guild_db" where
  "bump_guild_access_revision gids s =
     s\<lparr>db_guilds := map (\<lambda>g. g\<lparr>g_AccessRevision := g_AccessRevision g + int (count_list gids (g_ID g))\<rparr>) (db_guilds s)\<rparr>"

text \<open>\<^verbatim>\<open>guild_owner_access_revision\<close>: an update of a guild that changes its owner or deletion time.\<close>

definition bump_owned_guild_access_revision :: "Guild \<Rightarrow> Guild \<Rightarrow> guild_db \<Rightarrow> guild_db" where
  "bump_owned_guild_access_revision old new s =
     (if g_OwnerID old \<noteq> g_OwnerID new \<or> g_DeletedAt old \<noteq> g_DeletedAt new
      then bump_guild_access_revision [g_ID new] s else s)"

section \<open>Guilds\<close>

abbreviation live_guild :: "int64 \<Rightarrow> Guild \<Rightarrow> bool" where
  "live_guild guildID g \<equiv> g_ID g = guildID \<and> g_DeletedAt g = 0"

abbreviation active_member :: "int64 \<Rightarrow> int64 \<Rightarrow> GuildMember \<Rightarrow> bool" where
  "active_member guildID userID m \<equiv> m_GuildID m = guildID \<and> m_UserID m = userID \<and> m_DeletedAt m = 0"

definition store_CreateGuild :: "int64 \<Rightarrow> int64 \<Rightarrow> gostring \<Rightarrow> int64 \<Rightarrow> Guild gtx" where
  "store_CreateGuild guildID ownerID name createdAt = (\<lambda>s.
     let g = \<lparr>g_ID = guildID, g_OwnerID = ownerID, g_Name = name, g_Description = [], g_IconAssetID = 0,
              g_Revision = 1, g_AccessRevision = 1, g_ChannelLayoutRevision = 1, g_CreatedAt = createdAt,
              g_UpdatedAt = 0, g_DeletedAt = 0\<rparr>
     in case insert_row guild_row_ok (\<lambda>r q. g_ID r = g_ID q) g (db_guilds s) of
          Inl e \<Rightarrow> Inl e
        | Inr t \<Rightarrow> Inr (g, s\<lparr>db_guilds := t\<rparr>))"

definition GetGuildForMember :: "int64 \<Rightarrow> int64 \<Rightarrow> Guild gtx" where
  "GetGuildForMember guildID userID = tx_query (\<lambda>s.
     select_one (\<lambda>g. live_guild guildID g \<and> list_ex (active_member (g_ID g) userID) (db_members s)) (db_guilds s))"

definition store_GetGuild :: "int64 \<Rightarrow> Guild gtx" where
  "store_GetGuild guildID = tx_query (\<lambda>s. select_one (live_guild guildID) (db_guilds s))"

definition store_ListUserGuilds :: "int64 \<Rightarrow> int64 \<Rightarrow> int \<Rightarrow> Guild list gtx" where
  "store_ListUserGuilds userID before limit = tx_read (\<lambda>s.
     take (nat limit) (sort_key (\<lambda>g. - g_ID g)
       (filter (\<lambda>g. g_DeletedAt g = 0 \<and> (before = 0 \<or> g_ID g < before)
          \<and> list_ex (active_member (g_ID g) userID) (db_members s)) (db_guilds s))))"

text \<open>An update of one live guild; \<^verbatim>\<open>RETURNING\<close> shows the row before the owner trigger runs.\<close>

definition update_guild :: "(Guild \<Rightarrow> bool) \<Rightarrow> (Guild \<Rightarrow> Guild) \<Rightarrow> Guild gtx" where
  "update_guild p f = (\<lambda>s.
     case List.find p (db_guilds s) of
       None \<Rightarrow> Inl ErrNoRows
     | Some g \<Rightarrow>
         (case update_one guild_row_ok p f (db_guilds s) of
            Inl e \<Rightarrow> Inl e
          | Inr (g', t) \<Rightarrow> Inr (g', bump_owned_guild_access_revision g g' (s\<lparr>db_guilds := t\<rparr>))))"

definition store_UpdateGuild ::
  "guild_env \<Rightarrow> int64 \<Rightarrow> gostring option \<Rightarrow> gostring option \<Rightarrow> Guild gtx" where
  "store_UpdateGuild env guildID name description = update_guild (live_guild guildID)
     (\<lambda>g. g\<lparr>g_Name := (case name of Some n \<Rightarrow> n | None \<Rightarrow> g_Name g),
            g_Description := (case description of Some d \<Rightarrow> d | None \<Rightarrow> g_Description g),
            g_Revision := g_Revision g + 1, g_UpdatedAt := e_store_now env\<rparr>)"

definition UpdateGuildIcon :: "guild_env \<Rightarrow> int64 \<Rightarrow> int64 \<Rightarrow> Guild gtx" where
  "UpdateGuildIcon env guildID assetID = update_guild (live_guild guildID)
     (\<lambda>g. g\<lparr>g_IconAssetID := assetID, g_Revision := g_Revision g + 1, g_UpdatedAt := e_store_now env\<rparr>)"

definition store_DeleteGuild :: "int64 \<Rightarrow> int64 \<Rightarrow> Guild gtx" where
  "store_DeleteGuild guildID deletedAt = update_guild (live_guild guildID)
     (\<lambda>g. g\<lparr>g_Revision := g_Revision g + 1, g_UpdatedAt := deletedAt, g_DeletedAt := deletedAt\<rparr>)"

definition store_TransferGuildOwnership :: "guild_env \<Rightarrow> int64 \<Rightarrow> int64 \<Rightarrow> int64 \<Rightarrow> Guild gtx" where
  "store_TransferGuildOwnership env guildID currentOwnerID newOwnerID =
     update_guild (\<lambda>g. g_ID g = guildID \<and> g_OwnerID g = currentOwnerID \<and> g_DeletedAt g = 0)
       (\<lambda>g. g\<lparr>g_OwnerID := newOwnerID, g_Revision := g_Revision g + 1, g_UpdatedAt := e_store_now env\<rparr>)"

definition GetGuildChannelLayoutRevision :: "int64 \<Rightarrow> int64 gtx" where
  "GetGuildChannelLayoutRevision guildID =
     tx_bind (store_GetGuild guildID) (\<lambda>g. tx_return (g_ChannelLayoutRevision g))"

definition AdvanceGuildChannelLayoutRevision :: "int64 \<Rightarrow> int64 \<Rightarrow> int64 gtx" where
  "AdvanceGuildChannelLayoutRevision guildID expectedRevision =
     tx_bind
       (tx_map_error (\<lambda>e. if e = ErrNoRows then ErrGuildChannelLayoutRevisionConflict else e)
         (update_guild (\<lambda>g. live_guild guildID g \<and> g_ChannelLayoutRevision g = expectedRevision)
           (\<lambda>g. g\<lparr>g_ChannelLayoutRevision := g_ChannelLayoutRevision g + 1\<rparr>)))
       (\<lambda>g. tx_return (g_ChannelLayoutRevision g))"

definition CountGuildMembers :: "int64 \<Rightarrow> int64 gtx" where
  "CountGuildMembers guildID = tx_read (\<lambda>s.
     int (length (filter (\<lambda>m. m_GuildID m = guildID \<and> m_DeletedAt m = 0) (db_members s))))"

section \<open>Members\<close>

definition CreateGuildMember :: "int64 \<Rightarrow> int64 \<Rightarrow> int64 \<Rightarrow> GuildMember gtx" where
  "CreateGuildMember guildID userID joinedAt = (\<lambda>s.
     let new = \<lparr>m_GuildID = guildID, m_UserID = userID, m_Nickname = [], m_Revision = 1,
                m_JoinedAt = joinedAt, m_UpdatedAt = 0, m_DeletedAt = 0\<rparr>;
         key = (\<lambda>m. m_GuildID m = guildID \<and> m_UserID m = userID);
         rejoin = (\<lambda>m. m\<lparr>m_Nickname := [], m_Revision := m_Revision m + 1, m_JoinedAt := joinedAt,
                         m_UpdatedAt := joinedAt, m_DeletedAt := 0\<rparr>)
     in if list_ex (\<lambda>b. b_GuildID b = guildID \<and> b_UserID b = userID) (db_bans s) then Inl ErrMemberAlreadyExists
        else if \<not> member_row_ok new then Inl CheckViolation
        else case List.find key (db_members s) of
          None \<Rightarrow> Inr (new, bump_guild_access_revision [guildID] (s\<lparr>db_members := db_members s @ [new]\<rparr>))
        | Some m \<Rightarrow>
            if m_DeletedAt m = 0 then Inl ErrMemberAlreadyExists
            else case update_one member_row_ok key rejoin (db_members s) of
                   Inl e \<Rightarrow> Inl e
                 | Inr (m', t) \<Rightarrow> Inr (m', bump_guild_access_revision [guildID] (s\<lparr>db_members := t\<rparr>)))"

definition store_GetGuildMember :: "int64 \<Rightarrow> int64 \<Rightarrow> GuildMember gtx" where
  "store_GetGuildMember guildID userID = tx_query (\<lambda>s. select_one (active_member guildID userID) (db_members s))"

definition store_ListGuildMembers :: "int64 \<Rightarrow> int64 \<Rightarrow> int64 \<Rightarrow> int \<Rightarrow> GuildMember list gtx" where
  "store_ListGuildMembers guildID beforeJoinedAt beforeUserID limit = tx_read (\<lambda>s.
     take (nat limit) (sort_key (\<lambda>m. (- m_JoinedAt m, - m_UserID m))
       (filter (\<lambda>m. m_GuildID m = guildID \<and> m_DeletedAt m = 0
          \<and> (beforeJoinedAt = 0 \<or> m_JoinedAt m < beforeJoinedAt
              \<or> m_JoinedAt m = beforeJoinedAt \<and> m_UserID m < beforeUserID)) (db_members s))))"

definition ListGuildMemberIDsPage :: "int64 \<Rightarrow> int64 \<Rightarrow> int \<Rightarrow> int64 list gtx" where
  "ListGuildMemberIDsPage guildID afterUserID limit = tx_read (\<lambda>s.
     take (nat limit) (sort (map m_UserID
       (filter (\<lambda>m. m_GuildID m = guildID \<and> m_DeletedAt m = 0 \<and> afterUserID < m_UserID m) (db_members s)))))"

definition ListGuildRoleTargetIDsPage :: "int64 \<Rightarrow> int64 list \<Rightarrow> int64 \<Rightarrow> int \<Rightarrow> int64 list gtx" where
  "ListGuildRoleTargetIDsPage guildID roleIDs afterUserID limit = tx_read (\<lambda>s.
     take (nat limit) (sort (remdups (map mr_UserID
       (filter (\<lambda>x. mr_GuildID x = guildID \<and> mr_RoleID x \<in> set roleIDs \<and> afterUserID < mr_UserID x
          \<and> list_ex (active_member (mr_GuildID x) (mr_UserID x)) (db_members s)) (db_member_roles s))))))"

definition ListUsersWithCommonGuild :: "int64 \<Rightarrow> int64 list \<Rightarrow> int64 list gtx" where
  "ListUsersWithCommonGuild userID targetUserIDs = tx_read (\<lambda>s.
     sort (remdups (map m_UserID
       (filter (\<lambda>t. m_DeletedAt t = 0 \<and> m_UserID t \<in> set targetUserIDs
          \<and> list_ex (active_member (m_GuildID t) userID) (db_members s)) (db_members s)))))"

definition store_ListGuildRoleMembers :: "int64 \<Rightarrow> int64 \<Rightarrow> int64 \<Rightarrow> int64 \<Rightarrow> int \<Rightarrow> GuildMember list gtx" where
  "store_ListGuildRoleMembers guildID roleID beforeJoinedAt beforeUserID limit = tx_read (\<lambda>s.
     take (nat limit) (sort_key (\<lambda>m. (- m_JoinedAt m, - m_UserID m))
       (filter (\<lambda>m. m_GuildID m = guildID \<and> m_DeletedAt m = 0
          \<and> (beforeJoinedAt = 0 \<or> m_JoinedAt m < beforeJoinedAt
              \<or> m_JoinedAt m = beforeJoinedAt \<and> m_UserID m < beforeUserID)
          \<and> list_ex (\<lambda>r. r_GuildID r = m_GuildID m \<and> r_ID r = roleID \<and> r_DeletedAt r = 0
               \<and> (r_IsDefault r \<or> list_ex (\<lambda>x. mr_GuildID x = m_GuildID m \<and> mr_UserID x = m_UserID m
                    \<and> mr_RoleID x = r_ID r) (db_member_roles s))) (db_roles s)) (db_members s))))"

definition UpdateGuildMemberNickname :: "guild_env \<Rightarrow> int64 \<Rightarrow> int64 \<Rightarrow> gostring \<Rightarrow> GuildMember gtx" where
  "UpdateGuildMemberNickname env guildID userID nickname = (\<lambda>s.
     case update_one member_row_ok (active_member guildID userID)
            (\<lambda>m. m\<lparr>m_Nickname := nickname, m_Revision := m_Revision m + 1, m_UpdatedAt := e_store_now env\<rparr>)
            (db_members s) of
       Inl e \<Rightarrow> Inl e
     | Inr (m, t) \<Rightarrow> Inr (m, s\<lparr>db_members := t\<rparr>))"

definition RemoveGuildMember :: "int64 \<Rightarrow> int64 \<Rightarrow> int64 \<Rightarrow> GuildMember gtx" where
  "RemoveGuildMember guildID userID removedAt = (\<lambda>s.
     case update_one member_row_ok (active_member guildID userID)
            (\<lambda>m. m\<lparr>m_Revision := m_Revision m + 1, m_UpdatedAt := removedAt, m_DeletedAt := removedAt\<rparr>)
            (db_members s) of
       Inl e \<Rightarrow> Inl e
     | Inr (m, t) \<Rightarrow> Inr (m, bump_guild_access_revision [guildID] (s\<lparr>db_members := t\<rparr>)))"

definition DeleteGuildMembers :: "int64 \<Rightarrow> int64 \<Rightarrow> unit gtx" where
  "DeleteGuildMembers guildID deletedAt = (\<lambda>s.
     let p = (\<lambda>m. m_GuildID m = guildID \<and> m_DeletedAt m = 0) in
     case update_rows member_row_ok p
            (\<lambda>m. m\<lparr>m_Revision := m_Revision m + 1, m_UpdatedAt := deletedAt, m_DeletedAt := deletedAt\<rparr>)
            (db_members s) of
       Inl e \<Rightarrow> Inl e
     | Inr t \<Rightarrow> Inr ((), bump_guild_access_revision (map m_GuildID (filter p (db_members s))) (s\<lparr>db_members := t\<rparr>)))"

section \<open>Bans\<close>

abbreviation ban_of :: "int64 \<Rightarrow> int64 \<Rightarrow> GuildBan \<Rightarrow> bool" where
  "ban_of guildID userID b \<equiv> b_GuildID b = guildID \<and> b_UserID b = userID"

definition UpsertGuildBan :: "GuildBan \<Rightarrow> GuildBan gtx" where
  "UpsertGuildBan ban = (\<lambda>s.
     let key = ban_of (b_GuildID ban) (b_UserID ban) in
     if \<not> ban_row_ok ban then Inl CheckViolation
     else if list_ex key (db_bans s)
     then case update_one ban_row_ok key
                 (\<lambda>b. b\<lparr>b_ActorUserID := b_ActorUserID ban, b_Reason := b_Reason ban, b_CreatedAt := b_CreatedAt ban\<rparr>)
                 (db_bans s) of
            Inl e \<Rightarrow> Inl e
          | Inr (b, t) \<Rightarrow> Inr (b, s\<lparr>db_bans := t\<rparr>)
     else Inr (ban, s\<lparr>db_bans := db_bans s @ [ban]\<rparr>))"

definition DeleteGuildBan :: "int64 \<Rightarrow> int64 \<Rightarrow> unit gtx" where
  "DeleteGuildBan guildID userID = (\<lambda>s.
     if \<not> list_ex (ban_of guildID userID) (db_bans s) then Inl ErrNoRows
     else Inr ((), s\<lparr>db_bans := tbl_delete (ban_of guildID userID) (db_bans s)\<rparr>))"

definition GetGuildBan :: "int64 \<Rightarrow> int64 \<Rightarrow> GuildBan gtx" where
  "GetGuildBan guildID userID = tx_query (\<lambda>s. select_one (ban_of guildID userID) (db_bans s))"

definition store_ListGuildBans :: "int64 \<Rightarrow> int64 \<Rightarrow> int64 \<Rightarrow> int \<Rightarrow> GuildBan list gtx" where
  "store_ListGuildBans guildID beforeCreatedAt beforeUserID limit = tx_read (\<lambda>s.
     take (nat limit) (sort_key (\<lambda>b. (- b_CreatedAt b, - b_UserID b))
       (filter (\<lambda>b. b_GuildID b = guildID
          \<and> (beforeCreatedAt = 0 \<or> b_CreatedAt b < beforeCreatedAt
              \<or> b_CreatedAt b = beforeCreatedAt \<and> b_UserID b < beforeUserID)) (db_bans s))))"

definition DeleteGuildBans :: "int64 \<Rightarrow> unit gtx" where
  "DeleteGuildBans guildID = tx_modify (\<lambda>s. s\<lparr>db_bans := tbl_delete (\<lambda>b. b_GuildID b = guildID) (db_bans s)\<rparr>)"

section \<open>Roles\<close>

abbreviation live_role :: "int64 \<Rightarrow> int64 \<Rightarrow> Role \<Rightarrow> bool" where
  "live_role guildID roleID r \<equiv> r_GuildID r = guildID \<and> r_ID r = roleID \<and> r_DeletedAt r = 0"

text \<open>
  The unique keys of \<^verbatim>\<open>roles\<close>: the primary key, and one live default role per guild.
\<close>

definition role_clash :: "Role \<Rightarrow> Role \<Rightarrow> bool" where
  "role_clash r q \<longleftrightarrow> r_ID r = r_ID q
     \<or> r_IsDefault r \<and> r_DeletedAt r = 0 \<and> r_IsDefault q \<and> r_DeletedAt q = 0 \<and> r_GuildID r = r_GuildID q"

definition insert_role :: "Role \<Rightarrow> Role gtx" where
  "insert_role r = (\<lambda>s.
     case insert_row role_row_ok role_clash r (db_roles s) of
       Inl e \<Rightarrow> Inl e
     | Inr t \<Rightarrow> Inr (r, bump_guild_access_revision [r_GuildID r] (s\<lparr>db_roles := t\<rparr>)))"

definition CreateDefaultRole :: "int64 \<Rightarrow> int64 \<Rightarrow> unit gtx" where
  "CreateDefaultRole guildID createdAt =
     tx_then (insert_role \<lparr>r_ID = guildID, r_GuildID = guildID, r_Name = str ''@everyone'', r_Permissions = 1120,
         r_Position = 0, r_IsDefault = True, r_Revision = 1, r_CreatedAt = createdAt, r_UpdatedAt = 0, r_DeletedAt = 0\<rparr>)
       (tx_return ())"

definition store_CreateGuildRole ::
  "int64 \<Rightarrow> int64 \<Rightarrow> gostring \<Rightarrow> perms \<Rightarrow> int32 \<Rightarrow> int64 \<Rightarrow> Role gtx" where
  "store_CreateGuildRole roleID guildID name permissions position createdAt =
     insert_role \<lparr>r_ID = roleID, r_GuildID = guildID, r_Name = name, r_Permissions = permissions,
       r_Position = position, r_IsDefault = False, r_Revision = 1, r_CreatedAt = createdAt, r_UpdatedAt = 0, r_DeletedAt = 0\<rparr>"

definition store_GetGuildRole :: "int64 \<Rightarrow> int64 \<Rightarrow> Role gtx" where
  "store_GetGuildRole guildID roleID = tx_query (\<lambda>s. select_one (live_role guildID roleID) (db_roles s))"

definition store_ListGuildRoles :: "int64 \<Rightarrow> Role list gtx" where
  "store_ListGuildRoles guildID = tx_read (\<lambda>s.
     sort_key (\<lambda>r. (- r_Position r, r_ID r))
       (filter (\<lambda>r. r_GuildID r = guildID \<and> r_DeletedAt r = 0) (db_roles s)))"

definition ListGuildRolesByGuilds :: "int64 list \<Rightarrow> Role list gtx" where
  "ListGuildRolesByGuilds guildIDs = tx_read (\<lambda>s.
     sort_key (\<lambda>r. (r_GuildID r, - r_Position r, r_ID r))
       (filter (\<lambda>r. r_GuildID r \<in> set guildIDs \<and> r_DeletedAt r = 0) (db_roles s)))"

text \<open>\<^verbatim>\<open>UPDATE OF permissions\<close> is in the statement whether or not the value is replaced.\<close>

definition store_UpdateGuildRole ::
  "int64 \<Rightarrow> int64 \<Rightarrow> gostring option \<Rightarrow> perms option \<Rightarrow> int64 \<Rightarrow> Role gtx" where
  "store_UpdateGuildRole guildID roleID name permissions updatedAt = (\<lambda>s.
     case update_one role_row_ok (live_role guildID roleID)
            (\<lambda>r. r\<lparr>r_Name := (case name of Some n \<Rightarrow> n | None \<Rightarrow> r_Name r),
                  r_Permissions := (case permissions of Some p \<Rightarrow> p | None \<Rightarrow> r_Permissions r),
                  r_Revision := r_Revision r + 1, r_UpdatedAt := updatedAt\<rparr>) (db_roles s) of
       Inl e \<Rightarrow> Inl e
     | Inr (r, t) \<Rightarrow> Inr (r, bump_guild_access_revision [guildID] (s\<lparr>db_roles := t\<rparr>)))"

text \<open>
  \<^verbatim>\<open>UPDATE ... FROM unnest(...)\<close>. \<^verbatim>\<open>RETURNING\<close> without an order yields the rows in table order
  here; the position is not a column of the access trigger.
\<close>

definition UpdateGuildRolePositions :: "int64 \<Rightarrow> int64 list \<Rightarrow> int32 list \<Rightarrow> int64 \<Rightarrow> Role list gtx" where
  "UpdateGuildRolePositions guildID roleIDs positions updatedAt =
     (if roleIDs = [] \<or> length roleIDs \<noteq> length positions then tx_return []
      else (\<lambda>s.
        let requested = map_of (zip roleIDs positions);
            p = (\<lambda>r. r_GuildID r = guildID \<and> requested (r_ID r) \<noteq> None \<and> \<not> r_IsDefault r \<and> r_DeletedAt r = 0);
            f = (\<lambda>r. r\<lparr>r_Position := the (requested (r_ID r)), r_Revision := r_Revision r + 1, r_UpdatedAt := updatedAt\<rparr>)
        in case update_rows role_row_ok p f (db_roles s) of
             Inl e \<Rightarrow> Inl e
           | Inr t \<Rightarrow> Inr (tbl_returning p f (db_roles s), s\<lparr>db_roles := t\<rparr>)))"

definition store_DeleteGuildRole :: "int64 \<Rightarrow> int64 \<Rightarrow> int64 \<Rightarrow> Role gtx" where
  "store_DeleteGuildRole guildID roleID deletedAt = (\<lambda>s.
     case update_one role_row_ok (\<lambda>r. live_role guildID roleID r \<and> \<not> r_IsDefault r)
            (\<lambda>r. r\<lparr>r_Revision := r_Revision r + 1, r_UpdatedAt := deletedAt, r_DeletedAt := deletedAt\<rparr>) (db_roles s) of
       Inl e \<Rightarrow> Inl e
     | Inr (r, t) \<Rightarrow> Inr (r, bump_guild_access_revision [guildID] (s\<lparr>db_roles := t\<rparr>)))"

definition DeleteGuildRoles :: "int64 \<Rightarrow> int64 \<Rightarrow> unit gtx" where
  "DeleteGuildRoles guildID deletedAt = (\<lambda>s.
     let p = (\<lambda>r. r_GuildID r = guildID \<and> r_DeletedAt r = 0) in
     case update_rows role_row_ok p
            (\<lambda>r. r\<lparr>r_Revision := r_Revision r + 1, r_UpdatedAt := deletedAt, r_DeletedAt := deletedAt\<rparr>) (db_roles s) of
       Inl e \<Rightarrow> Inl e
     | Inr t \<Rightarrow> Inr ((), bump_guild_access_revision (map r_GuildID (filter p (db_roles s))) (s\<lparr>db_roles := t\<rparr>)))"

section \<open>Role assignments\<close>

definition store_AddGuildMemberRole :: "int64 \<Rightarrow> int64 \<Rightarrow> int64 \<Rightarrow> int64 \<Rightarrow> unit gtx" where
  "store_AddGuildMemberRole guildID userID roleID createdAt = (\<lambda>s.
     let new = \<lparr>mr_GuildID = guildID, mr_UserID = userID, mr_RoleID = roleID, mr_CreatedAt = createdAt\<rparr> in
     if \<not> member_role_row_ok new then Inl CheckViolation
     else if list_ex (\<lambda>x. mr_GuildID x = guildID \<and> mr_UserID x = userID \<and> mr_RoleID x = roleID) (db_member_roles s)
     then Inr ((), s)
     else Inr ((), bump_guild_access_revision [guildID] (s\<lparr>db_member_roles := db_member_roles s @ [new]\<rparr>)))"

text \<open>The four deletions differ in their condition only; the trigger counts the deleted rows.\<close>

definition delete_member_roles :: "(GuildMemberRole \<Rightarrow> bool) \<Rightarrow> unit gtx" where
  "delete_member_roles p = tx_modify (\<lambda>s.
     bump_guild_access_revision (map mr_GuildID (filter p (db_member_roles s)))
       (s\<lparr>db_member_roles := tbl_delete p (db_member_roles s)\<rparr>))"

definition store_RemoveGuildMemberRole :: "int64 \<Rightarrow> int64 \<Rightarrow> int64 \<Rightarrow> unit gtx" where
  "store_RemoveGuildMemberRole guildID userID roleID =
     delete_member_roles (\<lambda>x. mr_GuildID x = guildID \<and> mr_UserID x = userID \<and> mr_RoleID x = roleID)"

definition DeleteGuildMemberRoleAssignments :: "int64 \<Rightarrow> int64 \<Rightarrow> unit gtx" where
  "DeleteGuildMemberRoleAssignments guildID userID =
     delete_member_roles (\<lambda>x. mr_GuildID x = guildID \<and> mr_UserID x = userID)"

definition DeleteGuildRoleAssignments :: "int64 \<Rightarrow> int64 \<Rightarrow> unit gtx" where
  "DeleteGuildRoleAssignments guildID roleID =
     delete_member_roles (\<lambda>x. mr_GuildID x = guildID \<and> mr_RoleID x = roleID)"

definition DeleteAllGuildRoleAssignments :: "int64 \<Rightarrow> unit gtx" where
  "DeleteAllGuildRoleAssignments guildID = delete_member_roles (\<lambda>x. mr_GuildID x = guildID)"

definition member_has_role :: "GuildMemberRole list \<Rightarrow> int64 \<Rightarrow> int64 \<Rightarrow> int64 \<Rightarrow> bool" where
  "member_has_role t guildID userID roleID \<longleftrightarrow>
     list_ex (\<lambda>x. mr_GuildID x = guildID \<and> mr_UserID x = userID \<and> mr_RoleID x = roleID) t"

definition store_ListGuildMemberRoles :: "int64 \<Rightarrow> int64 \<Rightarrow> Role list gtx" where
  "store_ListGuildMemberRoles guildID userID = tx_read (\<lambda>s.
     sort_key (\<lambda>r. (- r_Position r, r_ID r))
       (filter (\<lambda>r. r_GuildID r = guildID \<and> r_DeletedAt r = 0
          \<and> (r_IsDefault r \<or> member_has_role (db_member_roles s) guildID userID (r_ID r))) (db_roles s)))"

definition ListGuildMemberRolesByGuilds :: "int64 list \<Rightarrow> int64 \<Rightarrow> Role list gtx" where
  "ListGuildMemberRolesByGuilds guildIDs userID = tx_read (\<lambda>s.
     sort_key (\<lambda>r. (r_GuildID r, - r_Position r, r_ID r))
       (filter (\<lambda>r. r_GuildID r \<in> set guildIDs \<and> r_DeletedAt r = 0
          \<and> (r_IsDefault r \<or> list_ex (\<lambda>x. mr_GuildID x \<in> set guildIDs \<and> mr_UserID x = userID \<and> mr_RoleID x = r_ID r)
               (db_member_roles s))) (db_roles s)))"

definition ListGuildMemberRolesByUsers :: "int64 \<Rightarrow> int64 list \<Rightarrow> (int64 \<Rightarrow> Role list) gtx" where
  "ListGuildMemberRolesByUsers guildID userIDs = tx_read (\<lambda>s userID.
     if userID \<notin> set userIDs then []
     else
       let assigned = map mr_RoleID (filter (\<lambda>x. mr_GuildID x = guildID \<and> mr_UserID x = userID) (db_member_roles s));
           implicit = map m_GuildID (filter (active_member guildID userID) (db_members s))
       in concat (map (\<lambda>roleID. filter (live_role guildID roleID) (db_roles s)) (assigned @ implicit)))"

section \<open>Channels\<close>

abbreviation live_channel :: "int64 \<Rightarrow> Channel \<Rightarrow> bool" where
  "live_channel channelID c \<equiv> c_ID c = channelID \<and> c_DeletedAt c = 0"

definition store_CreateGuildChannel ::
  "int64 \<Rightarrow> int64 \<Rightarrow> gostring \<Rightarrow> int32 \<Rightarrow> int32 \<Rightarrow> gostring \<Rightarrow> int64 \<Rightarrow> int64 \<Rightarrow> Channel gtx" where
  "store_CreateGuildChannel channelID guildID name channelType position topic parentID createdAt = (\<lambda>s.
     let c = \<lparr>c_ID = channelID, c_GuildID = guildID, c_Name = name, c_Type = channelType, c_Position = position,
              c_Topic = topic, c_Revision = 1, c_CreatedAt = createdAt, c_UpdatedAt = 0, c_DeletedAt = 0,
              c_ParentID = parentID\<rparr>
     in case insert_row channel_row_ok (\<lambda>c d. c_ID c = c_ID d) c (db_channels s) of
          Inl e \<Rightarrow> Inl e
        | Inr t \<Rightarrow> Inr (c, bump_guild_access_revision [guildID] (s\<lparr>db_channels := t\<rparr>)))"

definition store_GetGuildChannel :: "int64 \<Rightarrow> Channel gtx" where
  "store_GetGuildChannel channelID = tx_query (\<lambda>s. select_one (live_channel channelID) (db_channels s))"

definition store_ListGuildChannels :: "int64 \<Rightarrow> Channel list gtx" where
  "store_ListGuildChannels guildID = tx_read (\<lambda>s.
     sort_key (\<lambda>c. (c_Position c, c_ID c))
       (filter (\<lambda>c. c_GuildID c = guildID \<and> c_DeletedAt c = 0) (db_channels s)))"

text \<open>The layout snapshot: a left join, so a guild without channels still yields its revision.\<close>

definition ListGuildChannelsWithRevision :: "int64 \<Rightarrow> (Channel list \<times> int64) gtx" where
  "ListGuildChannelsWithRevision guildID =
     tx_bind (store_GetGuild guildID) (\<lambda>g.
     tx_bind (store_ListGuildChannels guildID) (\<lambda>channels.
     tx_return (channels, g_ChannelLayoutRevision g)))"

definition ListGuildChannelsWithRevisionsByGuilds :: "int64 list \<Rightarrow> (Channel list \<times> (int64 \<rightharpoonup> int64)) gtx" where
  "ListGuildChannelsWithRevisionsByGuilds guildIDs = tx_read (\<lambda>s.
     let gs = sort_key g_ID (filter (\<lambda>g. g_ID g \<in> set guildIDs \<and> g_DeletedAt g = 0) (db_guilds s))
     in (concat (map (\<lambda>g. sort_key (\<lambda>c. (c_Position c, c_ID c))
            (filter (\<lambda>c. c_GuildID c = g_ID g \<and> c_DeletedAt c = 0) (db_channels s))) gs),
         map_of (map (\<lambda>g. (g_ID g, g_ChannelLayoutRevision g)) gs)))"

definition store_UpdateGuildChannel ::
  "int64 \<Rightarrow> gostring option \<Rightarrow> gostring option \<Rightarrow> int64 option \<Rightarrow> int64 \<Rightarrow> Channel gtx" where
  "store_UpdateGuildChannel channelID name topic parentID updatedAt = (\<lambda>s.
     case update_one channel_row_ok (live_channel channelID)
            (\<lambda>c. c\<lparr>c_Name := (case name of Some n \<Rightarrow> n | None \<Rightarrow> c_Name c),
                  c_Topic := (case topic of Some t \<Rightarrow> t | None \<Rightarrow> c_Topic c),
                  c_ParentID := (case parentID of Some p \<Rightarrow> p | None \<Rightarrow> c_ParentID c),
                  c_Revision := c_Revision c + 1, c_UpdatedAt := updatedAt\<rparr>) (db_channels s) of
       Inl e \<Rightarrow> Inl e
     | Inr (c, t) \<Rightarrow> Inr (c, s\<lparr>db_channels := t\<rparr>))"

record GuildChannelPositionUpdate =
  pu_ChannelID :: int64
  pu_Position :: int32
  pu_ParentID :: int64

definition UpdateGuildChannelPositions ::
  "int64 \<Rightarrow> GuildChannelPositionUpdate list \<Rightarrow> int64 \<Rightarrow> Channel list gtx" where
  "UpdateGuildChannelPositions guildID updates updatedAt =
     (if updates = [] then tx_return []
      else (\<lambda>s.
        let requested = map_of (map (\<lambda>u. (pu_ChannelID u, u)) updates);
            p = (\<lambda>c. c_GuildID c = guildID \<and> requested (c_ID c) \<noteq> None \<and> c_DeletedAt c = 0);
            f = (\<lambda>c. let u = the (requested (c_ID c)) in
                  c\<lparr>c_Position := pu_Position u, c_ParentID := pu_ParentID u,
                    c_Revision := c_Revision c + 1, c_UpdatedAt := updatedAt\<rparr>)
        in case update_rows channel_row_ok p f (db_channels s) of
             Inl e \<Rightarrow> Inl e
           | Inr t \<Rightarrow> Inr (tbl_returning p f (db_channels s), s\<lparr>db_channels := t\<rparr>)))"

definition store_DeleteGuildChannel :: "int64 \<Rightarrow> int64 \<Rightarrow> Channel gtx" where
  "store_DeleteGuildChannel channelID deletedAt = (\<lambda>s.
     case update_one channel_row_ok (live_channel channelID)
            (\<lambda>c. c\<lparr>c_Revision := c_Revision c + 1, c_UpdatedAt := deletedAt, c_DeletedAt := deletedAt\<rparr>)
            (db_channels s) of
       Inl e \<Rightarrow> Inl e
     | Inr (c, t) \<Rightarrow> Inr (c, bump_guild_access_revision [c_GuildID c] (s\<lparr>db_channels := t\<rparr>)))"

definition DeleteGuildChannels :: "int64 \<Rightarrow> int64 \<Rightarrow> unit gtx" where
  "DeleteGuildChannels guildID deletedAt = (\<lambda>s.
     let p = (\<lambda>c. c_GuildID c = guildID \<and> c_DeletedAt c = 0) in
     case update_rows channel_row_ok p
            (\<lambda>c. c\<lparr>c_Revision := c_Revision c + 1, c_UpdatedAt := deletedAt, c_DeletedAt := deletedAt\<rparr>)
            (db_channels s) of
       Inl e \<Rightarrow> Inl e
     | Inr t \<Rightarrow> Inr ((), bump_guild_access_revision (map c_GuildID (filter p (db_channels s))) (s\<lparr>db_channels := t\<rparr>)))"

definition ClearGuildChannelParent :: "int64 \<Rightarrow> int64 \<Rightarrow> int64 \<Rightarrow> unit gtx" where
  "ClearGuildChannelParent guildID parentID updatedAt = (\<lambda>s.
     case update_rows channel_row_ok (\<lambda>c. c_GuildID c = guildID \<and> c_ParentID c = parentID \<and> c_DeletedAt c = 0)
            (\<lambda>c. c\<lparr>c_ParentID := 0, c_Revision := c_Revision c + 1, c_UpdatedAt := updatedAt\<rparr>) (db_channels s) of
       Inl e \<Rightarrow> Inl e
     | Inr t \<Rightarrow> Inr ((), s\<lparr>db_channels := t\<rparr>))"

section \<open>Permission overwrites\<close>

abbreviation overwrite_key :: "int64 \<Rightarrow> int32 \<Rightarrow> int64 \<Rightarrow> ChannelPermissionOverwrite \<Rightarrow> bool" where
  "overwrite_key channelID appliesTo appliesToID x \<equiv>
     o_ChannelID x = channelID \<and> o_AppliesTo x = appliesTo \<and> o_AppliesToID x = appliesToID"

definition store_UpsertGuildChannelPermissionOverwrite ::
  "ChannelPermissionOverwrite \<Rightarrow> ChannelPermissionOverwrite gtx" where
  "store_UpsertGuildChannelPermissionOverwrite overwrite = (\<lambda>s.
     let new = overwrite\<lparr>o_Revision := 1, o_UpdatedAt := 0\<rparr>;
         key = overwrite_key (o_ChannelID overwrite) (o_AppliesTo overwrite) (o_AppliesToID overwrite)
     in if \<not> overwrite_row_ok new then Inl CheckViolation
        else case List.find key (db_overwrites s) of
          None \<Rightarrow> Inr (new, bump_guild_access_revision [o_GuildID new] (s\<lparr>db_overwrites := db_overwrites s @ [new]\<rparr>))
        | Some _ \<Rightarrow>
            (case update_one overwrite_row_ok key
                    (\<lambda>x. x\<lparr>o_Allow := o_Allow new, o_Deny := o_Deny new, o_Revision := o_Revision x + 1,
                           o_UpdatedAt := o_CreatedAt new\<rparr>) (db_overwrites s) of
               Inl e \<Rightarrow> Inl e
             | Inr (x, t) \<Rightarrow> Inr (x, bump_guild_access_revision [o_GuildID x] (s\<lparr>db_overwrites := t\<rparr>))))"

definition delete_overwrites :: "(ChannelPermissionOverwrite \<Rightarrow> bool) \<Rightarrow> unit gtx" where
  "delete_overwrites p = tx_modify (\<lambda>s.
     bump_guild_access_revision (map o_GuildID (filter p (db_overwrites s)))
       (s\<lparr>db_overwrites := tbl_delete p (db_overwrites s)\<rparr>))"

definition store_DeleteGuildChannelPermissionOverwrite :: "int64 \<Rightarrow> int32 \<Rightarrow> int64 \<Rightarrow> unit gtx" where
  "store_DeleteGuildChannelPermissionOverwrite channelID appliesTo appliesToID =
     delete_overwrites (overwrite_key channelID appliesTo appliesToID)"

definition DeleteGuildChannelPermissionOverwrites :: "int64 \<Rightarrow> unit gtx" where
  "DeleteGuildChannelPermissionOverwrites channelID = delete_overwrites (\<lambda>x. o_ChannelID x = channelID)"

definition DeleteAllGuildChannelPermissionOverwrites :: "int64 \<Rightarrow> unit gtx" where
  "DeleteAllGuildChannelPermissionOverwrites guildID = delete_overwrites (\<lambda>x. o_GuildID x = guildID)"

definition DeleteGuildChannelPermissionOverwritesForAppliesTo :: "int64 \<Rightarrow> int32 \<Rightarrow> int64 \<Rightarrow> unit gtx" where
  "DeleteGuildChannelPermissionOverwritesForAppliesTo guildID appliesTo appliesToID =
     delete_overwrites (\<lambda>x. o_GuildID x = guildID \<and> o_AppliesTo x = appliesTo \<and> o_AppliesToID x = appliesToID)"

definition store_ListGuildChannelPermissionOverwrites :: "int64 \<Rightarrow> ChannelPermissionOverwrite list gtx" where
  "store_ListGuildChannelPermissionOverwrites channelID = tx_read (\<lambda>s.
     sort_key (\<lambda>x. (o_AppliesTo x, o_AppliesToID x)) (filter (\<lambda>x. o_ChannelID x = channelID) (db_overwrites s)))"

definition ListGuildChannelPermissionOverwritesByChannels ::
  "int64 list \<Rightarrow> ChannelPermissionOverwrite list gtx" where
  "ListGuildChannelPermissionOverwritesByChannels channelIDs = tx_read (\<lambda>s.
     sort_key (\<lambda>x. (o_GuildID x, o_ChannelID x, o_AppliesTo x, o_AppliesToID x))
       (filter (\<lambda>x. o_ChannelID x \<in> set channelIDs) (db_overwrites s)))"

definition ListGuildChannelPermissionOverwritesByGuild :: "int64 \<Rightarrow> ChannelPermissionOverwrite list gtx" where
  "ListGuildChannelPermissionOverwritesByGuild guildID = tx_read (\<lambda>s.
     sort_key (\<lambda>x. (o_ChannelID x, o_AppliesTo x, o_AppliesToID x))
       (filter (\<lambda>x. o_GuildID x = guildID) (db_overwrites s)))"

definition ListGuildChannelPermissionOverwritesByGuilds ::
  "int64 list \<Rightarrow> int64 \<Rightarrow> ChannelPermissionOverwrite list gtx" where
  "ListGuildChannelPermissionOverwritesByGuilds guildIDs userID = tx_read (\<lambda>s.
     sort_key (\<lambda>x. (o_GuildID x, o_ChannelID x, o_AppliesTo x, o_AppliesToID x))
       (filter (\<lambda>x. o_GuildID x \<in> set guildIDs
          \<and> (o_AppliesTo x = 2 \<and> o_AppliesToID x = userID
             \<or> o_AppliesTo x = 1 \<and> (o_AppliesToID x = o_GuildID x
                 \<or> member_has_role (db_member_roles s) (o_GuildID x) userID (o_AppliesToID x)))) (db_overwrites s)))"

section \<open>Invites\<close>

definition store_CreateGuildInvite :: "GuildInvite \<Rightarrow> GuildInvite gtx" where
  "store_CreateGuildInvite invite = (\<lambda>s.
     let new = invite\<lparr>i_Uses := 0\<rparr> in
     case insert_row invite_row_ok (\<lambda>i j. i_ID i = i_ID j \<or> i_Code i = i_Code j) new (db_invites s) of
       Inl e \<Rightarrow> Inl e
     | Inr t \<Rightarrow> Inr (new, s\<lparr>db_invites := t\<rparr>))"

definition store_GetGuildInvite :: "gostring \<Rightarrow> GuildInvite gtx" where
  "store_GetGuildInvite code = tx_query (\<lambda>s. select_one (\<lambda>i. i_Code i = code) (db_invites s))"

definition GetGuildInviteByID :: "int64 \<Rightarrow> GuildInvite gtx" where
  "GetGuildInviteByID inviteID = tx_query (\<lambda>s. select_one (\<lambda>i. i_ID i = inviteID) (db_invites s))"

definition store_ListGuildInvites :: "int64 \<Rightarrow> int64 \<Rightarrow> int \<Rightarrow> GuildInvite list gtx" where
  "store_ListGuildInvites guildID beforeID limit = tx_read (\<lambda>s.
     take (nat limit) (sort_key (\<lambda>i. - i_ID i)
       (filter (\<lambda>i. i_GuildID i = guildID \<and> (beforeID = 0 \<or> i_ID i < beforeID)) (db_invites s))))"

definition ConsumeGuildInvite :: "gostring \<Rightarrow> int64 \<Rightarrow> GuildInvite gtx" where
  "ConsumeGuildInvite code now = (\<lambda>s.
     case update_one invite_row_ok
            (\<lambda>i. i_Code i = code \<and> (i_MaxUses i = 0 \<or> i_Uses i < i_MaxUses i) \<and> (i_ExpiresAt i = 0 \<or> now < i_ExpiresAt i))
            (\<lambda>i. i\<lparr>i_Uses := i_Uses i + 1\<rparr>) (db_invites s) of
       Inl e \<Rightarrow> Inl e
     | Inr (i, t) \<Rightarrow> Inr (i, s\<lparr>db_invites := t\<rparr>))"

definition store_DeleteGuildInvite :: "gostring \<Rightarrow> unit gtx" where
  "store_DeleteGuildInvite code = (\<lambda>s.
     if \<not> list_ex (\<lambda>i. i_Code i = code) (db_invites s) then Inl ErrNoRows
     else Inr ((), s\<lparr>db_invites := tbl_delete (\<lambda>i. i_Code i = code) (db_invites s)\<rparr>))"

definition DeleteGuildInvites :: "int64 \<Rightarrow> unit gtx" where
  "DeleteGuildInvites guildID =
     tx_modify (\<lambda>s. s\<lparr>db_invites := tbl_delete (\<lambda>i. i_GuildID i = guildID) (db_invites s)\<rparr>)"

section \<open>Idempotency keys\<close>

record GuildIdempotencyClaim =
  cl_ResourceID :: int64
  cl_RequestHash :: gostring
  cl_Claimed :: bool

abbreviation claim_key :: "guildIdempotencyRow \<Rightarrow> guildIdempotencyRow \<Rightarrow> bool" where
  "claim_key params k \<equiv> ik_ActorUserID k = ik_ActorUserID params \<and> ik_Operation k = ik_Operation params
     \<and> ik_Key k = ik_Key params"

primrec claim_attempts :: "nat \<Rightarrow> guildIdempotencyRow \<Rightarrow> GuildIdempotencyClaim gtx" where
  "claim_attempts 0 params = tx_fail ErrIdempotencyContention"
| "claim_attempts (Suc n) params = (\<lambda>s.
     let t = tbl_delete (\<lambda>k. claim_key params k \<and> ik_ExpiresAt k \<le> ik_CreatedAt params) (db_idempotency s);
         s1 = s\<lparr>db_idempotency := t\<rparr>
     in if \<not> idempotency_row_ok params then Inl CheckViolation
        else case List.find (claim_key params) t of
          None \<Rightarrow> Inr (\<lparr>cl_ResourceID = ik_ResourceID params, cl_RequestHash = ik_RequestHash params, cl_Claimed = True\<rparr>,
                       s1\<lparr>db_idempotency := t @ [params]\<rparr>)
        | Some k \<Rightarrow>
            if ik_ExpiresAt k \<le> ik_CreatedAt params then claim_attempts n params s1
            else Inr (\<lparr>cl_ResourceID = ik_ResourceID k, cl_RequestHash = ik_RequestHash k, cl_Claimed = False\<rparr>, s1))"

definition ClaimGuildIdempotency :: "guildIdempotencyRow \<Rightarrow> GuildIdempotencyClaim gtx" where
  "ClaimGuildIdempotency params = claim_attempts 3 params"

section \<open>Member profiles\<close>

definition search_columns :: "guild_env \<Rightarrow> GuildMemberProfile \<Rightarrow> GuildMemberProfile" where
  "search_columns env p = p\<lparr>
     p_UsernameSearch := e_to_lower env (trim_space (p_Username p)),
     p_NameSearch := e_to_lower env (trim_space (p_Name p)),
     p_NicknameSearch := e_to_lower env (trim_space (p_Nickname p))\<rparr>"

abbreviation profile_key :: "int64 \<Rightarrow> int64 \<Rightarrow> GuildMemberProfile \<Rightarrow> bool" where
  "profile_key guildID userID p \<equiv> p_GuildID p = guildID \<and> p_UserID p = userID"

definition UpsertGuildMemberProfile :: "guild_env \<Rightarrow> GuildMemberProfile \<Rightarrow> unit gtx" where
  "UpsertGuildMemberProfile env profile = (\<lambda>s.
     let new = search_columns env profile; key = profile_key (p_GuildID new) (p_UserID new) in
     if \<not> profile_row_ok new then Inl CheckViolation
     else if list_ex key (db_profiles s)
     then Inr ((), s\<lparr>db_profiles :=
            tbl_update (\<lambda>p. key p \<and> p_ProfileUpdatedAt p \<le> p_ProfileUpdatedAt new) (\<lambda>_. new) (db_profiles s)\<rparr>)
     else Inr ((), s\<lparr>db_profiles := db_profiles s @ [new]\<rparr>))"

definition UpdateGuildMemberProfilesByUser :: "guild_env \<Rightarrow> GuildMemberProfile \<Rightarrow> unit gtx" where
  "UpdateGuildMemberProfilesByUser env profile = (\<lambda>s.
     let new = search_columns env profile in
     case update_rows profile_row_ok
            (\<lambda>p. p_UserID p = p_UserID new \<and> p_ProfileUpdatedAt p \<le> p_ProfileUpdatedAt new)
            (\<lambda>p. p\<lparr>p_Username := p_Username new, p_Name := p_Name new, p_UsernameSearch := p_UsernameSearch new,
                   p_NameSearch := p_NameSearch new, p_AvatarAssetID := p_AvatarAssetID new,
                   p_ProfileUpdatedAt := p_ProfileUpdatedAt new\<rparr>) (db_profiles s) of
       Inl e \<Rightarrow> Inl e
     | Inr t \<Rightarrow> Inr ((), s\<lparr>db_profiles := t\<rparr>))"

definition UpdateGuildMemberProfilesByUserWithoutAvatar :: "guild_env \<Rightarrow> GuildMemberProfile \<Rightarrow> unit gtx" where
  "UpdateGuildMemberProfilesByUserWithoutAvatar env profile = (\<lambda>s.
     let new = search_columns env profile in
     case update_rows profile_row_ok
            (\<lambda>p. p_UserID p = p_UserID new \<and> p_ProfileUpdatedAt p \<le> p_ProfileUpdatedAt new)
            (\<lambda>p. p\<lparr>p_Username := p_Username new, p_Name := p_Name new, p_UsernameSearch := p_UsernameSearch new,
                   p_NameSearch := p_NameSearch new, p_ProfileUpdatedAt := p_ProfileUpdatedAt new\<rparr>) (db_profiles s) of
       Inl e \<Rightarrow> Inl e
     | Inr t \<Rightarrow> Inr ((), s\<lparr>db_profiles := t\<rparr>))"

definition UpdateGuildMemberProfileNickname :: "guild_env \<Rightarrow> int64 \<Rightarrow> int64 \<Rightarrow> gostring \<Rightarrow> unit gtx" where
  "UpdateGuildMemberProfileNickname env guildID userID nickname = tx_modify (\<lambda>s. s\<lparr>db_profiles :=
     tbl_update (profile_key guildID userID)
       (\<lambda>p. p\<lparr>p_Nickname := nickname, p_NicknameSearch := e_to_lower env (trim_space nickname)\<rparr>) (db_profiles s)\<rparr>)"

definition DeleteGuildMemberProfile :: "int64 \<Rightarrow> int64 \<Rightarrow> unit gtx" where
  "DeleteGuildMemberProfile guildID userID =
     tx_modify (\<lambda>s. s\<lparr>db_profiles := tbl_delete (profile_key guildID userID) (db_profiles s)\<rparr>)"

definition DeleteGuildMemberProfiles :: "int64 \<Rightarrow> unit gtx" where
  "DeleteGuildMemberProfiles guildID =
     tx_modify (\<lambda>s. s\<lparr>db_profiles := tbl_delete (\<lambda>p. p_GuildID p = guildID) (db_profiles s)\<rparr>)"

section \<open>Quotas\<close>

datatype QuotaKind = QuotaOwnedGuilds | QuotaJoinedGuilds | QuotaGuildRoles | QuotaGuildChannels
  | QuotaActiveInvites | QuotaChannelOverwrites

record ResourceQuota =
  q_Kind :: QuotaKind
  q_ScopeID :: int64
  q_Limit :: int
  q_Now :: int64
  q_AppliesTo :: int32
  q_AppliesToID :: int64
  q_TargetID :: int64

definition quota :: "QuotaKind \<Rightarrow> int64 \<Rightarrow> int \<Rightarrow> ResourceQuota" where
  "quota kind scopeID limit = \<lparr>q_Kind = kind, q_ScopeID = scopeID, q_Limit = limit, q_Now = 0,
     q_AppliesTo = 0, q_AppliesToID = 0, q_TargetID = 0\<rparr>"

text \<open>
  The advisory locks order concurrent transactions; a transaction of the model runs alone, so they
  have no effect here.
\<close>

definition LockGuildChannelMutations :: "int64 \<Rightarrow> unit gtx" where
  "LockGuildChannelMutations guildID = tx_require (0 < guildID) (StoreError (str ''guild id must be positive''))"

definition quota_count :: "ResourceQuota \<Rightarrow> guild_db \<Rightarrow> nat" where
  "quota_count q s = (case q_Kind q of
       QuotaOwnedGuilds \<Rightarrow> length (filter (\<lambda>g. g_OwnerID g = q_ScopeID q \<and> g_DeletedAt g = 0) (db_guilds s))
     | QuotaJoinedGuilds \<Rightarrow> length (filter (\<lambda>m. m_UserID m = q_ScopeID q \<and> m_DeletedAt m = 0
           \<and> list_ex (live_guild (m_GuildID m)) (db_guilds s)) (db_members s))
     | QuotaGuildRoles \<Rightarrow> length (filter (\<lambda>r. r_GuildID r = q_ScopeID q \<and> r_DeletedAt r = 0) (db_roles s))
     | QuotaGuildChannels \<Rightarrow> length (filter (\<lambda>c. c_GuildID c = q_ScopeID q \<and> c_DeletedAt c = 0) (db_channels s))
     | QuotaActiveInvites \<Rightarrow> length (filter (\<lambda>i. i_GuildID i = q_ScopeID q
           \<and> (i_ExpiresAt i = 0 \<or> q_Now q < i_ExpiresAt i) \<and> (i_MaxUses i = 0 \<or> i_Uses i < i_MaxUses i)) (db_invites s))
     | QuotaChannelOverwrites \<Rightarrow> length (filter (\<lambda>x. o_ChannelID x = q_ScopeID q) (db_overwrites s)))"

definition CheckResourceQuota :: "ResourceQuota \<Rightarrow> unit gtx" where
  "CheckResourceQuota q = (\<lambda>s.
     if q_ScopeID q \<le> 0 then Inl (StoreError (str ''quota scope id must be positive''))
     else if q_Limit q \<le> 0 then Inl (StoreError (str ''quota limit must be positive''))
     else if q_Kind q = QuotaJoinedGuilds \<and> list_ex (active_member (q_TargetID q) (q_ScopeID q)) (db_members s)
     then Inl ErrMemberAlreadyExists
     else if q_Kind q = QuotaChannelOverwrites
       \<and> list_ex (overwrite_key (q_ScopeID q) (q_AppliesTo q) (q_AppliesToID q)) (db_overwrites s)
     then Inr ((), s)
     else if q_Limit q \<le> int (quota_count q s) then Inl ErrResourceLimitExceeded
     else Inr ((), s))"

section \<open>Outbox\<close>

text \<open>The store's outbox calls, with the errors of the shared package as the store reports them.\<close>

definition outbox_result :: "outbox_error + 'a \<Rightarrow> guild_error + 'a" where
  "outbox_result r = (case r of
       Inr x \<Rightarrow> Inr x
     | Inl StreamNoRows \<Rightarrow> Inl ErrNoRows
     | Inl OutboxCheckViolation \<Rightarrow> Inl CheckViolation
     | Inl OutboxUniqueViolation \<Rightarrow> Inl UniqueViolation
     | Inl SequenceCountNotPositive \<Rightarrow> Inl (StoreError (str ''outbox: sequence count must be positive''))
     | Inl ShardCountPanic \<Rightarrow> Inl (StoreError (str ''outbox: shard count must be positive'')))"

definition EnsureGuildStream :: "gostring \<Rightarrow> int \<Rightarrow> unit gtx" where
  "EnsureGuildStream streamKey shardID =
     tx_modify (\<lambda>s. s\<lparr>db_outbox := EnsureStream streamKey shardID (db_outbox s)\<rparr>)"

definition ReserveGuildSequences :: "gostring \<Rightarrow> int \<Rightarrow> reserved_range gtx" where
  "ReserveGuildSequences streamKey count = (\<lambda>s.
     case outbox_result (ReserveSequences streamKey count (db_outbox s)) of
       Inl e \<Rightarrow> Inl e
     | Inr (rng, ob) \<Rightarrow> Inr (rng, s\<lparr>db_outbox := ob\<rparr>))"

definition InsertGuildOutbox :: "eventEnvelope outbox_record list \<Rightarrow> unit gtx" where
  "InsertGuildOutbox records = (\<lambda>s.
     case outbox_result (InsertBatch records (db_outbox s)) of
       Inl e \<Rightarrow> Inl e
     | Inr ob \<Rightarrow> Inr ((), s\<lparr>db_outbox := ob\<rparr>))"

text \<open>A wakeup has no effect on the database, and its failure is only logged.\<close>

definition NotifyOutbox :: "unit gtx" where
  "NotifyOutbox = tx_return ()"

end
