(* ===== verification/Guild_Spec.thy ===== *)
theory Guild_Spec
  imports Guild_Store
begin

text \<open>
  What the guild database means: live guilds with their owners, active members, live roles and
  channels, assignments, overwrites and bans, without soft-deleted rows, revisions and timestamps.
  Each store operation is shown to refine an update of this abstract state.
\<close>

section \<open>Abstract state\<close>

record role_info =
  ri_guild :: int64
  ri_perms :: perms
  ri_pos :: int32
  ri_default :: bool

record chan_info =
  ci_guild :: int64
  ci_type :: int32
  ci_parent :: int64

record ow_info =
  oi_guild :: int64
  oi_allow :: perms
  oi_deny :: perms

record guild_spec =
  sp_owner :: "int64 \<rightharpoonup> int64"
  sp_members :: "(int64 \<times> int64) set"
  sp_roles :: "int64 \<rightharpoonup> role_info"
  sp_assigned :: "(int64 \<times> int64 \<times> int64) set"
  sp_channels :: "int64 \<rightharpoonup> chan_info"
  sp_overwrites :: "int64 \<times> int32 \<times> int64 \<rightharpoonup> ow_info"
  sp_banned :: "(int64 \<times> int64) set"

definition role_info_of :: "Role \<Rightarrow> role_info" where
  "role_info_of r = \<lparr>ri_guild = r_GuildID r, ri_perms = r_Permissions r, ri_pos = r_Position r, ri_default = r_IsDefault r\<rparr>"

definition chan_info_of :: "Channel \<Rightarrow> chan_info" where
  "chan_info_of c = \<lparr>ci_guild = c_GuildID c, ci_type = c_Type c, ci_parent = c_ParentID c\<rparr>"

definition ow_info_of :: "ChannelPermissionOverwrite \<Rightarrow> ow_info" where
  "ow_info_of x = \<lparr>oi_guild = o_GuildID x, oi_allow = o_Allow x, oi_deny = o_Deny x\<rparr>"

text \<open>The live rows of a table, keyed.\<close>

definition lookup :: "('r \<Rightarrow> 'k) \<Rightarrow> ('r \<Rightarrow> bool) \<Rightarrow> ('r \<Rightarrow> 'v) \<Rightarrow> 'r list \<Rightarrow> 'k \<rightharpoonup> 'v" where
  "lookup key live val t k = map_option val (List.find (\<lambda>r. key r = k \<and> live r) t)"

definition guilds_of :: "Guild list \<Rightarrow> int64 \<rightharpoonup> int64" where
  "guilds_of = lookup g_ID (\<lambda>g. g_DeletedAt g = 0) g_OwnerID"

text \<open>The keys of the live rows of a table.\<close>

definition live_keys :: "('r \<Rightarrow> 'k) \<Rightarrow> ('r \<Rightarrow> bool) \<Rightarrow> 'r list \<Rightarrow> 'k set" where
  "live_keys key live t = {k. \<exists>r\<in>set t. key r = k \<and> live r}"

definition members_of :: "GuildMember list \<Rightarrow> (int64 \<times> int64) set" where
  "members_of = live_keys (\<lambda>m. (m_GuildID m, m_UserID m)) (\<lambda>m. m_DeletedAt m = 0)"

definition roles_of :: "Role list \<Rightarrow> int64 \<rightharpoonup> role_info" where
  "roles_of = lookup r_ID (\<lambda>r. r_DeletedAt r = 0) role_info_of"

definition assigned_of :: "GuildMemberRole list \<Rightarrow> (int64 \<times> int64 \<times> int64) set" where
  "assigned_of = live_keys (\<lambda>x. (mr_GuildID x, mr_UserID x, mr_RoleID x)) (\<lambda>_. True)"

definition channels_of :: "Channel list \<Rightarrow> int64 \<rightharpoonup> chan_info" where
  "channels_of = lookup c_ID (\<lambda>c. c_DeletedAt c = 0) chan_info_of"

abbreviation o_key :: "ChannelPermissionOverwrite \<Rightarrow> int64 \<times> int32 \<times> int64" where
  "o_key x \<equiv> (o_ChannelID x, o_AppliesTo x, o_AppliesToID x)"

definition overwrites_of :: "ChannelPermissionOverwrite list \<Rightarrow> int64 \<times> int32 \<times> int64 \<rightharpoonup> ow_info" where
  "overwrites_of = lookup o_key (\<lambda>_. True) ow_info_of"

definition banned_of :: "GuildBan list \<Rightarrow> (int64 \<times> int64) set" where
  "banned_of = live_keys (\<lambda>b. (b_GuildID b, b_UserID b)) (\<lambda>_. True)"

definition absdb :: "guild_db \<Rightarrow> guild_spec" where
  "absdb s = \<lparr>sp_owner = guilds_of (db_guilds s), sp_members = members_of (db_members s),
     sp_roles = roles_of (db_roles s), sp_assigned = assigned_of (db_member_roles s),
     sp_channels = channels_of (db_channels s), sp_overwrites = overwrites_of (db_overwrites s),
     sp_banned = banned_of (db_bans s)\<rparr>"

section \<open>Primary keys\<close>

definition keys_ok :: "guild_db \<Rightarrow> bool" where
  "keys_ok s \<longleftrightarrow> distinct (map g_ID (db_guilds s))
     \<and> distinct (map (\<lambda>m. (m_GuildID m, m_UserID m)) (db_members s))
     \<and> distinct (map r_ID (db_roles s))
     \<and> distinct (map (\<lambda>x. (mr_GuildID x, mr_UserID x, mr_RoleID x)) (db_member_roles s))
     \<and> distinct (map c_ID (db_channels s))
     \<and> distinct (map o_key (db_overwrites s))
     \<and> distinct (map (\<lambda>b. (b_GuildID b, b_UserID b)) (db_bans s))
     \<and> distinct (map i_ID (db_invites s)) \<and> distinct (map i_Code (db_invites s))"

section \<open>Keyed tables\<close>

definition map_without :: "('k \<Rightarrow> 'v \<Rightarrow> bool) \<Rightarrow> ('k \<rightharpoonup> 'v) \<Rightarrow> 'k \<rightharpoonup> 'v" where
  "map_without P m k = (case m k of None \<Rightarrow> None | Some v \<Rightarrow> if P k v then None else Some v)"

lemma map_without_Some [simp]: "map_without P m k = Some v \<longleftrightarrow> m k = Some v \<and> \<not> P k v"
  by (auto simp: map_without_def split: option.splits if_splits)

lemma map_eqI: "(\<And>k v. m k = Some v \<longleftrightarrow> n k = Some v) \<Longrightarrow> m = n"
  by (rule ext) (metis not_None_eq)

lemma lookup_eq_None: "lookup key live val t k = None \<longleftrightarrow> (\<forall>r\<in>set t. key r = k \<longrightarrow> \<not> live r)"
  by (auto simp: lookup_def find_None_iff)

lemma lookup_eq_Some:
  assumes "distinct (map key t)"
  shows "lookup key live val t k = Some v \<longleftrightarrow> (\<exists>r\<in>set t. key r = k \<and> live r \<and> v = val r)"
proof
  assume "lookup key live val t k = Some v"
  then show "\<exists>r\<in>set t. key r = k \<and> live r \<and> v = val r"
    by (auto simp: lookup_def dest!: find_SomeD)
next
  assume "\<exists>r\<in>set t. key r = k \<and> live r \<and> v = val r"
  then obtain r where r: "r \<in> set t" "key r = k" "live r" "v = val r" by auto
  have "List.find (\<lambda>q. key q = k \<and> live q) t = Some r"
    by (rule find_distinct_key[OF assms r(1), where c = live]) (use r in auto)
  then show "lookup key live val t k = Some v" using r by (simp add: lookup_def)
qed

lemma lookup_append:
  assumes "\<forall>r\<in>set t. key r \<noteq> key n" "live n"
  shows "lookup key live val (t @ [n]) = (lookup key live val t)(key n \<mapsto> val n)"
proof (rule ext)
  fix k
  have append: "List.find p (t @ [n]) = (case List.find p t of None \<Rightarrow> if p n then Some n else None | r \<Rightarrow> r)" for p
    by (induction t) auto
  show "lookup key live val (t @ [n]) k = ((lookup key live val t)(key n \<mapsto> val n)) k"
  proof (cases "k = key n")
    case True
    have "lookup key live val t k = None" unfolding lookup_eq_None using True assms(1) by auto
    then show ?thesis using assms True by (simp add: lookup_def append)
  next
    case False
    then show ?thesis by (auto simp: lookup_def append split: option.splits)
  qed
qed

lemma distinct_map_tbl_update: "distinct (map k t) \<Longrightarrow> (\<And>r. k (f r) = k r) \<Longrightarrow> distinct (map k (tbl_update p f t))"
  by (simp add: tbl_simps)

lemma ex_tbl_update: "(\<exists>r\<in>set (tbl_update p f t). Q r) \<longleftrightarrow> (\<exists>r\<in>set t. if p r then Q (f r) else Q r)"
  by (auto simp: tbl_update_def)

lemma live_keys_append: "live n \<Longrightarrow> live_keys key live (t @ [n]) = insert (key n) (live_keys key live t)"
  by (auto simp: live_keys_def)

lemma live_keys_same:
  "(\<And>r. key (f r) = key r \<and> live (f r) = live r) \<Longrightarrow> live_keys key live (tbl_update p f t) = live_keys key live t"
  unfolding live_keys_def ex_tbl_update by auto

lemma live_keys_add:
  assumes "\<And>r. key (f r) = key r \<and> live (f r)" "r0 \<in> set t" "\<And>r. p r \<longleftrightarrow> key r = key r0"
  shows "live_keys key live (tbl_update p f t) = insert (key r0) (live_keys key live t)"
proof (rule set_eqI)
  fix k
  show "k \<in> live_keys key live (tbl_update p f t) \<longleftrightarrow> k \<in> insert (key r0) (live_keys key live t)"
    unfolding live_keys_def mem_Collect_eq ex_tbl_update insert_iff using assms by metis
qed

lemma live_keys_drop:
  assumes "\<And>r. key (f r) = key r \<and> \<not> live (f r)" "\<And>r. p r \<longleftrightarrow> live r \<and> P (key r)"
  shows "live_keys key live (tbl_update p f t) = {k \<in> live_keys key live t. \<not> P k}"
  unfolding live_keys_def ex_tbl_update using assms by auto

lemma live_keys_delete:
  assumes "\<And>r. p r \<longleftrightarrow> P (key r)"
  shows "live_keys key live (tbl_delete p t) = {k \<in> live_keys key live t. \<not> P k}"
  using assms by (auto simp: live_keys_def tbl_simps)

lemma lookup_update_one:
  assumes dist: "distinct (map key t)" and key: "\<And>r. key (f r) = key r"
    and r0: "r0 \<in> set t" "p r0" and single: "\<And>r. r \<in> set t \<Longrightarrow> p r \<Longrightarrow> key r = key r0"
  shows "lookup key live val (tbl_update p f t) =
    (lookup key live val t)(key r0 := if live (f r0) then Some (val (f r0)) else None)"
proof (rule map_eqI)
  fix k v
  have dist': "distinct (map key (tbl_update p f t))" by (rule distinct_map_tbl_update[OF dist key])
  have eq: "r = r0" if "r \<in> set t" "key r = key r0" for r
    using inj_on_distinct_key[OF dist that(1) r0(1) that(2)] .
  show "lookup key live val (tbl_update p f t) k = Some v \<longleftrightarrow>
    ((lookup key live val t)(key r0 := if live (f r0) then Some (val (f r0)) else None)) k = Some v"
  proof (cases "k = key r0")
    case True
    have "(\<exists>r\<in>set t. if p r then key (f r) = k \<and> live (f r) \<and> v = val (f r) else key r = k \<and> live r \<and> v = val r)
        \<longleftrightarrow> live (f r0) \<and> v = val (f r0)"
      unfolding key True using r0 eq by metis
    then show ?thesis unfolding lookup_eq_Some[OF dist'] ex_tbl_update using True by auto
  next
    case False
    have "(\<exists>r\<in>set t. if p r then key (f r) = k \<and> live (f r) \<and> v = val (f r) else key r = k \<and> live r \<and> v = val r)
        \<longleftrightarrow> (\<exists>r\<in>set t. key r = k \<and> live r \<and> v = val r)"
      unfolding key using False single by metis
    then show ?thesis unfolding lookup_eq_Some[OF dist'] ex_tbl_update
      using False by (simp add: lookup_eq_Some[OF dist])
  qed
qed

lemma lookup_update_drop:
  assumes dist: "distinct (map key t)" and key: "\<And>r. key (f r) = key r"
    and p: "\<And>r. r \<in> set t \<Longrightarrow> p r \<longleftrightarrow> live r \<and> P (key r) (val r)" and dead: "\<And>r. \<not> live (f r)"
  shows "lookup key live val (tbl_update p f t) = map_without P (lookup key live val t)"
proof (rule map_eqI)
  fix k v
  have dist': "distinct (map key (tbl_update p f t))" by (rule distinct_map_tbl_update[OF dist key])
  show "lookup key live val (tbl_update p f t) k = Some v \<longleftrightarrow> map_without P (lookup key live val t) k = Some v"
    unfolding map_without_Some lookup_eq_Some[OF dist'] lookup_eq_Some[OF dist] ex_tbl_update key
    using p dead by metis
qed

lemma lookup_delete:
  assumes dist: "distinct (map key t)" and p: "\<And>r. r \<in> set t \<Longrightarrow> p r \<longleftrightarrow> P (key r) (val r)"
  shows "lookup key live val (tbl_delete p t) = map_without P (lookup key live val t)"
proof (rule map_eqI)
  fix k v
  have dist': "distinct (map key (tbl_delete p t))" using dist by (rule distinct_tbl_delete)
  show "lookup key live val (tbl_delete p t) k = Some v \<longleftrightarrow> map_without P (lookup key live val t) k = Some v"
    unfolding map_without_Some lookup_eq_Some[OF dist'] lookup_eq_Some[OF dist] using p
    by (auto simp: tbl_simps)
qed

text \<open>An update of rows that changes neither key, nor liveness, nor value.\<close>

lemma lookup_update_same:
  assumes "\<And>r. key (f r) = key r" "\<And>r. live (f r) = live r" "\<And>r. val (f r) = val r"
  shows "lookup key live val (tbl_update p f t) = lookup key live val t"
proof (rule ext)
  fix k show "lookup key live val (tbl_update p f t) k = lookup key live val t k"
    using assms by (induction t) (auto simp: lookup_def tbl_update_def)
qed

section \<open>Every store operation keeps the primary keys\<close>

named_theorems keys_rules \<open>operations that keep \<open>keys_ok\<close>\<close>

abbreviation keeps :: "('s \<Rightarrow> bool) \<Rightarrow> 's \<Rightarrow> 's \<Rightarrow> bool" where
  "keeps I \<equiv> \<lambda>s s'. I s \<longrightarrow> I s'"

interpretation keys: tx_contract "keeps keys_ok"
  by unfold_locales auto

lemma bump_frame [simp]:
  "db_members (bump_guild_access_revision gids s) = db_members s"
  "db_roles (bump_guild_access_revision gids s) = db_roles s"
  "db_member_roles (bump_guild_access_revision gids s) = db_member_roles s"
  "db_channels (bump_guild_access_revision gids s) = db_channels s"
  "db_overwrites (bump_guild_access_revision gids s) = db_overwrites s"
  "db_bans (bump_guild_access_revision gids s) = db_bans s"
  "db_invites (bump_guild_access_revision gids s) = db_invites s"
  "db_idempotency (bump_guild_access_revision gids s) = db_idempotency s"
  "db_profiles (bump_guild_access_revision gids s) = db_profiles s"
  "db_outbox (bump_guild_access_revision gids s) = db_outbox s"
  by (simp_all add: bump_guild_access_revision_def)

lemma bump_owned_frame [simp]:
  "db_members (bump_owned_guild_access_revision g g' s) = db_members s"
  "db_roles (bump_owned_guild_access_revision g g' s) = db_roles s"
  "db_member_roles (bump_owned_guild_access_revision g g' s) = db_member_roles s"
  "db_channels (bump_owned_guild_access_revision g g' s) = db_channels s"
  "db_overwrites (bump_owned_guild_access_revision g g' s) = db_overwrites s"
  "db_bans (bump_owned_guild_access_revision g g' s) = db_bans s"
  "db_invites (bump_owned_guild_access_revision g g' s) = db_invites s"
  "db_idempotency (bump_owned_guild_access_revision g g' s) = db_idempotency s"
  "db_profiles (bump_owned_guild_access_revision g g' s) = db_profiles s"
  "db_outbox (bump_owned_guild_access_revision g g' s) = db_outbox s"
  by (simp_all add: bump_owned_guild_access_revision_def)

lemma map_bump [simp]:
  "(\<And>g n. k (g\<lparr>g_AccessRevision := n\<rparr>) = k g) \<Longrightarrow> map k (db_guilds (bump_guild_access_revision gids s)) = map k (db_guilds s)"
  by (simp add: bump_guild_access_revision_def)

lemma keys_ok_bump [simp]: "keys_ok (bump_guild_access_revision gids s) \<longleftrightarrow> keys_ok s"
  by (simp add: keys_ok_def)

lemma keys_ok_bump_owned [simp]: "keys_ok (bump_owned_guild_access_revision g g' s) \<longleftrightarrow> keys_ok s"
  by (simp add: bump_owned_guild_access_revision_def)

lemmas keys_simps = tx_rel_def tx_modify_def distinct_map_tbl_update distinct_tbl_delete insert_row_Inr update_rows_Inr
  update_one_Inr

lemma keys_store_CreateGuild [keys_rules]: "tx_rel (keeps keys_ok) (store_CreateGuild gid owner name at)"
  by (auto simp: keys_simps store_CreateGuild_def keys_ok_def Let_def split: sum.splits)

lemma keys_update_guild: "(\<And>g. g_ID (f g) = g_ID g) \<Longrightarrow> tx_rel (keeps keys_ok) (update_guild p f)"
  by (auto simp: keys_simps update_guild_def split: sum.splits option.splits) (simp add: keys_ok_def distinct_map_tbl_update)

lemma keys_guild_updates [keys_rules]:
  "tx_rel (keeps keys_ok) (store_UpdateGuild env gid name desc)"
  "tx_rel (keeps keys_ok) (UpdateGuildIcon env gid asset)"
  "tx_rel (keeps keys_ok) (store_DeleteGuild gid at)"
  "tx_rel (keeps keys_ok) (store_TransferGuildOwnership env gid o1 o2)"
  "tx_rel (keeps keys_ok) (AdvanceGuildChannelLayoutRevision gid n)"
  unfolding store_UpdateGuild_def UpdateGuildIcon_def store_DeleteGuild_def store_TransferGuildOwnership_def
    AdvanceGuildChannelLayoutRevision_def
  by (intro keys.rel_rules keys_update_guild; simp)+

lemma keys_members [keys_rules]:
  "tx_rel (keeps keys_ok) (UpdateGuildMemberNickname env gid uid nick)"
  "tx_rel (keeps keys_ok) (RemoveGuildMember gid uid at)"
  "tx_rel (keeps keys_ok) (DeleteGuildMembers gid at)"
  by (auto simp: keys_simps UpdateGuildMemberNickname_def RemoveGuildMember_def DeleteGuildMembers_def Let_def
      split: sum.splits) (simp_all add: keys_ok_def distinct_map_tbl_update)

lemma keys_CreateGuildMember [keys_rules]: "tx_rel (keeps keys_ok) (CreateGuildMember gid uid at)"
  unfolding tx_rel_def CreateGuildMember_def Let_def
  by (auto simp: update_one_Inr find_None_iff split: sum.splits option.splits if_splits)
    (auto simp: keys_ok_def distinct_map_tbl_update)

lemma keys_bans [keys_rules]:
  "tx_rel (keeps keys_ok) (UpsertGuildBan ban)"
  "tx_rel (keeps keys_ok) (DeleteGuildBan gid uid)"
  "tx_rel (keeps keys_ok) (DeleteGuildBans gid)"
  by (auto simp: keys_simps UpsertGuildBan_def DeleteGuildBan_def DeleteGuildBans_def Let_def list_ex_iff keys_ok_def
      split: sum.splits if_splits)

lemma keys_insert_role: "tx_rel (keeps keys_ok) (insert_role r)"
  by (auto simp: keys_simps insert_role_def role_clash_def split: sum.splits) (auto simp: keys_ok_def)

lemma keys_roles [keys_rules]:
  "tx_rel (keeps keys_ok) (CreateDefaultRole gid at)"
  "tx_rel (keeps keys_ok) (store_CreateGuildRole rid gid name ps pos at)"
  unfolding CreateDefaultRole_def store_CreateGuildRole_def by (intro keys.rel_rules keys_insert_role)+

lemma keys_role_updates [keys_rules]:
  "tx_rel (keeps keys_ok) (store_UpdateGuildRole gid rid name ps at)"
  "tx_rel (keeps keys_ok) (store_DeleteGuildRole gid rid at)"
  "tx_rel (keeps keys_ok) (DeleteGuildRoles gid at)"
  "tx_rel (keeps keys_ok) (UpdateGuildRolePositions gid rids poss at)"
  by (auto simp: keys_simps store_UpdateGuildRole_def store_DeleteGuildRole_def DeleteGuildRoles_def
      UpdateGuildRolePositions_def tx_return_def Let_def split: sum.splits if_splits)
    (simp_all add: keys_ok_def distinct_map_tbl_update)

lemma keys_delete_member_roles: "tx_rel (keeps keys_ok) (delete_member_roles p)"
  by (auto simp: keys_simps delete_member_roles_def keys_ok_def)

lemma keys_member_roles [keys_rules]:
  "tx_rel (keeps keys_ok) (store_AddGuildMemberRole gid uid rid at)"
  "tx_rel (keeps keys_ok) (store_RemoveGuildMemberRole gid uid rid)"
  "tx_rel (keeps keys_ok) (DeleteGuildMemberRoleAssignments gid uid)"
  "tx_rel (keeps keys_ok) (DeleteGuildRoleAssignments gid rid)"
  "tx_rel (keeps keys_ok) (DeleteAllGuildRoleAssignments gid)"
  by (auto simp: store_RemoveGuildMemberRole_def DeleteGuildMemberRoleAssignments_def DeleteGuildRoleAssignments_def
      DeleteAllGuildRoleAssignments_def intro: keys_delete_member_roles)
    (auto simp: tx_rel_def store_AddGuildMemberRole_def Let_def list_ex_iff keys_ok_def split: if_splits)

lemma keys_channels [keys_rules]:
  "tx_rel (keeps keys_ok) (store_CreateGuildChannel cid gid name ty pos topic par at)"
  "tx_rel (keeps keys_ok) (store_UpdateGuildChannel cid nm tp pr at)"
  "tx_rel (keeps keys_ok) (UpdateGuildChannelPositions gid us at)"
  "tx_rel (keeps keys_ok) (store_DeleteGuildChannel cid at)"
  "tx_rel (keeps keys_ok) (DeleteGuildChannels gid at)"
  "tx_rel (keeps keys_ok) (ClearGuildChannelParent gid par at)"
  by (auto simp: keys_simps store_CreateGuildChannel_def store_UpdateGuildChannel_def UpdateGuildChannelPositions_def
      store_DeleteGuildChannel_def DeleteGuildChannels_def ClearGuildChannelParent_def tx_return_def Let_def
      split: sum.splits if_splits) (auto simp: keys_ok_def distinct_map_tbl_update)

lemma keys_delete_overwrites: "tx_rel (keeps keys_ok) (delete_overwrites p)"
  by (auto simp: keys_simps delete_overwrites_def keys_ok_def)

lemma keys_UpsertOverwrite [keys_rules]: "tx_rel (keeps keys_ok) (store_UpsertGuildChannelPermissionOverwrite ow)"
  unfolding tx_rel_def store_UpsertGuildChannelPermissionOverwrite_def Let_def
  by (auto simp: update_one_Inr find_None_iff split: sum.splits option.splits if_splits)
    (auto simp: keys_ok_def distinct_map_tbl_update)

lemma keys_overwrites [keys_rules]:
  "tx_rel (keeps keys_ok) (store_DeleteGuildChannelPermissionOverwrite cid ty tid)"
  "tx_rel (keeps keys_ok) (DeleteGuildChannelPermissionOverwrites cid)"
  "tx_rel (keeps keys_ok) (DeleteAllGuildChannelPermissionOverwrites gid)"
  "tx_rel (keeps keys_ok) (DeleteGuildChannelPermissionOverwritesForAppliesTo gid ty tid)"
  by (simp_all add: store_DeleteGuildChannelPermissionOverwrite_def DeleteGuildChannelPermissionOverwrites_def
      DeleteAllGuildChannelPermissionOverwrites_def DeleteGuildChannelPermissionOverwritesForAppliesTo_def
      keys_delete_overwrites)

lemma keys_invites [keys_rules]:
  "tx_rel (keeps keys_ok) (store_CreateGuildInvite invite)"
  "tx_rel (keeps keys_ok) (ConsumeGuildInvite code at)"
  "tx_rel (keeps keys_ok) (store_DeleteGuildInvite code)"
  "tx_rel (keeps keys_ok) (DeleteGuildInvites gid)"
  by (auto simp: keys_simps store_CreateGuildInvite_def ConsumeGuildInvite_def store_DeleteGuildInvite_def
      DeleteGuildInvites_def keys_ok_def Let_def split: sum.splits if_splits)

section \<open>Operations outside the abstract state\<close>

text \<open>
  Claims, profile projections and outbox writes leave the tables of the abstract state alone.
\<close>

definition core_eq :: "guild_db \<Rightarrow> guild_db \<Rightarrow> bool" where
  "core_eq s s' \<longleftrightarrow> db_guilds s' = db_guilds s \<and> db_members s' = db_members s \<and> db_roles s' = db_roles s
     \<and> db_member_roles s' = db_member_roles s \<and> db_channels s' = db_channels s \<and> db_overwrites s' = db_overwrites s
     \<and> db_bans s' = db_bans s \<and> db_invites s' = db_invites s"

named_theorems core_rules \<open>operations that leave the core tables alone\<close>

interpretation core: tx_contract core_eq
  by unfold_locales (auto simp: core_eq_def)

lemma core_eqD:
  assumes "core_eq s s'"
  shows "db_guilds s' = db_guilds s" "db_members s' = db_members s" "db_roles s' = db_roles s"
    "db_member_roles s' = db_member_roles s" "db_channels s' = db_channels s" "db_overwrites s' = db_overwrites s"
    "db_bans s' = db_bans s" "db_invites s' = db_invites s" "absdb s' = absdb s" "keys_ok s' = keys_ok s"
  using assms by (simp_all add: core_eq_def absdb_def keys_ok_def)

lemma core_claim_attempts: "tx_rel core_eq (claim_attempts n params)"
proof (induction n)
  case 0
  then show ?case by (simp add: core.rel_fail)
next
  case (Suc n)
  have del: "core_eq s (s\<lparr>db_idempotency := t\<rparr>)" for s t by (simp add: core_eq_def)
  show ?case unfolding tx_rel_def claim_attempts.simps Let_def
    by (auto split: if_splits option.splits intro: del core.R_trans[OF del] dest: tx_relD[OF Suc])
qed

lemma core_idempotency [core_rules]: "tx_rel core_eq (ClaimGuildIdempotency params)"
  by (simp add: ClaimGuildIdempotency_def core_claim_attempts)

lemma core_profiles [core_rules]:
  "tx_rel core_eq (UpsertGuildMemberProfile env p)"
  "tx_rel core_eq (UpdateGuildMemberProfilesByUser env p)"
  "tx_rel core_eq (UpdateGuildMemberProfilesByUserWithoutAvatar env p)"
  "tx_rel core_eq (UpdateGuildMemberProfileNickname env gid uid nick)"
  "tx_rel core_eq (DeleteGuildMemberProfile gid uid)"
  "tx_rel core_eq (DeleteGuildMemberProfiles gid)"
  by (auto simp: tx_rel_def UpsertGuildMemberProfile_def UpdateGuildMemberProfilesByUser_def tx_modify_def
      UpdateGuildMemberProfilesByUserWithoutAvatar_def UpdateGuildMemberProfileNickname_def Let_def
      DeleteGuildMemberProfile_def DeleteGuildMemberProfiles_def core_eq_def split: if_splits sum.splits)

lemma core_outbox [core_rules]:
  "tx_rel core_eq (EnsureGuildStream key sh)"
  "tx_rel core_eq (ReserveGuildSequences key n)"
  "tx_rel core_eq (InsertGuildOutbox recs)"
  "tx_rel core_eq NotifyOutbox"
  by (auto simp: tx_rel_def EnsureGuildStream_def ReserveGuildSequences_def InsertGuildOutbox_def NotifyOutbox_def
      tx_modify_def tx_return_def core_eq_def split: sum.splits)

lemma core_keys: "tx_rel core_eq m \<Longrightarrow> tx_rel (keeps keys_ok) m"
  by (auto simp: tx_rel_def dest: core_eqD(10))

lemmas core_keys_rules [keys_rules] = core_idempotency[THEN core_keys] core_profiles[THEN core_keys] core_outbox[THEN core_keys]

section \<open>Every store operation refines an abstract update\<close>

lemma lookup_map_same:
  "(\<And>r. key (h r) = key r \<and> live (h r) = live r \<and> val (h r) = val r) \<Longrightarrow> lookup key live val (map h t) = lookup key live val t"
  by (rule ext) (induction t, auto simp: lookup_def)

lemma guilds_of_bump [simp]: "guilds_of (db_guilds (bump_guild_access_revision gids s)) = guilds_of (db_guilds s)"
  by (simp add: guilds_of_def bump_guild_access_revision_def lookup_map_same)

lemma guilds_of_bump_owned [simp]:
  "guilds_of (db_guilds (bump_owned_guild_access_revision g g' s)) = guilds_of (db_guilds s)"
  by (simp add: bump_owned_guild_access_revision_def)

lemma absdb_bump [simp]:
  "absdb (bump_guild_access_revision gids s) = absdb s" "absdb (bump_owned_guild_access_revision g g' s) = absdb s"
  by (simp_all add: absdb_def bump_owned_guild_access_revision_def)

lemma absdb_sel [simp]:
  "sp_owner (absdb s) = guilds_of (db_guilds s)" "sp_members (absdb s) = members_of (db_members s)"
  "sp_roles (absdb s) = roles_of (db_roles s)" "sp_assigned (absdb s) = assigned_of (db_member_roles s)"
  "sp_channels (absdb s) = channels_of (db_channels s)" "sp_overwrites (absdb s) = overwrites_of (db_overwrites s)"
  "sp_banned (absdb s) = banned_of (db_bans s)"
  by (simp_all add: absdb_def)

lemma keys_okD:
  assumes "keys_ok s"
  shows "distinct (map g_ID (db_guilds s))" "distinct (map (\<lambda>m. (m_GuildID m, m_UserID m)) (db_members s))"
    "distinct (map r_ID (db_roles s))" "distinct (map c_ID (db_channels s))" "distinct (map o_key (db_overwrites s))"
  using assms by (simp_all add: keys_ok_def)

subsection \<open>Guilds\<close>

lemma CreateGuild_refines:
  assumes "store_CreateGuild gid owner name at s = Inr (g, s')"
  shows "absdb s' = (absdb s)\<lparr>sp_owner := (sp_owner (absdb s))(gid \<mapsto> owner)\<rparr>" "g_ID g = gid" "g_OwnerID g = owner"
    "sp_owner (absdb s) gid = None" "g_ID g > 0" "\<forall>q\<in>set (db_guilds s). g_ID q \<noteq> gid"
proof -
  have new: "\<forall>q\<in>set (db_guilds s). g_ID q \<noteq> g_ID g" and g: "g_ID g = gid" "g_OwnerID g = owner" "g_DeletedAt g = 0"
    and ok: "guild_row_ok g" and s': "s' = s\<lparr>db_guilds := db_guilds s @ [g]\<rparr>"
    using assms by (auto simp: store_CreateGuild_def Let_def insert_row_Inr split: sum.splits)
  show "g_ID g = gid" "g_OwnerID g = owner" by fact+
  show "g_ID g > 0" using ok by (simp add: guild_row_ok_def)
  show "\<forall>q\<in>set (db_guilds s). g_ID q \<noteq> gid" using new g(1) by simp
  show "sp_owner (absdb s) gid = None" using new g(1) by (auto simp: guilds_of_def lookup_eq_None)
  have "guilds_of (db_guilds s @ [g]) = (guilds_of (db_guilds s))(gid \<mapsto> owner)"
    unfolding guilds_of_def using lookup_append[OF new, of "\<lambda>g. g_DeletedAt g = 0" g_OwnerID] g by simp
  then show "absdb s' = (absdb s)\<lparr>sp_owner := (sp_owner (absdb s))(gid \<mapsto> owner)\<rparr>"
    by (simp add: s' absdb_def)
qed

lemma update_guild_refines:
  assumes keys: "keys_ok s" and upd: "update_guild p f s = Inr (g', s')"
    and key: "\<And>g. g_ID (f g) = g_ID g" and single: "\<And>g. p g \<Longrightarrow> g_ID g = gid"
  shows "\<exists>g\<in>set (db_guilds s). p g \<and> g' = f g \<and> absdb s' =
    (absdb s)\<lparr>sp_owner := (sp_owner (absdb s))(gid := if g_DeletedAt (f g) = 0 then Some (g_OwnerID (f g)) else None)\<rparr>"
proof -
  obtain g where g: "List.find p (db_guilds s) = Some g" "g' = f g"
    and s': "s' = bump_owned_guild_access_revision g g' (s\<lparr>db_guilds := tbl_update p f (db_guilds s)\<rparr>)"
    using upd by (auto simp: update_guild_def update_one_Inr split: option.splits sum.splits)
  have mem: "g \<in> set (db_guilds s)" "p g" using g(1) by (auto dest: find_SomeD)
  have "guilds_of (tbl_update p f (db_guilds s)) =
      (guilds_of (db_guilds s))(g_ID g := if g_DeletedAt (f g) = 0 then Some (g_OwnerID (f g)) else None)"
    unfolding guilds_of_def
    by (rule lookup_update_one) (use keys_okD(1)[OF keys] key mem single in auto)
  then show ?thesis using mem g(2) single[OF mem(2)] by (intro bexI[of _ g]) (simp_all add: s' absdb_def)
qed

lemma guilds_of_live: "keys_ok s \<Longrightarrow> guilds_of (db_guilds s) gid = Some owner \<longleftrightarrow>
    (\<exists>g\<in>set (db_guilds s). g_ID g = gid \<and> g_DeletedAt g = 0 \<and> owner = g_OwnerID g)"
  by (simp add: guilds_of_def lookup_eq_Some[OF keys_okD(1)])

lemma guild_metadata_refines:
  assumes keys: "keys_ok s" and upd: "update_guild p f s = Inr (g', s')"
    and key: "\<And>g. g_ID (f g) = g_ID g \<and> g_OwnerID (f g) = g_OwnerID g \<and> g_DeletedAt (f g) = g_DeletedAt g"
    and single: "\<And>g. p g \<Longrightarrow> g_ID g = gid \<and> g_DeletedAt g = 0"
  shows "absdb s' = absdb s" "g_ID g' = gid"
proof -
  have "\<exists>g\<in>set (db_guilds s). p g \<and> g' = f g \<and> absdb s' =
    (absdb s)\<lparr>sp_owner := (sp_owner (absdb s))(gid := if g_DeletedAt (f g) = 0 then Some (g_OwnerID (f g)) else None)\<rparr>"
    by (rule update_guild_refines[OF keys upd]) (use key single in auto)
  then obtain g where g: "g \<in> set (db_guilds s)" "p g" "g' = f g" and abs: "absdb s' =
    (absdb s)\<lparr>sp_owner := (sp_owner (absdb s))(gid := if g_DeletedAt (f g) = 0 then Some (g_OwnerID (f g)) else None)\<rparr>"
    by blast
  have gd: "g_ID g = gid" "g_DeletedAt g = 0" using single[OF g(2)] by auto
  have "guilds_of (db_guilds s) gid = Some (g_OwnerID g)" unfolding guilds_of_live[OF keys] using g(1) gd by auto
  then have "(sp_owner (absdb s))(gid := Some (g_OwnerID g)) = sp_owner (absdb s)" by (auto simp: fun_upd_idem_iff)
  then show "absdb s' = absdb s" using abs key gd by simp
  show "g_ID g' = gid" using g(3) key gd by simp
qed

lemma UpdateGuild_refines:
  assumes "keys_ok s" "store_UpdateGuild env gid name desc s = Inr (g, s')"
  shows "absdb s' = absdb s" "g_ID g = gid"
  using guild_metadata_refines[OF assms(1) assms(2)[unfolded store_UpdateGuild_def], of gid] by simp_all

lemma UpdateGuildIcon_refines:
  assumes "keys_ok s" "UpdateGuildIcon env gid asset s = Inr (g, s')"
  shows "absdb s' = absdb s" "g_ID g = gid"
  using guild_metadata_refines[OF assms(1) assms(2)[unfolded UpdateGuildIcon_def], of gid] by simp_all

lemma AdvanceLayout_refines:
  assumes "keys_ok s" "AdvanceGuildChannelLayoutRevision gid expected s = Inr (n, s')"
  shows "absdb s' = absdb s" "n = expected + 1"
proof -
  obtain g where u: "update_guild (\<lambda>g. live_guild gid g \<and> g_ChannelLayoutRevision g = expected)
      (\<lambda>g. g\<lparr>g_ChannelLayoutRevision := g_ChannelLayoutRevision g + 1\<rparr>) s = Inr (g, s')"
    and n: "n = g_ChannelLayoutRevision g"
    using assms(2) by (auto simp: AdvanceGuildChannelLayoutRevision_def tx_simps)
  show "absdb s' = absdb s" using guild_metadata_refines(1)[OF assms(1) u, of gid] by simp
  show "n = expected + 1"
    using u n by (auto simp: update_guild_def update_one_Inr dest!: find_SomeD split: option.splits sum.splits)
qed

lemma DeleteGuild_refines:
  assumes "keys_ok s" "0 < at" "store_DeleteGuild gid at s = Inr (g, s')"
  shows "absdb s' = (absdb s)\<lparr>sp_owner := (sp_owner (absdb s))(gid := None)\<rparr>" "g_ID g = gid"
  using update_guild_refines[OF assms(1) assms(3)[unfolded store_DeleteGuild_def], of gid] assms(2) by auto

lemma TransferGuildOwnership_refines:
  assumes "keys_ok s" "store_TransferGuildOwnership env gid old new s = Inr (g, s')"
  shows "absdb s' = (absdb s)\<lparr>sp_owner := (sp_owner (absdb s))(gid \<mapsto> new)\<rparr>" "sp_owner (absdb s) gid = Some old"
    "g_ID g = gid"
proof -
  obtain q where q: "q \<in> set (db_guilds s)" "g_ID q = gid" "g_OwnerID q = old" "g_DeletedAt q = 0"
    and g: "g_ID g = gid"
    and a: "absdb s' = (absdb s)\<lparr>sp_owner := (sp_owner (absdb s))(gid \<mapsto> new)\<rparr>"
    using update_guild_refines[OF assms(1) assms(2)[unfolded store_TransferGuildOwnership_def], of gid] by auto
  show "absdb s' = (absdb s)\<lparr>sp_owner := (sp_owner (absdb s))(gid \<mapsto> new)\<rparr>" "g_ID g = gid" by fact+
  show "sp_owner (absdb s) gid = Some old" using q guilds_of_live[OF assms(1), of gid old] by auto
qed

subsection \<open>Members\<close>

lemma CreateGuildMember_refines:
  assumes "CreateGuildMember gid uid at s = Inr (m, s')"
  shows "absdb s' = (absdb s)\<lparr>sp_members := insert (gid, uid) (sp_members (absdb s))\<rparr>"
    "(gid, uid) \<notin> sp_banned (absdb s)" "m_GuildID m = gid" "m_UserID m = uid" "m_Nickname m = []"
proof -
  let ?key = "\<lambda>m. m_GuildID m = gid \<and> m_UserID m = uid"
  let ?new = "\<lparr>m_GuildID = gid, m_UserID = uid, m_Nickname = [], m_Revision = 1, m_JoinedAt = at, m_UpdatedAt = 0, m_DeletedAt = 0\<rparr>"
  let ?re = "\<lambda>m. m\<lparr>m_Nickname := [], m_Revision := m_Revision m + 1, m_JoinedAt := at, m_UpdatedAt := at, m_DeletedAt := 0\<rparr>"
  have ban: "\<not> list_ex (\<lambda>b. b_GuildID b = gid \<and> b_UserID b = uid) (db_bans s)"
    using assms by (auto simp: CreateGuildMember_def Let_def split: if_splits)
  then show "(gid, uid) \<notin> sp_banned (absdb s)" by (auto simp: banned_of_def live_keys_def list_ex_iff)
  consider (new) "m = ?new" "s' = bump_guild_access_revision [gid] (s\<lparr>db_members := db_members s @ [?new]\<rparr>)"
    | (rejoin) r where "r \<in> set (db_members s)" "?key r" "m = ?re r"
      "s' = bump_guild_access_revision [gid] (s\<lparr>db_members := tbl_update ?key ?re (db_members s)\<rparr>)"
    using assms ban by (auto simp: CreateGuildMember_def Let_def update_one_Inr dest!: find_SomeD
        split: option.splits if_splits sum.splits)
  then have "m_GuildID m = gid \<and> m_UserID m = uid \<and> m_Nickname m = []
    \<and> absdb s' = (absdb s)\<lparr>sp_members := insert (gid, uid) (sp_members (absdb s))\<rparr>"
  proof cases
    case new
    then show ?thesis by (simp add: absdb_def members_of_def live_keys_append)
  next
    case rejoin
    have "members_of (tbl_update ?key ?re (db_members s)) = insert (m_GuildID r, m_UserID r) (members_of (db_members s))"
      unfolding members_of_def by (rule live_keys_add) (use rejoin in auto)
    then show ?thesis using rejoin by (simp add: absdb_def)
  qed
  then show "absdb s' = (absdb s)\<lparr>sp_members := insert (gid, uid) (sp_members (absdb s))\<rparr>" "m_GuildID m = gid"
    "m_UserID m = uid" "m_Nickname m = []" by simp_all
qed

lemma members_of_deactivate:
  assumes "0 < at" "\<And>m. p m \<longleftrightarrow> P (m_GuildID m, m_UserID m) \<and> m_DeletedAt m = 0"
  shows "members_of (tbl_update p (\<lambda>m. m\<lparr>m_Revision := m_Revision m + 1, m_UpdatedAt := at, m_DeletedAt := at\<rparr>) t)
    = {k \<in> members_of t. \<not> P k}"
  unfolding members_of_def by (rule live_keys_drop) (use assms in auto)

lemma UpdateGuildMemberNickname_refines:
  assumes "UpdateGuildMemberNickname env gid uid nick s = Inr (m, s')"
  shows "absdb s' = absdb s" "m_GuildID m = gid" "m_UserID m = uid"
proof -
  obtain r where "r \<in> set (db_members s)" "active_member gid uid r"
    "m = r\<lparr>m_Nickname := nick, m_Revision := m_Revision r + 1, m_UpdatedAt := e_store_now env\<rparr>"
    and s': "s' = s\<lparr>db_members := tbl_update (active_member gid uid)
      (\<lambda>m. m\<lparr>m_Nickname := nick, m_Revision := m_Revision m + 1, m_UpdatedAt := e_store_now env\<rparr>) (db_members s)\<rparr>"
    using assms by (auto simp: UpdateGuildMemberNickname_def update_one_Inr dest!: find_SomeD split: sum.splits)
  then show "m_GuildID m = gid" "m_UserID m = uid" by simp_all
  have "members_of (db_members s') = members_of (db_members s)"
    by (simp add: s' members_of_def live_keys_same)
  then show "absdb s' = absdb s" by (simp add: absdb_def s')
qed

lemma RemoveGuildMember_refines:
  assumes "0 < at" "RemoveGuildMember gid uid at s = Inr (m, s')"
  shows "absdb s' = (absdb s)\<lparr>sp_members := sp_members (absdb s) - {(gid, uid)}\<rparr>" "(gid, uid) \<in> sp_members (absdb s)"
    "m_GuildID m = gid" "m_UserID m = uid"
proof -
  obtain r where r: "r \<in> set (db_members s)" "active_member gid uid r"
    and m: "m_GuildID m = m_GuildID r" "m_UserID m = m_UserID r"
    and s': "s' = bump_guild_access_revision [gid] (s\<lparr>db_members := tbl_update (active_member gid uid)
      (\<lambda>m. m\<lparr>m_Revision := m_Revision m + 1, m_UpdatedAt := at, m_DeletedAt := at\<rparr>) (db_members s)\<rparr>)"
    using assms(2) by (auto simp: RemoveGuildMember_def update_one_Inr dest!: find_SomeD split: sum.splits)
  show "m_GuildID m = gid" "m_UserID m = uid" using r m by simp_all
  show "(gid, uid) \<in> sp_members (absdb s)" using r by (auto simp: members_of_def live_keys_def)
  have "members_of (db_members s') = {k \<in> members_of (db_members s). \<not> k = (gid, uid)}"
    unfolding s' by simp (rule members_of_deactivate[OF assms(1)], auto)
  also have "\<dots> = members_of (db_members s) - {(gid, uid)}" by auto
  finally show "absdb s' = (absdb s)\<lparr>sp_members := sp_members (absdb s) - {(gid, uid)}\<rparr>"
    by (simp add: absdb_def s')
qed

lemma DeleteGuildMembers_refines:
  assumes "0 < at" "DeleteGuildMembers gid at s = Inr (u, s')"
  shows "absdb s' = (absdb s)\<lparr>sp_members := {k \<in> sp_members (absdb s). fst k \<noteq> gid}\<rparr>"
proof -
  have "members_of (db_members s') = {k \<in> members_of (db_members s). \<not> fst k = gid}"
    using assms(2) members_of_deactivate[OF assms(1), of "\<lambda>m. m_GuildID m = gid \<and> m_DeletedAt m = 0" "\<lambda>k. fst k = gid"]
    by (auto simp: DeleteGuildMembers_def Let_def update_rows_Inr split: sum.splits)
  then show ?thesis using assms(2) by (auto simp: DeleteGuildMembers_def Let_def update_rows_Inr absdb_def split: sum.splits)
qed

subsection \<open>Bans\<close>

lemma UpsertGuildBan_refines:
  assumes "UpsertGuildBan ban s = Inr (b, s')"
  shows "absdb s' = (absdb s)\<lparr>sp_banned := insert (b_GuildID ban, b_UserID ban) (sp_banned (absdb s))\<rparr>"
    "b_GuildID b = b_GuildID ban" "b_UserID b = b_UserID ban" "b_ActorUserID b = b_ActorUserID ban"
proof -
  let ?f = "\<lambda>b. b\<lparr>b_ActorUserID := b_ActorUserID ban, b_Reason := b_Reason ban, b_CreatedAt := b_CreatedAt ban\<rparr>"
  let ?p = "ban_of (b_GuildID ban) (b_UserID ban)"
  have "absdb s' = (absdb s)\<lparr>sp_banned := insert (b_GuildID ban, b_UserID ban) (sp_banned (absdb s))\<rparr>
    \<and> b_GuildID b = b_GuildID ban \<and> b_UserID b = b_UserID ban \<and> b_ActorUserID b = b_ActorUserID ban"
  proof (cases "list_ex ?p (db_bans s)")
    case False
    then have "b = ban" "s' = s\<lparr>db_bans := db_bans s @ [ban]\<rparr>"
      using assms by (auto simp: UpsertGuildBan_def Let_def split: if_splits)
    then show ?thesis by (simp add: absdb_def banned_of_def live_keys_append)
  next
    case True
    obtain r where r: "List.find ?p (db_bans s) = Some r" "b = ?f r"
      and s': "s' = s\<lparr>db_bans := tbl_update ?p ?f (db_bans s)\<rparr>"
      using assms True by (simp add: UpsertGuildBan_def Let_def split: if_splits sum.splits) (auto simp: update_one_Inr)
    have rp: "r \<in> set (db_bans s)" "?p r" using r(1) by (auto dest: find_SomeD)
    have "banned_of (tbl_update ?p ?f (db_bans s)) = banned_of (db_bans s)"
      by (simp add: banned_of_def live_keys_same)
    moreover have "(b_GuildID ban, b_UserID ban) \<in> banned_of (db_bans s)" using rp by (auto simp: banned_of_def live_keys_def)
    ultimately show ?thesis using rp r(2) s' by (simp add: absdb_def insert_absorb)
  qed
  then show "absdb s' = (absdb s)\<lparr>sp_banned := insert (b_GuildID ban, b_UserID ban) (sp_banned (absdb s))\<rparr>"
    "b_GuildID b = b_GuildID ban" "b_UserID b = b_UserID ban" "b_ActorUserID b = b_ActorUserID ban" by simp_all
qed

lemma DeleteGuildBan_refines:
  assumes "DeleteGuildBan gid uid s = Inr (u, s')"
  shows "absdb s' = (absdb s)\<lparr>sp_banned := sp_banned (absdb s) - {(gid, uid)}\<rparr>" "(gid, uid) \<in> sp_banned (absdb s)"
  using assms by (auto simp: DeleteGuildBan_def absdb_def banned_of_def live_keys_def tbl_simps list_ex_iff split: if_splits)

lemma DeleteGuildBans_refines:
  assumes "DeleteGuildBans gid s = Inr (u, s')"
  shows "absdb s' = (absdb s)\<lparr>sp_banned := {k \<in> sp_banned (absdb s). fst k \<noteq> gid}\<rparr>"
  using assms by (auto simp: DeleteGuildBans_def tx_modify_def absdb_def banned_of_def live_keys_def tbl_simps)

end
