(* ===== verification/Guild_Refine.thy ===== *)
theory Guild_Refine
  imports Guild_Spec
begin

text \<open>
  Refinement of the store operations on roles, assignments, channels and overwrites, and what the
  store's queries return in terms of the abstract state.
\<close>

section \<open>Roles\<close>

lemma role_info_of_simps [simp]:
  "ri_guild (role_info_of r) = r_GuildID r" "ri_perms (role_info_of r) = r_Permissions r"
  "ri_pos (role_info_of r) = r_Position r" "ri_default (role_info_of r) = r_IsDefault r"
  by (simp_all add: role_info_of_def)

lemma roles_of_live: "keys_ok s \<Longrightarrow> roles_of (db_roles s) rid = Some i \<longleftrightarrow>
    (\<exists>r\<in>set (db_roles s). r_ID r = rid \<and> r_DeletedAt r = 0 \<and> i = role_info_of r)"
  by (simp add: roles_of_def lookup_eq_Some[OF keys_okD(3)])

lemma insert_role_refines:
  assumes "insert_role r s = Inr (q, s')" "r_DeletedAt r = 0"
  shows "absdb s' = (absdb s)\<lparr>sp_roles := (sp_roles (absdb s))(r_ID r \<mapsto> role_info_of r)\<rparr>" "q = r"
    "\<forall>x\<in>set (db_roles s). r_ID x \<noteq> r_ID r" "role_row_ok r"
proof -
  have new: "\<forall>q\<in>set (db_roles s). \<not> role_clash r q" and q: "q = r" and ok: "role_row_ok r"
    and s': "s' = bump_guild_access_revision [r_GuildID r] (s\<lparr>db_roles := db_roles s @ [r]\<rparr>)"
    using assms by (auto simp: insert_role_def insert_row_Inr split: sum.splits)
  show "q = r" "role_row_ok r" by fact+
  show ids: "\<forall>x\<in>set (db_roles s). r_ID x \<noteq> r_ID r" using new by (auto simp: role_clash_def)
  have "roles_of (db_roles s @ [r]) = (roles_of (db_roles s))(r_ID r \<mapsto> role_info_of r)"
    unfolding roles_of_def by (rule lookup_append) (use ids assms(2) in auto)
  then show "absdb s' = (absdb s)\<lparr>sp_roles := (sp_roles (absdb s))(r_ID r \<mapsto> role_info_of r)\<rparr>"
    by (simp add: s' absdb_def)
qed

lemma CreateDefaultRole_refines:
  assumes "CreateDefaultRole gid at s = Inr (u, s')"
  shows "absdb s' = (absdb s)\<lparr>sp_roles := (sp_roles (absdb s))
      (gid \<mapsto> \<lparr>ri_guild = gid, ri_perms = 1120, ri_pos = 0, ri_default = True\<rparr>)\<rparr>"
    "sp_roles (absdb s) gid = None"
proof -
  obtain q where q: "insert_role \<lparr>r_ID = gid, r_GuildID = gid, r_Name = str ''@everyone'', r_Permissions = 1120,
         r_Position = 0, r_IsDefault = True, r_Revision = 1, r_CreatedAt = at, r_UpdatedAt = 0, r_DeletedAt = 0\<rparr> s = Inr (q, s')"
    using assms by (auto simp: CreateDefaultRole_def tx_simps)
  show "absdb s' = (absdb s)\<lparr>sp_roles := (sp_roles (absdb s))
      (gid \<mapsto> \<lparr>ri_guild = gid, ri_perms = 1120, ri_pos = 0, ri_default = True\<rparr>)\<rparr>"
    using insert_role_refines(1)[OF q] by (simp add: role_info_of_def)
  show "sp_roles (absdb s) gid = None" using insert_role_refines(3)[OF q] by (auto simp: roles_of_def lookup_eq_None)
qed

lemma CreateGuildRole_refines:
  assumes "store_CreateGuildRole rid gid name ps pos at s = Inr (r, s')"
  shows "absdb s' = (absdb s)\<lparr>sp_roles := (sp_roles (absdb s))
      (rid \<mapsto> \<lparr>ri_guild = gid, ri_perms = ps, ri_pos = pos, ri_default = False\<rparr>)\<rparr>"
    "r_ID r = rid" "r_GuildID r = gid" "\<not> r_IsDefault r" "r_Position r = pos" "r_Permissions r = ps" "sp_roles (absdb s) rid = None"
    "\<forall>x\<in>set (db_roles s). r_ID x \<noteq> rid"
proof -
  note i = assms[unfolded store_CreateGuildRole_def]
  show "absdb s' = (absdb s)\<lparr>sp_roles := (sp_roles (absdb s))
      (rid \<mapsto> \<lparr>ri_guild = gid, ri_perms = ps, ri_pos = pos, ri_default = False\<rparr>)\<rparr>"
    using insert_role_refines(1)[OF i] by (simp add: role_info_of_def)
  show "r_ID r = rid" "r_GuildID r = gid" "\<not> r_IsDefault r" "r_Position r = pos" "r_Permissions r = ps"
    using insert_role_refines(2)[OF i] by simp_all
  show "sp_roles (absdb s) rid = None" "\<forall>x\<in>set (db_roles s). r_ID x \<noteq> rid"
    using insert_role_refines(3)[OF i] by (auto simp: roles_of_def lookup_eq_None)
qed

lemma GetGuildRole_refines:
  assumes "keys_ok s" "store_GetGuildRole gid rid s = Inr (r, s')"
  shows "s' = s" "sp_roles (absdb s) rid = Some (role_info_of r)" "r_GuildID r = gid" "r_ID r = rid" "r \<in> set (db_roles s)"
    "r_DeletedAt r = 0"
proof -
  have r: "r \<in> set (db_roles s)" "live_role gid rid r" and s: "s' = s"
    using assms(2) by (auto simp: store_GetGuildRole_def tx_query_Inr select_one_Inr dest: find_SomeD)
  show "s' = s" "r_GuildID r = gid" "r_ID r = rid" "r \<in> set (db_roles s)" "r_DeletedAt r = 0" using r s by simp_all
  have "roles_of (db_roles s) rid = Some (role_info_of r)" unfolding roles_of_live[OF assms(1)] using r by auto
  then show "sp_roles (absdb s) rid = Some (role_info_of r)" by simp
qed

lemma UpdateGuildRole_refines:
  assumes keys: "keys_ok s" and upd: "store_UpdateGuildRole gid rid name ps at s = Inr (r, s')"
  shows "\<exists>i. sp_roles (absdb s) rid = Some i \<and> ri_guild i = gid \<and> absdb s' =
      (absdb s)\<lparr>sp_roles := (sp_roles (absdb s))(rid \<mapsto> i\<lparr>ri_perms := case ps of Some p \<Rightarrow> p | None \<Rightarrow> ri_perms i\<rparr>)\<rparr>"
    "r_GuildID r = gid"
proof -
  let ?f = "\<lambda>r. r\<lparr>r_Name := (case name of Some n \<Rightarrow> n | None \<Rightarrow> r_Name r),
                  r_Permissions := (case ps of Some p \<Rightarrow> p | None \<Rightarrow> r_Permissions r),
                  r_Revision := r_Revision r + 1, r_UpdatedAt := at\<rparr>"
  obtain q where q: "q \<in> set (db_roles s)" "live_role gid rid q" "r = ?f q"
    and s': "s' = bump_guild_access_revision [gid] (s\<lparr>db_roles := tbl_update (live_role gid rid) ?f (db_roles s)\<rparr>)"
    using upd by (auto simp: store_UpdateGuildRole_def update_one_Inr dest!: find_SomeD split: sum.splits)
  show "r_GuildID r = gid" using q by simp
  have "roles_of (tbl_update (live_role gid rid) ?f (db_roles s)) =
      (roles_of (db_roles s))(r_ID q := if r_DeletedAt (?f q) = 0 then Some (role_info_of (?f q)) else None)"
    unfolding roles_of_def by (rule lookup_update_one) (use keys_okD(3)[OF keys] q in auto)
  moreover have "roles_of (db_roles s) rid = Some (role_info_of q)" unfolding roles_of_live[OF keys] using q by auto
  ultimately show "\<exists>i. sp_roles (absdb s) rid = Some i \<and> ri_guild i = gid \<and> absdb s' =
      (absdb s)\<lparr>sp_roles := (sp_roles (absdb s))(rid \<mapsto> i\<lparr>ri_perms := case ps of Some p \<Rightarrow> p | None \<Rightarrow> ri_perms i\<rparr>)\<rparr>"
    using q by (intro exI[of _ "role_info_of q"]) (simp add: s' absdb_def role_info_of_def split: option.splits)
qed

lemma DeleteGuildRole_refines:
  assumes keys: "keys_ok s" and "0 < at" and upd: "store_DeleteGuildRole gid rid at s = Inr (r, s')"
  shows "absdb s' = (absdb s)\<lparr>sp_roles := (sp_roles (absdb s))(rid := None)\<rparr>" "r_GuildID r = gid"
proof -
  let ?f = "\<lambda>r. r\<lparr>r_Revision := r_Revision r + 1, r_UpdatedAt := at, r_DeletedAt := at\<rparr>"
  let ?p = "\<lambda>r. live_role gid rid r \<and> \<not> r_IsDefault r"
  obtain q where q: "q \<in> set (db_roles s)" "?p q" "r = ?f q"
    and s': "s' = bump_guild_access_revision [gid] (s\<lparr>db_roles := tbl_update ?p ?f (db_roles s)\<rparr>)"
    using upd by (auto simp: store_DeleteGuildRole_def update_one_Inr dest!: find_SomeD split: sum.splits)
  show "r_GuildID r = gid" using q by simp
  have "roles_of (tbl_update ?p ?f (db_roles s)) =
      (roles_of (db_roles s))(r_ID q := if r_DeletedAt (?f q) = 0 then Some (role_info_of (?f q)) else None)"
    unfolding roles_of_def by (rule lookup_update_one) (use keys_okD(3)[OF keys] q in auto)
  then show "absdb s' = (absdb s)\<lparr>sp_roles := (sp_roles (absdb s))(rid := None)\<rparr>" using q assms(2) by (simp add: s' absdb_def)
qed

lemma DeleteGuildRoles_refines:
  assumes keys: "keys_ok s" and "0 < at" and upd: "DeleteGuildRoles gid at s = Inr (u, s')"
  shows "absdb s' = (absdb s)\<lparr>sp_roles := map_without (\<lambda>_ i. ri_guild i = gid) (sp_roles (absdb s))\<rparr>"
proof -
  have "roles_of (db_roles s') = map_without (\<lambda>_ i. ri_guild i = gid) (roles_of (db_roles s))"
    using upd unfolding roles_of_def
    by (auto simp: DeleteGuildRoles_def Let_def update_rows_Inr split: sum.splits)
      (rule lookup_update_drop; use keys_okD(3)[OF keys] assms(2) in auto)
  then show ?thesis using upd by (auto simp: DeleteGuildRoles_def Let_def update_rows_Inr absdb_def split: sum.splits)
qed

lemma lookup_update_map:
  assumes dist: "distinct (map key t)" and keep: "\<And>r. key (f r) = key r \<and> live (f r) = live r"
    and val: "\<And>r. r \<in> set t \<Longrightarrow> live r \<Longrightarrow> val (if p r then f r else r) = h (key r) (val r)"
  shows "lookup key live val (tbl_update p f t) = (\<lambda>k. map_option (h k) (lookup key live val t k))"
proof (rule map_eqI)
  fix k v
  have dist': "distinct (map key (tbl_update p f t))" by (rule distinct_map_tbl_update[OF dist]) (use keep in auto)
  have "(if p r then key (f r) = k \<and> live (f r) \<and> v = val (f r) else key r = k \<and> live r \<and> v = val r)
      \<longleftrightarrow> key r = k \<and> live r \<and> v = h k (val r)" if "r \<in> set t" for r
    using keep[of r] val[OF that] by (cases "p r") auto
  then have "(\<exists>r\<in>set t. if p r then key (f r) = k \<and> live (f r) \<and> v = val (f r) else key r = k \<and> live r \<and> v = val r)
      \<longleftrightarrow> (\<exists>r\<in>set t. key r = k \<and> live r \<and> v = h k (val r))"
    by (rule bex_cong[OF refl])
  then show "lookup key live val (tbl_update p f t) k = Some v \<longleftrightarrow> map_option (h k) (lookup key live val t k) = Some v"
    unfolding lookup_eq_Some[OF dist'] ex_tbl_update
    by (auto simp: lookup_eq_Some[OF dist])
qed

text \<open>New positions for the non-default live roles of one guild.\<close>

definition reposition :: "int64 \<Rightarrow> (int64 \<rightharpoonup> int32) \<Rightarrow> (int64 \<rightharpoonup> role_info) \<Rightarrow> int64 \<rightharpoonup> role_info" where
  "reposition gid req roles rid = map_option
     (\<lambda>i. case req rid of Some p \<Rightarrow> if ri_guild i = gid \<and> \<not> ri_default i then i\<lparr>ri_pos := p\<rparr> else i | None \<Rightarrow> i) (roles rid)"

lemma UpdateGuildRolePositions_refines:
  assumes keys: "keys_ok s" and upd: "UpdateGuildRolePositions gid rids poss at s = Inr (rs, s')"
    and len: "length rids = length poss"
  shows "absdb s' = (absdb s)\<lparr>sp_roles := reposition gid (map_of (zip rids poss)) (sp_roles (absdb s))\<rparr>"
    "set rs \<subseteq> set (db_roles s')" "\<forall>r\<in>set rs. r_GuildID r = gid"
proof -
  define req where "req = map_of (zip rids poss)"
  let ?p = "\<lambda>r. r_GuildID r = gid \<and> req (r_ID r) \<noteq> None \<and> \<not> r_IsDefault r \<and> r_DeletedAt r = 0"
  let ?f = "\<lambda>r. r\<lparr>r_Position := the (req (r_ID r)), r_Revision := r_Revision r + 1, r_UpdatedAt := at\<rparr>"
  have "absdb s' = (absdb s)\<lparr>sp_roles := reposition gid req (sp_roles (absdb s))\<rparr>
    \<and> set rs \<subseteq> set (db_roles s') \<and> (\<forall>r\<in>set rs. r_GuildID r = gid)"
  proof (cases "rids = []")
    case True
    then have "reposition gid req m = m" for m
      by (rule_tac ext) (simp add: reposition_def req_def option.map_ident)
    then show ?thesis using True upd by (simp add: UpdateGuildRolePositions_def tx_return_def)
  next
    case False
    have "(case update_rows role_row_ok ?p ?f (db_roles s) of Inl e \<Rightarrow> Inl e
         | Inr t \<Rightarrow> Inr (tbl_returning ?p ?f (db_roles s), s\<lparr>db_roles := t\<rparr>)) = Inr (rs, s')"
      using upd False len unfolding UpdateGuildRolePositions_def Let_def req_def[symmetric] by simp
    then have s': "s' = s\<lparr>db_roles := tbl_update ?p ?f (db_roles s)\<rparr>" and rs: "rs = tbl_returning ?p ?f (db_roles s)"
      by (auto simp: update_rows_Inr split: sum.splits)
    have "roles_of (tbl_update ?p ?f (db_roles s)) = (\<lambda>rid. map_option
       (\<lambda>i. case req rid of Some p \<Rightarrow> if ri_guild i = gid \<and> \<not> ri_default i then i\<lparr>ri_pos := p\<rparr> else i | None \<Rightarrow> i)
       (roles_of (db_roles s) rid))"
      unfolding roles_of_def
      by (rule lookup_update_map[OF keys_okD(3)[OF keys]]) (auto simp: role_info_of_def split: option.splits)
    then have "absdb s' = (absdb s)\<lparr>sp_roles := reposition gid req (sp_roles (absdb s))\<rparr>"
      by (simp add: s' absdb_def reposition_def[abs_def])
    moreover have "set rs \<subseteq> set (db_roles s')" "\<forall>r\<in>set rs. r_GuildID r = gid"
      by (auto simp: rs s' tbl_returning_def tbl_update_def)
    ultimately show ?thesis by blast
  qed
  then show "absdb s' = (absdb s)\<lparr>sp_roles := reposition gid (map_of (zip rids poss)) (sp_roles (absdb s))\<rparr>"
    "set rs \<subseteq> set (db_roles s')" "\<forall>r\<in>set rs. r_GuildID r = gid" unfolding req_def by blast+
qed

section \<open>Assignments\<close>

lemma AddGuildMemberRole_refines:
  assumes "store_AddGuildMemberRole gid uid rid at s = Inr (u, s')"
  shows "absdb s' = (absdb s)\<lparr>sp_assigned := insert (gid, uid, rid) (sp_assigned (absdb s))\<rparr>"
proof (cases "list_ex (\<lambda>x. mr_GuildID x = gid \<and> mr_UserID x = uid \<and> mr_RoleID x = rid) (db_member_roles s)")
  case True
  then have "s' = s" using assms by (auto simp: store_AddGuildMemberRole_def Let_def split: if_splits)
  moreover have "(gid, uid, rid) \<in> assigned_of (db_member_roles s)"
    using True by (auto simp: assigned_of_def live_keys_def list_ex_iff)
  ultimately show ?thesis by (simp add: absdb_def insert_absorb)
next
  case False
  then show ?thesis using assms
    by (auto simp: store_AddGuildMemberRole_def Let_def absdb_def assigned_of_def live_keys_append split: if_splits)
qed

lemma delete_member_roles_refines:
  assumes "delete_member_roles p s = Inr (u, s')" "\<And>x. p x \<longleftrightarrow> P (mr_GuildID x, mr_UserID x, mr_RoleID x)"
  shows "absdb s' = (absdb s)\<lparr>sp_assigned := {k \<in> sp_assigned (absdb s). \<not> P k}\<rparr>"
proof -
  have "assigned_of (tbl_delete p (db_member_roles s)) = {k \<in> assigned_of (db_member_roles s). \<not> P k}"
    unfolding assigned_of_def by (rule live_keys_delete[where P = P]) (rule assms(2))
  moreover have "s' = bump_guild_access_revision (map mr_GuildID (filter p (db_member_roles s)))
       (s\<lparr>db_member_roles := tbl_delete p (db_member_roles s)\<rparr>)"
    using assms(1) by (simp add: delete_member_roles_def tx_modify_def)
  ultimately show ?thesis by (simp add: absdb_def)
qed

lemma RemoveGuildMemberRole_refines:
  "store_RemoveGuildMemberRole gid uid rid s = Inr (u, s') \<Longrightarrow>
     absdb s' = (absdb s)\<lparr>sp_assigned := {k \<in> sp_assigned (absdb s). \<not> k = (gid, uid, rid)}\<rparr>"
  unfolding store_RemoveGuildMemberRole_def by (erule delete_member_roles_refines) simp

lemma DeleteGuildMemberRoleAssignments_refines:
  "DeleteGuildMemberRoleAssignments gid uid s = Inr (u, s') \<Longrightarrow>
     absdb s' = (absdb s)\<lparr>sp_assigned := {k \<in> sp_assigned (absdb s). \<not> (fst k = gid \<and> fst (snd k) = uid)}\<rparr>"
  unfolding DeleteGuildMemberRoleAssignments_def by (erule delete_member_roles_refines) simp

lemma DeleteGuildRoleAssignments_refines:
  "DeleteGuildRoleAssignments gid rid s = Inr (u, s') \<Longrightarrow>
     absdb s' = (absdb s)\<lparr>sp_assigned := {k \<in> sp_assigned (absdb s). \<not> (fst k = gid \<and> snd (snd k) = rid)}\<rparr>"
  unfolding DeleteGuildRoleAssignments_def by (erule delete_member_roles_refines) simp

lemma DeleteAllGuildRoleAssignments_refines:
  "DeleteAllGuildRoleAssignments gid s = Inr (u, s') \<Longrightarrow>
     absdb s' = (absdb s)\<lparr>sp_assigned := {k \<in> sp_assigned (absdb s). \<not> fst k = gid}\<rparr>"
  unfolding DeleteAllGuildRoleAssignments_def by (erule delete_member_roles_refines) simp

section \<open>Channels\<close>

lemma chan_info_of_simps [simp]:
  "ci_guild (chan_info_of c) = c_GuildID c" "ci_type (chan_info_of c) = c_Type c" "ci_parent (chan_info_of c) = c_ParentID c"
  by (simp_all add: chan_info_of_def)

lemma channels_of_live: "keys_ok s \<Longrightarrow> channels_of (db_channels s) cid = Some i \<longleftrightarrow>
    (\<exists>c\<in>set (db_channels s). c_ID c = cid \<and> c_DeletedAt c = 0 \<and> i = chan_info_of c)"
  by (simp add: channels_of_def lookup_eq_Some[OF keys_okD(4)])

lemma CreateGuildChannel_refines:
  assumes "store_CreateGuildChannel cid gid name ty pos topic par at s = Inr (c, s')"
  shows "absdb s' = (absdb s)\<lparr>sp_channels := (sp_channels (absdb s))
      (cid \<mapsto> \<lparr>ci_guild = gid, ci_type = ty, ci_parent = par\<rparr>)\<rparr>"
    "c_ID c = cid" "c_GuildID c = gid" "c_Type c = ty" "c_Position c = pos" "c_ParentID c = par" "c_DeletedAt c = 0"
    "\<forall>d\<in>set (db_channels s). c_ID d \<noteq> cid"
    "s' = bump_guild_access_revision [gid] (s\<lparr>db_channels := db_channels s @ [c]\<rparr>)"
proof -
  have c: "c = \<lparr>c_ID = cid, c_GuildID = gid, c_Name = name, c_Type = ty, c_Position = pos,
              c_Topic = topic, c_Revision = 1, c_CreatedAt = at, c_UpdatedAt = 0, c_DeletedAt = 0, c_ParentID = par\<rparr>"
    and new: "\<forall>d\<in>set (db_channels s). c_ID c \<noteq> c_ID d"
    and s': "s' = bump_guild_access_revision [gid] (s\<lparr>db_channels := db_channels s @ [c]\<rparr>)"
    using assms by (auto simp: store_CreateGuildChannel_def Let_def insert_row_Inr split: sum.splits)
  show "c_ID c = cid" "c_GuildID c = gid" "c_Type c = ty" "c_Position c = pos" "c_ParentID c = par" "c_DeletedAt c = 0"
    "\<forall>d\<in>set (db_channels s). c_ID d \<noteq> cid" using c new by auto
  show "s' = bump_guild_access_revision [gid] (s\<lparr>db_channels := db_channels s @ [c]\<rparr>)" by fact
  have "channels_of (db_channels s @ [c]) = (channels_of (db_channels s))(c_ID c \<mapsto> chan_info_of c)"
    unfolding channels_of_def by (rule lookup_append) (use new c in auto)
  then show "absdb s' = (absdb s)\<lparr>sp_channels := (sp_channels (absdb s))
      (cid \<mapsto> \<lparr>ci_guild = gid, ci_type = ty, ci_parent = par\<rparr>)\<rparr>"
    by (simp add: s' absdb_def c chan_info_of_def)
qed

lemma GetGuildChannel_refines:
  assumes "keys_ok s" "store_GetGuildChannel cid s = Inr (c, s')"
  shows "s' = s" "sp_channels (absdb s) cid = Some (chan_info_of c)" "c_ID c = cid" "c \<in> set (db_channels s)" "c_DeletedAt c = 0"
proof -
  have c: "c \<in> set (db_channels s)" "live_channel cid c" and s: "s' = s"
    using assms(2) by (auto simp: store_GetGuildChannel_def tx_query_Inr select_one_Inr dest: find_SomeD)
  show "s' = s" "c_ID c = cid" "c \<in> set (db_channels s)" "c_DeletedAt c = 0" using c s by simp_all
  have "channels_of (db_channels s) cid = Some (chan_info_of c)" unfolding channels_of_live[OF assms(1)] using c by auto
  then show "sp_channels (absdb s) cid = Some (chan_info_of c)" by simp
qed

lemma UpdateGuildChannel_refines:
  assumes keys: "keys_ok s" and upd: "store_UpdateGuildChannel cid nm tp pr at s = Inr (c, s')"
  shows "\<exists>i. sp_channels (absdb s) cid = Some i \<and> c_GuildID c = ci_guild i \<and> absdb s' = (absdb s)\<lparr>sp_channels :=
      (sp_channels (absdb s))(cid \<mapsto> i\<lparr>ci_parent := case pr of Some p \<Rightarrow> p | None \<Rightarrow> ci_parent i\<rparr>)\<rparr>"
    "c_ID c = cid"
proof -
  let ?f = "\<lambda>c. c\<lparr>c_Name := (case nm of Some n \<Rightarrow> n | None \<Rightarrow> c_Name c),
                  c_Topic := (case tp of Some t \<Rightarrow> t | None \<Rightarrow> c_Topic c),
                  c_ParentID := (case pr of Some p \<Rightarrow> p | None \<Rightarrow> c_ParentID c),
                  c_Revision := c_Revision c + 1, c_UpdatedAt := at\<rparr>"
  obtain q where q: "q \<in> set (db_channels s)" "live_channel cid q" "c = ?f q"
    and s': "s' = s\<lparr>db_channels := tbl_update (live_channel cid) ?f (db_channels s)\<rparr>"
    using upd by (auto simp: store_UpdateGuildChannel_def update_one_Inr dest!: find_SomeD split: sum.splits)
  show "c_ID c = cid" using q by simp
  have "channels_of (tbl_update (live_channel cid) ?f (db_channels s)) =
      (channels_of (db_channels s))(c_ID q := if c_DeletedAt (?f q) = 0 then Some (chan_info_of (?f q)) else None)"
    unfolding channels_of_def by (rule lookup_update_one) (use keys_okD(4)[OF keys] q in auto)
  moreover have "channels_of (db_channels s) cid = Some (chan_info_of q)" unfolding channels_of_live[OF keys] using q by auto
  ultimately show "\<exists>i. sp_channels (absdb s) cid = Some i \<and> c_GuildID c = ci_guild i \<and> absdb s' = (absdb s)\<lparr>sp_channels :=
      (sp_channels (absdb s))(cid \<mapsto> i\<lparr>ci_parent := case pr of Some p \<Rightarrow> p | None \<Rightarrow> ci_parent i\<rparr>)\<rparr>"
    using q by (intro exI[of _ "chan_info_of q"]) (simp add: s' absdb_def chan_info_of_def split: option.splits)
qed

text \<open>New parents for live channels of one guild.\<close>

definition reparent :: "int64 \<Rightarrow> (int64 \<rightharpoonup> int64) \<Rightarrow> (int64 \<rightharpoonup> chan_info) \<Rightarrow> int64 \<rightharpoonup> chan_info" where
  "reparent gid req chans cid = map_option
     (\<lambda>i. case req cid of Some p \<Rightarrow> if ci_guild i = gid then i\<lparr>ci_parent := p\<rparr> else i | None \<Rightarrow> i) (chans cid)"

definition update_parents :: "GuildChannelPositionUpdate list \<Rightarrow> int64 \<rightharpoonup> int64" where
  "update_parents us = map_of (map (\<lambda>u. (pu_ChannelID u, pu_ParentID u)) us)"

lemma map_of_map_option: "map_of (map (\<lambda>u. (k u, g u)) us) x = map_option g (map_of (map (\<lambda>u. (k u, u)) us) x)"
  by (induction us) auto

lemma UpdateGuildChannelPositions_state:
  assumes "UpdateGuildChannelPositions gid us at s = Inr (cs, s')"
  defines "req \<equiv> map_of (map (\<lambda>u. (pu_ChannelID u, u)) us)"
  defines "p \<equiv> (\<lambda>c. c_GuildID c = gid \<and> req (c_ID c) \<noteq> None \<and> c_DeletedAt c = 0)"
  defines "f \<equiv> (\<lambda>c. c\<lparr>c_Position := pu_Position (the (req (c_ID c))), c_ParentID := pu_ParentID (the (req (c_ID c))),
                    c_Revision := c_Revision c + 1, c_UpdatedAt := at\<rparr>)"
  shows "s' = s\<lparr>db_channels := tbl_update p f (db_channels s)\<rparr>" "cs = tbl_returning p f (db_channels s)"
proof -
  have "s' = s\<lparr>db_channels := tbl_update p f (db_channels s)\<rparr> \<and> cs = tbl_returning p f (db_channels s)"
  proof (cases "us = []")
    case True
    then have "p = (\<lambda>_. False)" by (simp add: p_def req_def)
    then show ?thesis using True assms(1) by (simp add: UpdateGuildChannelPositions_def tx_return_def tbl_update_def tbl_returning_def)
  next
    case False
    have "(case update_rows channel_row_ok p f (db_channels s) of Inl e \<Rightarrow> Inl e
         | Inr t \<Rightarrow> Inr (tbl_returning p f (db_channels s), s\<lparr>db_channels := t\<rparr>)) = Inr (cs, s')"
      using assms(1) False unfolding UpdateGuildChannelPositions_def Let_def req_def[symmetric] p_def f_def by simp
    then show ?thesis by (auto simp: update_rows_Inr split: sum.splits)
  qed
  then show "s' = s\<lparr>db_channels := tbl_update p f (db_channels s)\<rparr>" "cs = tbl_returning p f (db_channels s)" by blast+
qed

lemma UpdateGuildChannelPositions_refines:
  assumes keys: "keys_ok s" and upd: "UpdateGuildChannelPositions gid us at s = Inr (cs, s')"
  shows "absdb s' = (absdb s)\<lparr>sp_channels := reparent gid (update_parents us) (sp_channels (absdb s))\<rparr>"
    "\<forall>c\<in>set cs. c_GuildID c = gid"
proof -
  define req where "req = map_of (map (\<lambda>u. (pu_ChannelID u, u)) us)"
  let ?p = "\<lambda>c. c_GuildID c = gid \<and> req (c_ID c) \<noteq> None \<and> c_DeletedAt c = 0"
  let ?f = "\<lambda>c. c\<lparr>c_Position := pu_Position (the (req (c_ID c))), c_ParentID := pu_ParentID (the (req (c_ID c))),
                    c_Revision := c_Revision c + 1, c_UpdatedAt := at\<rparr>"
  have s': "s' = s\<lparr>db_channels := tbl_update ?p ?f (db_channels s)\<rparr>" and cs: "cs = tbl_returning ?p ?f (db_channels s)"
    using UpdateGuildChannelPositions_state[OF upd] unfolding req_def by blast+
  have par: "update_parents us x = map_option pu_ParentID (req x)" for x
    unfolding update_parents_def req_def by (rule map_of_map_option)
  have "channels_of (tbl_update ?p ?f (db_channels s)) = (\<lambda>cid. map_option
       (\<lambda>i. case update_parents us cid of Some p \<Rightarrow> if ci_guild i = gid then i\<lparr>ci_parent := p\<rparr> else i | None \<Rightarrow> i)
       (channels_of (db_channels s) cid))"
    unfolding channels_of_def
    by (rule lookup_update_map[OF keys_okD(4)[OF keys]]) (auto simp: chan_info_of_def par split: option.splits)
  then show "absdb s' = (absdb s)\<lparr>sp_channels := reparent gid (update_parents us) (sp_channels (absdb s))\<rparr>"
    by (simp add: s' absdb_def reparent_def[abs_def])
  show "\<forall>c\<in>set cs. c_GuildID c = gid" by (auto simp: cs tbl_returning_def)
qed

lemma DeleteGuildChannel_refines:
  assumes keys: "keys_ok s" and "0 < at" and upd: "store_DeleteGuildChannel cid at s = Inr (c, s')"
  shows "absdb s' = (absdb s)\<lparr>sp_channels := (sp_channels (absdb s))(cid := None)\<rparr>"
    "\<exists>i. sp_channels (absdb s) cid = Some i \<and> ci_guild i = c_GuildID c"
proof -
  let ?f = "\<lambda>c. c\<lparr>c_Revision := c_Revision c + 1, c_UpdatedAt := at, c_DeletedAt := at\<rparr>"
  obtain q where q: "q \<in> set (db_channels s)" "live_channel cid q" "c = ?f q"
    and s': "s' = bump_guild_access_revision [c_GuildID c] (s\<lparr>db_channels := tbl_update (live_channel cid) ?f (db_channels s)\<rparr>)"
    using upd by (auto simp: store_DeleteGuildChannel_def update_one_Inr dest!: find_SomeD split: sum.splits)
  have "channels_of (db_channels s) cid = Some (chan_info_of q)" unfolding channels_of_live[OF keys] using q by auto
  then show "\<exists>i. sp_channels (absdb s) cid = Some i \<and> ci_guild i = c_GuildID c" using q by simp
  have "channels_of (tbl_update (live_channel cid) ?f (db_channels s)) =
      (channels_of (db_channels s))(c_ID q := if c_DeletedAt (?f q) = 0 then Some (chan_info_of (?f q)) else None)"
    unfolding channels_of_def by (rule lookup_update_one) (use keys_okD(4)[OF keys] q in auto)
  then show "absdb s' = (absdb s)\<lparr>sp_channels := (sp_channels (absdb s))(cid := None)\<rparr>"
    using q assms(2) by (simp add: s' absdb_def)
qed

lemma DeleteGuildChannels_refines:
  assumes keys: "keys_ok s" and "0 < at" and upd: "DeleteGuildChannels gid at s = Inr (u, s')"
  shows "absdb s' = (absdb s)\<lparr>sp_channels := map_without (\<lambda>_ i. ci_guild i = gid) (sp_channels (absdb s))\<rparr>"
proof -
  have "channels_of (db_channels s') = map_without (\<lambda>_ i. ci_guild i = gid) (channels_of (db_channels s))"
    using upd unfolding channels_of_def
    by (auto simp: DeleteGuildChannels_def Let_def update_rows_Inr split: sum.splits)
      (rule lookup_update_drop; use keys_okD(4)[OF keys] assms(2) in auto)
  then show ?thesis using upd by (auto simp: DeleteGuildChannels_def Let_def update_rows_Inr absdb_def split: sum.splits)
qed

definition unparent :: "int64 \<Rightarrow> int64 \<Rightarrow> (int64 \<rightharpoonup> chan_info) \<Rightarrow> int64 \<rightharpoonup> chan_info" where
  "unparent gid par chans cid = map_option (\<lambda>i. if ci_guild i = gid \<and> ci_parent i = par then i\<lparr>ci_parent := 0\<rparr> else i) (chans cid)"

lemma ClearGuildChannelParent_refines:
  assumes keys: "keys_ok s" and upd: "ClearGuildChannelParent gid par at s = Inr (u, s')"
  shows "absdb s' = (absdb s)\<lparr>sp_channels := unparent gid par (sp_channels (absdb s))\<rparr>"
proof -
  let ?p = "\<lambda>c. c_GuildID c = gid \<and> c_ParentID c = par \<and> c_DeletedAt c = 0"
  let ?f = "\<lambda>c. c\<lparr>c_ParentID := 0, c_Revision := c_Revision c + 1, c_UpdatedAt := at\<rparr>"
  have s': "s' = s\<lparr>db_channels := tbl_update ?p ?f (db_channels s)\<rparr>"
    using upd by (auto simp: ClearGuildChannelParent_def update_rows_Inr split: sum.splits)
  have "channels_of (tbl_update ?p ?f (db_channels s)) = (\<lambda>cid. map_option
      (\<lambda>i. if ci_guild i = gid \<and> ci_parent i = par then i\<lparr>ci_parent := 0\<rparr> else i) (channels_of (db_channels s) cid))"
    unfolding channels_of_def
    by (rule lookup_update_map[OF keys_okD(4)[OF keys]]) (auto simp: chan_info_of_def)
  then show ?thesis by (simp add: s' absdb_def unparent_def[abs_def])
qed

section \<open>Overwrites\<close>

lemma ow_info_of_simps [simp]:
  "oi_guild (ow_info_of x) = o_GuildID x" "oi_allow (ow_info_of x) = o_Allow x" "oi_deny (ow_info_of x) = o_Deny x"
  by (simp_all add: ow_info_of_def)

lemma overwrites_of_live: "keys_ok s \<Longrightarrow> overwrites_of (db_overwrites s) k = Some i \<longleftrightarrow>
    (\<exists>x\<in>set (db_overwrites s). o_key x = k \<and> i = ow_info_of x)"
  by (simp add: overwrites_of_def lookup_eq_Some[OF keys_okD(5)])

text \<open>
  An upsert writes the allow and deny bits under the key; a row that exists keeps its guild.
\<close>

lemma UpsertOverwrite_refines:
  assumes keys: "keys_ok s" and upd: "store_UpsertGuildChannelPermissionOverwrite ow s = Inr (x, s')"
  shows "absdb s' = (absdb s)\<lparr>sp_overwrites := (sp_overwrites (absdb s))(o_key ow \<mapsto>
      \<lparr>oi_guild = (case sp_overwrites (absdb s) (o_key ow) of Some i \<Rightarrow> oi_guild i | None \<Rightarrow> o_GuildID ow),
       oi_allow = o_Allow ow, oi_deny = o_Deny ow\<rparr>)\<rparr>"
    "o_key x = o_key ow" "o_Allow x = o_Allow ow" "o_Deny x = o_Deny ow"
    "o_GuildID x = (case sp_overwrites (absdb s) (o_key ow) of Some i \<Rightarrow> oi_guild i | None \<Rightarrow> o_GuildID ow)"
proof -
  let ?new = "ow\<lparr>o_Revision := 1, o_UpdatedAt := 0\<rparr>"
  let ?p = "overwrite_key (o_ChannelID ow) (o_AppliesTo ow) (o_AppliesToID ow)"
  let ?f = "\<lambda>x. x\<lparr>o_Allow := o_Allow ow, o_Deny := o_Deny ow, o_Revision := o_Revision x + 1, o_UpdatedAt := o_CreatedAt ow\<rparr>"
  have "absdb s' = (absdb s)\<lparr>sp_overwrites := (sp_overwrites (absdb s))(o_key ow \<mapsto>
      \<lparr>oi_guild = (case sp_overwrites (absdb s) (o_key ow) of Some i \<Rightarrow> oi_guild i | None \<Rightarrow> o_GuildID ow),
       oi_allow = o_Allow ow, oi_deny = o_Deny ow\<rparr>)\<rparr>
    \<and> o_key x = o_key ow \<and> o_Allow x = o_Allow ow \<and> o_Deny x = o_Deny ow
    \<and> o_GuildID x = (case sp_overwrites (absdb s) (o_key ow) of Some i \<Rightarrow> oi_guild i | None \<Rightarrow> o_GuildID ow)"
  proof (cases "List.find ?p (db_overwrites s)")
    case None
    then have x: "x = ?new" and s': "s' = bump_guild_access_revision [o_GuildID ow] (s\<lparr>db_overwrites := db_overwrites s @ [?new]\<rparr>)"
      using upd by (auto simp: store_UpsertGuildChannelPermissionOverwrite_def Let_def split: if_splits)
    have absent: "\<forall>y\<in>set (db_overwrites s). o_key y \<noteq> o_key ?new" using None by (auto simp: find_None_iff)
    have "overwrites_of (db_overwrites s @ [?new]) = (overwrites_of (db_overwrites s))(o_key ?new \<mapsto> ow_info_of ?new)"
      unfolding overwrites_of_def by (rule lookup_append[OF absent]) simp
    moreover have "overwrites_of (db_overwrites s) (o_key ow) = None"
      using absent by (auto simp: overwrites_of_def lookup_eq_None)
    ultimately show ?thesis using x s' by (simp add: absdb_def ow_info_of_def)
  next
    case (Some r)
    have "\<exists>t. update_one overwrite_row_ok ?p ?f (db_overwrites s) = Inr (x, t)
        \<and> s' = bump_guild_access_revision [o_GuildID x] (s\<lparr>db_overwrites := t\<rparr>)"
      using upd Some by (auto simp: store_UpsertGuildChannelPermissionOverwrite_def Let_def split: if_splits sum.splits)
    then have x: "x = ?f r" and s': "s' = bump_guild_access_revision [o_GuildID x] (s\<lparr>db_overwrites := tbl_update ?p ?f (db_overwrites s)\<rparr>)"
      using Some by (auto simp: update_one_Inr)
    have r: "r \<in> set (db_overwrites s)" "o_key r = o_key ow" using Some by (auto dest: find_SomeD)
    have "overwrites_of (tbl_update ?p ?f (db_overwrites s)) = (overwrites_of (db_overwrites s))(o_key r := if True then Some (ow_info_of (?f r)) else None)"
      unfolding overwrites_of_def by (rule lookup_update_one) (use keys_okD(5)[OF keys] r in auto)
    moreover have "overwrites_of (db_overwrites s) (o_key ow) = Some (ow_info_of r)"
      unfolding overwrites_of_live[OF keys] using r by auto
    ultimately show ?thesis using x s' r by (simp add: absdb_def ow_info_of_def)
  qed
  then show "absdb s' = (absdb s)\<lparr>sp_overwrites := (sp_overwrites (absdb s))(o_key ow \<mapsto>
      \<lparr>oi_guild = (case sp_overwrites (absdb s) (o_key ow) of Some i \<Rightarrow> oi_guild i | None \<Rightarrow> o_GuildID ow),
       oi_allow = o_Allow ow, oi_deny = o_Deny ow\<rparr>)\<rparr>"
    "o_key x = o_key ow" "o_Allow x = o_Allow ow" "o_Deny x = o_Deny ow"
    "o_GuildID x = (case sp_overwrites (absdb s) (o_key ow) of Some i \<Rightarrow> oi_guild i | None \<Rightarrow> o_GuildID ow)" by blast+
qed

lemma delete_overwrites_refines:
  assumes keys: "keys_ok s" and del: "delete_overwrites p s = Inr (u, s')"
    and p: "\<And>x. p x \<longleftrightarrow> P (o_key x) (ow_info_of x)"
  shows "absdb s' = (absdb s)\<lparr>sp_overwrites := map_without P (sp_overwrites (absdb s))\<rparr>"
proof -
  have "overwrites_of (tbl_delete p (db_overwrites s)) = map_without P (overwrites_of (db_overwrites s))"
    unfolding overwrites_of_def by (rule lookup_delete[OF keys_okD(5)[OF keys]]) (rule p)
  moreover have "s' = bump_guild_access_revision (map o_GuildID (filter p (db_overwrites s)))
       (s\<lparr>db_overwrites := tbl_delete p (db_overwrites s)\<rparr>)"
    using del by (simp add: delete_overwrites_def tx_modify_def)
  ultimately show ?thesis by (simp add: absdb_def)
qed

lemma DeleteOverwrite_refines:
  "keys_ok s \<Longrightarrow> store_DeleteGuildChannelPermissionOverwrite cid ty tid s = Inr (u, s') \<Longrightarrow>
     absdb s' = (absdb s)\<lparr>sp_overwrites := map_without (\<lambda>k _. k = (cid, ty, tid)) (sp_overwrites (absdb s))\<rparr>"
  unfolding store_DeleteGuildChannelPermissionOverwrite_def by (erule (1) delete_overwrites_refines) simp

lemma DeleteOverwrites_refines:
  "keys_ok s \<Longrightarrow> DeleteGuildChannelPermissionOverwrites cid s = Inr (u, s') \<Longrightarrow>
     absdb s' = (absdb s)\<lparr>sp_overwrites := map_without (\<lambda>k _. fst k = cid) (sp_overwrites (absdb s))\<rparr>"
  unfolding DeleteGuildChannelPermissionOverwrites_def by (erule (1) delete_overwrites_refines) simp

lemma DeleteAllOverwrites_refines:
  "keys_ok s \<Longrightarrow> DeleteAllGuildChannelPermissionOverwrites gid s = Inr (u, s') \<Longrightarrow>
     absdb s' = (absdb s)\<lparr>sp_overwrites := map_without (\<lambda>_ i. oi_guild i = gid) (sp_overwrites (absdb s))\<rparr>"
  unfolding DeleteAllGuildChannelPermissionOverwrites_def by (erule (1) delete_overwrites_refines) simp

lemma DeleteOverwritesFor_refines:
  "keys_ok s \<Longrightarrow> DeleteGuildChannelPermissionOverwritesForAppliesTo gid ty tid s = Inr (u, s') \<Longrightarrow>
     absdb s' = (absdb s)\<lparr>sp_overwrites := map_without (\<lambda>k i. oi_guild i = gid \<and> snd k = (ty, tid)) (sp_overwrites (absdb s))\<rparr>"
  unfolding DeleteGuildChannelPermissionOverwritesForAppliesTo_def
  by (erule (1) delete_overwrites_refines) auto

section \<open>Queries\<close>

lemma list_ex_active [simp]: "list_ex (active_member gid uid) t \<longleftrightarrow> (gid, uid) \<in> members_of t"
  by (auto simp: list_ex_iff members_of_def live_keys_def)

lemma GetGuildForMember_refines:
  assumes "keys_ok s" "GetGuildForMember gid uid s = Inr (g, s')"
  shows "s' = s" "sp_owner (absdb s) gid = Some (g_OwnerID g)" "(gid, uid) \<in> sp_members (absdb s)" "g_ID g = gid"
    "g \<in> set (db_guilds s)" "g_DeletedAt g = 0"
proof -
  have g: "g \<in> set (db_guilds s)" "live_guild gid g" "(gid, uid) \<in> members_of (db_members s)" and s: "s' = s"
    using assms(2) by (auto simp: GetGuildForMember_def tx_query_Inr select_one_Inr dest!: find_SomeD)
  show "s' = s" "(gid, uid) \<in> sp_members (absdb s)" "g_ID g = gid" "g \<in> set (db_guilds s)" "g_DeletedAt g = 0" using g s by simp_all
  have "guilds_of (db_guilds s) gid = Some (g_OwnerID g)" unfolding guilds_of_live[OF assms(1)] using g by auto
  then show "sp_owner (absdb s) gid = Some (g_OwnerID g)" by simp
qed

lemma GetGuildForMember_None:
  assumes "keys_ok s"
  shows "GetGuildForMember gid uid s = Inl e \<longleftrightarrow>
    e = ErrNoRows \<and> (sp_owner (absdb s) gid = None \<or> (gid, uid) \<notin> sp_members (absdb s))"
proof -
  have "List.find (\<lambda>g. live_guild gid g \<and> list_ex (active_member (g_ID g) uid) (db_members s)) (db_guilds s) = None
     \<longleftrightarrow> sp_owner (absdb s) gid = None \<or> (gid, uid) \<notin> sp_members (absdb s)"
    by (auto simp: find_None_iff guilds_of_def lookup_eq_None)
  then show ?thesis
    by (auto simp: GetGuildForMember_def tx_query_def select_one_def split: option.splits sum.splits)
qed

lemma GetGuild_refines:
  assumes "keys_ok s" "store_GetGuild gid s = Inr (g, s')"
  shows "s' = s" "sp_owner (absdb s) gid = Some (g_OwnerID g)" "g_ID g = gid" "g \<in> set (db_guilds s)" "g_DeletedAt g = 0"
proof -
  have g: "g \<in> set (db_guilds s)" "live_guild gid g" and s: "s' = s"
    using assms(2) by (auto simp: store_GetGuild_def tx_query_Inr select_one_Inr dest!: find_SomeD)
  show "s' = s" "g_ID g = gid" "g \<in> set (db_guilds s)" "g_DeletedAt g = 0" using g s by simp_all
  have "guilds_of (db_guilds s) gid = Some (g_OwnerID g)" unfolding guilds_of_live[OF assms(1)] using g by auto
  then show "sp_owner (absdb s) gid = Some (g_OwnerID g)" by simp
qed

lemma GetGuildMember_Inr:
  "store_GetGuildMember gid uid s = Inr (m, s') \<Longrightarrow> s' = s \<and> (gid, uid) \<in> sp_members (absdb s)"
  by (auto simp: store_GetGuildMember_def tx_query_Inr select_one_Inr members_of_def live_keys_def dest!: find_SomeD)

lemma GetGuildMember_Inl:
  "store_GetGuildMember gid uid s = Inl e \<Longrightarrow> e = ErrNoRows \<and> (gid, uid) \<notin> sp_members (absdb s)"
  by (auto simp: store_GetGuildMember_def tx_query_def select_one_def find_None_iff members_of_def live_keys_def
      split: option.splits)

lemma GetGuildBan_Inr:
  "GetGuildBan gid uid s = Inr (b, s') \<Longrightarrow> s' = s \<and> (gid, uid) \<in> sp_banned (absdb s)"
  by (auto simp: GetGuildBan_def tx_query_Inr select_one_Inr banned_of_def live_keys_def dest!: find_SomeD)

lemma GetGuildBan_Inl:
  "GetGuildBan gid uid s = Inl e \<Longrightarrow> e = ErrNoRows \<and> (gid, uid) \<notin> sp_banned (absdb s)"
  by (auto simp: GetGuildBan_def tx_query_def select_one_def find_None_iff banned_of_def live_keys_def
      split: option.splits)

lemma LockGuildChannelMutations_Inr: "LockGuildChannelMutations gid s = Inr (u, s') \<longleftrightarrow> 0 < gid \<and> s' = s"
  by (simp add: LockGuildChannelMutations_def tx_require_Inr)

lemma CheckResourceQuota_Inr: "CheckResourceQuota q s = Inr (u, s') \<Longrightarrow> s' = s"
  by (auto simp: CheckResourceQuota_def split: if_splits)

lemma GetLayoutRevision_Inr:
  "GetGuildChannelLayoutRevision gid s = Inr (n, s') \<Longrightarrow>
     s' = s \<and> (\<exists>g. List.find (live_guild gid) (db_guilds s) = Some g \<and> n = g_ChannelLayoutRevision g)"
  by (auto simp: GetGuildChannelLayoutRevision_def store_GetGuild_def tx_simps select_one_Inr)

lemma member_has_role_iff [simp]: "member_has_role t gid uid rid \<longleftrightarrow> (gid, uid, rid) \<in> assigned_of t"
  by (auto simp: member_has_role_def list_ex_iff assigned_of_def live_keys_def)

end
