(* ===== verification/Guild_Permissions.thy ===== *)
theory Guild_Permissions
  imports Guild_Refine
begin

text \<open>
  Permissions (\<^verbatim>\<open>server/permissions.go\<close>): a member's authority in a guild, the hierarchy of roles, and
  the effective permissions in a channel. The second half relates them to the abstract state:
  \<open>eff\<close> are the permission bits a member has, \<open>rank\<close> its highest role.
\<close>

section \<open>Permission bits\<close>

abbreviation (input) PermissionAdministrator :: perms where "PermissionAdministrator \<equiv> 1"
abbreviation (input) PermissionManageGuild :: perms where "PermissionManageGuild \<equiv> 2"
abbreviation (input) PermissionManageRoles :: perms where "PermissionManageRoles \<equiv> 4"
abbreviation (input) PermissionManageMembers :: perms where "PermissionManageMembers \<equiv> 8"
abbreviation (input) PermissionKickMembers :: perms where "PermissionKickMembers \<equiv> 16"
abbreviation (input) PermissionViewChannel :: perms where "PermissionViewChannel \<equiv> 32"
abbreviation (input) PermissionSendMessages :: perms where "PermissionSendMessages \<equiv> 64"
abbreviation (input) PermissionManageChannels :: perms where "PermissionManageChannels \<equiv> 128"
abbreviation (input) PermissionManageMessages :: perms where "PermissionManageMessages \<equiv> 256"
abbreviation (input) PermissionBanMembers :: perms where "PermissionBanMembers \<equiv> 512"
abbreviation (input) PermissionCreateInvite :: perms where "PermissionCreateInvite \<equiv> 1024"
abbreviation (input) PermissionMentionEveryone :: perms where "PermissionMentionEveryone \<equiv> 2048"

definition AllGuildPermissions :: perms where
  "AllGuildPermissions = PermissionAdministrator OR PermissionManageGuild OR PermissionManageRoles
     OR PermissionManageMembers OR PermissionKickMembers OR PermissionViewChannel OR PermissionSendMessages
     OR PermissionManageChannels OR PermissionManageMessages OR PermissionBanMembers OR PermissionCreateInvite
     OR PermissionMentionEveryone"

definition AllChannelPermissions :: perms where
  "AllChannelPermissions = PermissionViewChannel OR PermissionSendMessages OR PermissionManageChannels
     OR PermissionManageMessages OR PermissionMentionEveryone"

section \<open>Member authority\<close>

record memberAuthority =
  ma_Guild :: Guild
  ma_Permissions :: perms
  ma_HighestRole :: int32
  ma_IsOwner :: bool

definition memberAuthorityFromRoles :: "Guild \<Rightarrow> Role list \<Rightarrow> int64 \<Rightarrow> memberAuthority" where
  "memberAuthorityFromRoles guild roles userID =
     (if g_OwnerID guild = userID
      then \<lparr>ma_Guild = guild, ma_Permissions = AllGuildPermissions, ma_HighestRole = MaxInt32, ma_IsOwner = True\<rparr>
      else
        let permissions = foldl (\<lambda>p role. p OR r_Permissions role) 0 roles;
            highestRole = foldl (\<lambda>h role. if \<not> r_IsDefault role \<and> h < r_Position role then r_Position role else h) 0 roles;
            permissions = (if permissions AND PermissionAdministrator \<noteq> 0 then AllGuildPermissions else permissions)
        in \<lparr>ma_Guild = guild, ma_Permissions = permissions, ma_HighestRole = highestRole, ma_IsOwner = False\<rparr>)"

definition loadMemberAuthorityAndRoles :: "int64 \<Rightarrow> int64 \<Rightarrow> (memberAuthority \<times> Role list) gtx" where
  "loadMemberAuthorityAndRoles guildID userID =
     tx_bind (GetGuildForMember guildID userID) (\<lambda>guild.
     if g_OwnerID guild = userID then tx_return (memberAuthorityFromRoles guild [] userID, [])
     else tx_bind (store_ListGuildMemberRoles guildID userID) (\<lambda>roles.
       tx_return (memberAuthorityFromRoles guild roles userID, roles)))"

definition loadMemberAuthority :: "int64 \<Rightarrow> int64 \<Rightarrow> memberAuthority gtx" where
  "loadMemberAuthority guildID userID =
     tx_bind (loadMemberAuthorityAndRoles guildID userID) (\<lambda>(authority, _). tx_return authority)"

definition has :: "memberAuthority \<Rightarrow> perms \<Rightarrow> bool" where
  "has authority permission \<longleftrightarrow> ma_IsOwner authority
     \<or> ma_Permissions authority AND PermissionAdministrator \<noteq> 0
     \<or> ma_Permissions authority AND permission = permission"

definition canManageRole :: "memberAuthority \<Rightarrow> Role \<Rightarrow> bool" where
  "canManageRole authority role \<longleftrightarrow>
     (if ma_IsOwner authority then True else \<not> r_IsDefault role \<and> ma_HighestRole authority > r_Position role)"

definition canGrantPermissions :: "memberAuthority \<Rightarrow> perms \<Rightarrow> bool" where
  "canGrantPermissions authority permissions \<longleftrightarrow>
     (if ma_IsOwner authority \<or> ma_Permissions authority AND PermissionAdministrator \<noteq> 0 then True
      else and_not permissions (ma_Permissions authority) = 0)"

definition canManageMember :: "memberAuthority \<Rightarrow> memberAuthority \<Rightarrow> bool" where
  "canManageMember actor target \<longleftrightarrow>
     (if ma_IsOwner actor then True
      else if ma_IsOwner target then False
      else ma_HighestRole actor > ma_HighestRole target)"

section \<open>Channel permissions\<close>

definition applyOverwrite :: "perms \<Rightarrow> perms \<Rightarrow> perms \<Rightarrow> perms" where
  "applyOverwrite permissions deny allow = and_not permissions deny OR allow"

definition applyFirst ::
  "(ChannelPermissionOverwrite \<Rightarrow> bool) \<Rightarrow> ChannelPermissionOverwrite list \<Rightarrow> perms \<Rightarrow> perms" where
  "applyFirst p overwrites permissions = (case List.find p overwrites of
       None \<Rightarrow> permissions
     | Some x \<Rightarrow> applyOverwrite permissions (o_Deny x) (o_Allow x))"

definition channelPermissions ::
  "memberAuthority \<Rightarrow> Role list \<Rightarrow> ChannelPermissionOverwrite list \<Rightarrow> int64 \<Rightarrow> perms" where
  "channelPermissions authority roles overwrites userID =
     (if ma_IsOwner authority \<or> ma_Permissions authority AND PermissionAdministrator \<noteq> 0 then AllGuildPermissions
      else
        let guildID = g_ID (ma_Guild authority);
            permissions = ma_Permissions authority;
            roleIDs = set (map r_ID roles);
            permissions = applyFirst (\<lambda>x. o_AppliesTo x = OVERWRITE_ROLE \<and> o_AppliesToID x = guildID) overwrites permissions;
            assigned = filter (\<lambda>x. o_AppliesTo x = OVERWRITE_ROLE \<and> o_AppliesToID x \<in> roleIDs \<and> o_AppliesToID x \<noteq> guildID) overwrites;
            roleDeny = foldl (\<lambda>d x. d OR o_Deny x) 0 assigned;
            roleAllow = foldl (\<lambda>a x. a OR o_Allow x) 0 assigned;
            permissions = applyOverwrite permissions roleDeny roleAllow;
            permissions = applyFirst (\<lambda>x. o_AppliesTo x = OVERWRITE_MEMBER \<and> o_AppliesToID x = userID) overwrites permissions
        in if permissions AND PermissionViewChannel = 0
           then and_not permissions (PermissionSendMessages OR PermissionManageMessages)
           else permissions)"

section \<open>Bit-level facts\<close>

lemma bit_foldl_OR: "bit (foldl (\<lambda>p x. p OR h x) (a :: perms) xs) n \<longleftrightarrow> bit a n \<or> (\<exists>x\<in>set xs. bit (h x) n)"
  by (induction xs arbitrary: a) (auto simp: bit_simps)

lemma admin_bit: "(a :: perms) AND PermissionAdministrator = 0 \<longleftrightarrow> \<not> bit a 0"
  using and_exp_eq_0_iff_not_bit[of a 0] by simp

lemma view_bit: "(a :: perms) AND PermissionViewChannel = 0 \<longleftrightarrow> \<not> bit a 5"
  using and_exp_eq_0_iff_not_bit[of a 5] by simp

lemma AllGuild_val: "AllGuildPermissions = 4095" "AllChannelPermissions = 2528"
  by (simp_all add: AllGuildPermissions_def AllChannelPermissions_def)

lemma bit_AllGuild: "bit AllGuildPermissions n \<longleftrightarrow> n < 12"
proof -
  have "(4095 :: perms) = mask 12" by (simp add: mask_eq_exp_minus_1)
  then have "bit (4095 :: perms) n \<longleftrightarrow> bit (mask 12 :: perms) n" by simp
  also have "\<dots> \<longleftrightarrow> n < 12" by (auto simp: bit_simps)
  finally show ?thesis by (simp add: AllGuild_val)
qed

lemma bit_applyOverwrite: "bit (applyOverwrite p d a) n \<longleftrightarrow> bit a n \<or> bit p n \<and> \<not> bit d n"
  by (auto simp: applyOverwrite_def and_not_def bit_simps dest: bit_imp_le_length)

lemma bit_applyFirst:
  assumes "\<And>x y. x \<in> set ows \<Longrightarrow> y \<in> set ows \<Longrightarrow> P x \<Longrightarrow> P y \<Longrightarrow> x = y"
  shows "bit (applyFirst P ows p) n \<longleftrightarrow>
    (\<exists>x\<in>set ows. P x \<and> bit (o_Allow x) n) \<or> bit p n \<and> \<not> (\<exists>x\<in>set ows. P x \<and> bit (o_Deny x) n)"
proof (cases "List.find P ows")
  case None
  then have "\<forall>x\<in>set ows. \<not> P x" by (auto simp: find_None_iff)
  then show ?thesis by (simp add: applyFirst_def None)
next
  case (Some x)
  then have x: "x \<in> set ows" "P x" by (auto dest: find_SomeD)
  then have "(\<exists>y\<in>set ows. P y \<and> Q y) \<longleftrightarrow> Q x" for Q using assms by blast
  then show ?thesis by (simp add: applyFirst_def Some bit_applyOverwrite)
qed

section \<open>What channel permissions mean\<close>

text \<open>
  One permission bit, resolved from the most to the least specific layer: in each layer an allow wins
  over a deny, and a bit that is neither falls through to the layer below.
\<close>

definition layer :: "bool \<Rightarrow> bool \<Rightarrow> bool \<Rightarrow> bool" where
  "layer allow deny below \<longleftrightarrow> allow \<or> \<not> deny \<and> below"

definition ow_layer ::
  "(ChannelPermissionOverwrite \<Rightarrow> bool) \<Rightarrow> ChannelPermissionOverwrite set \<Rightarrow> nat \<Rightarrow> bool \<Rightarrow> bool" where
  "ow_layer P ows n below = layer (\<exists>x\<in>ows. P x \<and> bit (o_Allow x) n) (\<exists>x\<in>ows. P x \<and> bit (o_Deny x) n) below"

definition granted ::
  "int64 \<Rightarrow> int64 set \<Rightarrow> int64 \<Rightarrow> ChannelPermissionOverwrite set \<Rightarrow> perms \<Rightarrow> nat \<Rightarrow> bool" where
  "granted guildID roleIDs userID ows base n =
     ow_layer (\<lambda>x. o_AppliesTo x = OVERWRITE_MEMBER \<and> o_AppliesToID x = userID) ows n
       (ow_layer (\<lambda>x. o_AppliesTo x = OVERWRITE_ROLE \<and> o_AppliesToID x \<in> roleIDs \<and> o_AppliesToID x \<noteq> guildID) ows n
         (ow_layer (\<lambda>x. o_AppliesTo x = OVERWRITE_ROLE \<and> o_AppliesToID x = guildID) ows n (bit base n)))"

text \<open>The overwrites of one channel have distinct subjects (the table's primary key).\<close>

abbreviation subjects_distinct :: "ChannelPermissionOverwrite list \<Rightarrow> bool" where
  "subjects_distinct ows \<equiv> distinct (map (\<lambda>x. (o_AppliesTo x, o_AppliesToID x)) ows)"

lemma subjects_distinctD:
  "subjects_distinct ows \<Longrightarrow> x \<in> set ows \<Longrightarrow> y \<in> set ows \<Longrightarrow> o_AppliesTo x = o_AppliesTo y \<Longrightarrow>
     o_AppliesToID x = o_AppliesToID y \<Longrightarrow> x = y"
  by (rule inj_on_distinct_key[of "\<lambda>x. (o_AppliesTo x, o_AppliesToID x)"]) auto

lemma bit_send_manage: "bit ((PermissionSendMessages OR PermissionManageMessages) :: perms) n \<longleftrightarrow> n = 6 \<or> n = 8"
proof -
  have e: "(64 :: perms) = 2 ^ 6" "(256 :: perms) = 2 ^ 8" by simp_all
  show ?thesis unfolding e bit_or_iff bit_exp_iff by auto
qed

lemma bit_and_not: "bit (and_not (a :: perms) b) n \<longleftrightarrow> bit a n \<and> \<not> bit b n"
  by (auto simp: and_not_def bit_simps dest: bit_imp_le_length)

lemma bit_channelPermissions:
  assumes "\<not> ma_IsOwner a" "\<not> bit (ma_Permissions a) 0" "subjects_distinct ows"
  shows "bit (channelPermissions a roles ows u) n \<longleftrightarrow>
    granted (g_ID (ma_Guild a)) (r_ID ` set roles) u (set ows) (ma_Permissions a) n
    \<and> (n = 6 \<or> n = 8 \<longrightarrow> granted (g_ID (ma_Guild a)) (r_ID ` set roles) u (set ows) (ma_Permissions a) 5)"
proof -
  let ?gid = "g_ID (ma_Guild a)"
  let ?E = "\<lambda>x. o_AppliesTo x = 1 \<and> o_AppliesToID x = ?gid"
  let ?R = "\<lambda>x. o_AppliesTo x = 1 \<and> o_AppliesToID x \<in> set (map r_ID roles) \<and> o_AppliesToID x \<noteq> ?gid"
  let ?M = "\<lambda>x. o_AppliesTo x = 2 \<and> o_AppliesToID x = u"
  define p1 where "p1 = applyFirst ?E ows (ma_Permissions a)"
  define p2 where "p2 = applyOverwrite p1 (foldl (\<lambda>d x. d OR o_Deny x) 0 (filter ?R ows)) (foldl (\<lambda>d x. d OR o_Allow x) 0 (filter ?R ows))"
  define p3 where "p3 = applyFirst ?M ows p2"
  have b1: "bit p1 m \<longleftrightarrow> ow_layer ?E (set ows) m (bit (ma_Permissions a) m)" for m
    unfolding p1_def ow_layer_def layer_def
    by (subst bit_applyFirst) (auto dest: subjects_distinctD[OF assms(3)])
  have b2: "bit p2 m \<longleftrightarrow> ow_layer ?R (set ows) m (bit p1 m)" for m
    unfolding p2_def ow_layer_def layer_def by (auto simp: bit_applyOverwrite bit_foldl_OR)
  have b3: "bit p3 m \<longleftrightarrow> ow_layer ?M (set ows) m (bit p2 m)" for m
    unfolding p3_def ow_layer_def layer_def
    by (subst bit_applyFirst) (auto dest: subjects_distinctD[OF assms(3)])
  have g: "bit p3 m \<longleftrightarrow> granted ?gid (r_ID ` set roles) u (set ows) (ma_Permissions a) m" for m
    unfolding granted_def b3 b2 b1 by simp
  have "channelPermissions a roles ows u = (if p3 AND 32 = 0 then and_not p3 (64 OR 256) else p3)"
    using assms(1,2) unfolding channelPermissions_def Let_def p1_def p2_def p3_def by (simp add: admin_bit)
  then have "bit (channelPermissions a roles ows u) n \<longleftrightarrow> bit p3 n \<and> (n = 6 \<or> n = 8 \<longrightarrow> bit p3 5)"
    unfolding view_bit by (simp only: bit_and_not bit_send_manage split: if_split) blast
  then show ?thesis unfolding g .
qed

lemma channelPermissions_admin:
  "ma_IsOwner a \<or> bit (ma_Permissions a) 0 \<Longrightarrow> channelPermissions a roles ows u = AllGuildPermissions"
  by (auto simp: channelPermissions_def admin_bit)

section \<open>Authority in the abstract state\<close>

definition base_bits :: "guild_spec \<Rightarrow> int64 \<Rightarrow> int64 \<Rightarrow> nat set" where
  "base_bits \<sigma> g u = {n. \<exists>rid i. sp_roles \<sigma> rid = Some i \<and> ri_guild i = g \<and> (ri_default i \<or> (g, u, rid) \<in> sp_assigned \<sigma>)
     \<and> bit (ri_perms i) n}"

definition eff :: "guild_spec \<Rightarrow> int64 \<Rightarrow> int64 \<Rightarrow> nat set" where
  "eff \<sigma> g u = (if sp_owner \<sigma> g = Some u \<or> 0 \<in> base_bits \<sigma> g u then {..<12} else base_bits \<sigma> g u)"

definition held_positions :: "guild_spec \<Rightarrow> int64 \<Rightarrow> int64 \<Rightarrow> int set" where
  "held_positions \<sigma> g u = {ri_pos i | rid i. sp_roles \<sigma> rid = Some i \<and> ri_guild i = g \<and> \<not> ri_default i \<and> (g, u, rid) \<in> sp_assigned \<sigma>}"

definition rank :: "guild_spec \<Rightarrow> int64 \<Rightarrow> int64 \<Rightarrow> int32" where
  "rank \<sigma> g u = (if sp_owner \<sigma> g = Some u then MaxInt32 else Max (insert 0 (held_positions \<sigma> g u)))"

lemma Max_insert_max: "finite S \<Longrightarrow> Max (insert (max a b) S) = Max (insert a (insert b S))" for a b :: int
  by (cases "S = {}") (simp_all add: max.assoc)

lemma foldl_max: "foldl (\<lambda>h x. if P x \<and> h < f x then f x else h) (a :: int) xs = Max (insert a (f ` {x \<in> set xs. P x}))"
proof (induction xs arbitrary: a)
  case (Cons x xs)
  let ?S = "f ` {x \<in> set xs. P x}"
  have "foldl (\<lambda>h x. if P x \<and> h < f x then f x else h) a (x # xs) = Max (insert (if P x \<and> a < f x then f x else a) ?S)"
    using Cons by simp
  also have "\<dots> = Max (insert a (f ` {y \<in> set (x # xs). P y}))"
  proof (cases "P x")
    case True
    have "f ` {y \<in> set (x # xs). P y} = insert (f x) ?S" using True by auto
    moreover have "(if P x \<and> a < f x then f x else a) = max a (f x)" using True by (simp add: max_def)
    ultimately show ?thesis using Max_insert_max[of ?S a "f x"] by (simp only:) simp
  next
    case False
    then have "{y \<in> set (x # xs). P y} = {y \<in> set xs. P y}" by auto
    then show ?thesis using False by simp
  qed
  finally show ?case .
qed simp

lemma member_roles_set:
  assumes "store_ListGuildMemberRoles gid uid s = Inr (roles, s')"
  shows "s' = s" "set roles = {r \<in> set (db_roles s). r_GuildID r = gid \<and> r_DeletedAt r = 0
    \<and> (r_IsDefault r \<or> (gid, uid, r_ID r) \<in> sp_assigned (absdb s))}"
  using assms by (auto simp: store_ListGuildMemberRoles_def tx_read_Inr)

lemma member_roles_bits:
  assumes "keys_ok s" "store_ListGuildMemberRoles gid uid s = Inr (roles, s')"
  shows "{n. \<exists>r\<in>set roles. bit (r_Permissions r) n} = base_bits (absdb s) gid uid"
    "r_Position ` {r \<in> set roles. \<not> r_IsDefault r} = held_positions (absdb s) gid uid"
proof -
  have live: "(\<exists>rid i. roles_of (db_roles s) rid = Some i \<and> Q rid i) \<longleftrightarrow>
      (\<exists>r\<in>set (db_roles s). r_DeletedAt r = 0 \<and> Q (r_ID r) (role_info_of r))" for Q
    using roles_of_live[OF assms(1)] by metis
  show "{n. \<exists>r\<in>set roles. bit (r_Permissions r) n} = base_bits (absdb s) gid uid"
    unfolding base_bits_def absdb_sel live member_roles_set[OF assms(2)] by auto
  have "held_positions (absdb s) gid uid = {p. \<exists>rid i. roles_of (db_roles s) rid = Some i \<and> p = ri_pos i \<and> ri_guild i = gid
     \<and> \<not> ri_default i \<and> (gid, uid, rid) \<in> sp_assigned (absdb s)}"
    unfolding held_positions_def by auto
  then show "r_Position ` {r \<in> set roles. \<not> r_IsDefault r} = held_positions (absdb s) gid uid"
    unfolding live member_roles_set[OF assms(2)] by auto
qed

abbreviation bits :: "perms \<Rightarrow> nat set" where
  "bits p \<equiv> {n. bit p n}"

lemma bits_AllGuild: "bits AllGuildPermissions = {..<12}"
  by (auto simp: bit_AllGuild)

lemma memberAuthorityFromRoles_refines:
  assumes keys: "keys_ok s" and g: "sp_owner (absdb s) gid = Some (g_OwnerID guild)"
    and roles: "g_OwnerID guild \<noteq> uid \<Longrightarrow> store_ListGuildMemberRoles gid uid s = Inr (roles, s')"
  defines "a \<equiv> memberAuthorityFromRoles guild roles uid"
  shows "bits (ma_Permissions a) = eff (absdb s) gid uid" "ma_HighestRole a = rank (absdb s) gid uid"
    "ma_IsOwner a \<longleftrightarrow> sp_owner (absdb s) gid = Some uid" "ma_Guild a = guild"
proof -
  show "ma_IsOwner a \<longleftrightarrow> sp_owner (absdb s) gid = Some uid" "ma_Guild a = guild"
    using g by (auto simp: a_def memberAuthorityFromRoles_def Let_def)
  show "bits (ma_Permissions a) = eff (absdb s) gid uid"
  proof (cases "g_OwnerID guild = uid")
    case True
    then show ?thesis using g bits_AllGuild by (simp add: a_def memberAuthorityFromRoles_def eff_def)
  next
    case False
    define p where "p = foldl (\<lambda>p role. p OR r_Permissions role) 0 roles"
    have "bits p = base_bits (absdb s) gid uid"
      unfolding member_roles_bits(1)[OF keys roles[OF False], symmetric] p_def by (simp add: bit_foldl_OR)
    moreover have "ma_Permissions a = (if bit p 0 then AllGuildPermissions else p)"
      using False by (simp add: a_def memberAuthorityFromRoles_def Let_def admin_bit flip: p_def)
    ultimately show ?thesis using False g bits_AllGuild by (auto simp: eff_def)
  qed
  show "ma_HighestRole a = rank (absdb s) gid uid"
  proof (cases "g_OwnerID guild = uid")
    case True
    then show ?thesis using g by (simp add: a_def memberAuthorityFromRoles_def rank_def)
  next
    case False
    then show ?thesis using g member_roles_bits(2)[OF keys roles[OF False], symmetric]
      by (simp add: a_def memberAuthorityFromRoles_def Let_def rank_def foldl_max)
  qed
qed

lemma loadMemberAuthorityAndRoles_refines:
  assumes keys: "keys_ok s" and l: "loadMemberAuthorityAndRoles gid uid s = Inr ((a, roles), s')"
  shows "s' = s" "bits (ma_Permissions a) = eff (absdb s) gid uid" "ma_HighestRole a = rank (absdb s) gid uid"
    "ma_IsOwner a \<longleftrightarrow> sp_owner (absdb s) gid = Some uid" "g_ID (ma_Guild a) = gid"
    "sp_owner (absdb s) gid = Some (g_OwnerID (ma_Guild a))" "(gid, uid) \<in> sp_members (absdb s)"
    "ma_Guild a \<in> set (db_guilds s)" "g_DeletedAt (ma_Guild a) = 0"
    "\<not> ma_IsOwner a \<Longrightarrow> store_ListGuildMemberRoles gid uid s = Inr (roles, s)"
proof -
  obtain g where g: "GetGuildForMember gid uid s = Inr (g, s)" and a: "a = memberAuthorityFromRoles g roles uid" and s: "s' = s"
    and r: "g_OwnerID g \<noteq> uid \<Longrightarrow> store_ListGuildMemberRoles gid uid s = Inr (roles, s)"
    using l GetGuildForMember_refines(1)[OF keys] member_roles_set(1)
    by (fastforce simp: loadMemberAuthorityAndRoles_def tx_simps split: if_splits)
  note gm = GetGuildForMember_refines[OF keys g]
  note m = memberAuthorityFromRoles_refines[OF keys gm(2) r, folded a]
  show "s' = s" "bits (ma_Permissions a) = eff (absdb s) gid uid" "ma_HighestRole a = rank (absdb s) gid uid"
    "ma_IsOwner a \<longleftrightarrow> sp_owner (absdb s) gid = Some uid" "g_ID (ma_Guild a) = gid"
    "sp_owner (absdb s) gid = Some (g_OwnerID (ma_Guild a))" "(gid, uid) \<in> sp_members (absdb s)"
    "ma_Guild a \<in> set (db_guilds s)" "g_DeletedAt (ma_Guild a) = 0"
    using s m gm by simp_all
  show "\<not> ma_IsOwner a \<Longrightarrow> store_ListGuildMemberRoles gid uid s = Inr (roles, s)" using r m(3) gm(2) by simp
qed

lemma loadMemberAuthority_refines:
  assumes keys: "keys_ok s" and l: "loadMemberAuthority gid uid s = Inr (a, s')"
  shows "s' = s" "bits (ma_Permissions a) = eff (absdb s) gid uid" "ma_HighestRole a = rank (absdb s) gid uid"
    "ma_IsOwner a \<longleftrightarrow> sp_owner (absdb s) gid = Some uid" "g_ID (ma_Guild a) = gid"
    "sp_owner (absdb s) gid = Some (g_OwnerID (ma_Guild a))" "(gid, uid) \<in> sp_members (absdb s)"
proof -
  obtain roles where "loadMemberAuthorityAndRoles gid uid s = Inr ((a, roles), s')"
    using l by (auto simp: loadMemberAuthority_def tx_simps)
  from loadMemberAuthorityAndRoles_refines[OF keys this]
  show "s' = s" "bits (ma_Permissions a) = eff (absdb s) gid uid" "ma_HighestRole a = rank (absdb s) gid uid"
    "ma_IsOwner a \<longleftrightarrow> sp_owner (absdb s) gid = Some uid" "g_ID (ma_Guild a) = gid"
    "sp_owner (absdb s) gid = Some (g_OwnerID (ma_Guild a))" "(gid, uid) \<in> sp_members (absdb s)" by blast+
qed

lemma loadMemberAuthority_Inl:
  assumes "keys_ok s" "loadMemberAuthority gid uid s = Inl e"
  shows "e = ErrNoRows \<and> (sp_owner (absdb s) gid = None \<or> (gid, uid) \<notin> sp_members (absdb s))"
proof -
  have "GetGuildForMember gid uid s = Inl e"
    using assms(2) by (auto simp: loadMemberAuthority_def loadMemberAuthorityAndRoles_def tx_bind_def tx_return_def
        store_ListGuildMemberRoles_def tx_read_def split: sum.splits if_splits prod.splits)
  then show ?thesis using GetGuildForMember_None[OF assms(1)] by simp
qed

text \<open>The checks of a handler, read on the abstract state.\<close>

lemma eff_admin: "sp_owner \<sigma> g = Some u \<or> 0 \<in> eff \<sigma> g u \<Longrightarrow> eff \<sigma> g u = {..<12}"
  by (auto simp: eff_def split: if_splits)

lemma has_refines:
  assumes "keys_ok s" "loadMemberAuthority gid uid s = Inr (a, s')" "has a p" "bits p \<subseteq> {..<12}"
  shows "bits p \<subseteq> eff (absdb s) gid uid"
proof -
  note a = loadMemberAuthority_refines[OF assms(1,2)]
  have ow: "ma_IsOwner a \<or> bit (ma_Permissions a) 0 \<Longrightarrow> eff (absdb s) gid uid = {..<12}"
    using a(2,4) eff_admin[of "absdb s" gid uid] by blast
  show ?thesis
  proof (cases "ma_IsOwner a \<or> bit (ma_Permissions a) 0")
    case True
    then show ?thesis using ow assms(4) by simp
  next
    case False
    then have "bits p \<subseteq> bits (ma_Permissions a)" using assms(3) by (auto simp: has_def admin_bit and_eq_self_iff)
    then show ?thesis using a(2) by simp
  qed
qed

lemma canGrant_refines:
  assumes "keys_ok s" "loadMemberAuthority gid uid s = Inr (a, s')" "canGrantPermissions a p" "bits p \<subseteq> {..<12}"
  shows "bits p \<subseteq> eff (absdb s) gid uid"
proof -
  note a = loadMemberAuthority_refines[OF assms(1,2)]
  have ow: "ma_IsOwner a \<or> bit (ma_Permissions a) 0 \<Longrightarrow> eff (absdb s) gid uid = {..<12}"
    using a(2,4) eff_admin[of "absdb s" gid uid] by blast
  show ?thesis
  proof (cases "ma_IsOwner a \<or> bit (ma_Permissions a) 0")
    case True
    then show ?thesis using ow assms(4) by simp
  next
    case False
    then have "bits p \<subseteq> bits (ma_Permissions a)" using assms(3)
      by (auto simp: canGrantPermissions_def admin_bit and_not_zero_iff)
    then show ?thesis using a(2) by simp
  qed
qed

lemma canManageRole_refines:
  assumes "keys_ok s" "loadMemberAuthority gid uid s = Inr (a, s')" "canManageRole a r"
  shows "sp_owner (absdb s) gid = Some uid \<or> \<not> r_IsDefault r \<and> r_Position r < rank (absdb s) gid uid"
  using assms(3) loadMemberAuthority_refines[OF assms(1,2)] by (auto simp: canManageRole_def split: if_splits)

lemma canManageMember_refines:
  assumes "keys_ok s" "loadMemberAuthority gid uid s = Inr (a, s')" "loadMemberAuthority gid vid s = Inr (t, s'')"
    "canManageMember a t"
  shows "sp_owner (absdb s) gid = Some uid \<or> sp_owner (absdb s) gid \<noteq> Some vid \<and> rank (absdb s) gid vid < rank (absdb s) gid uid"
  using assms(4) loadMemberAuthority_refines[OF assms(1,2)] loadMemberAuthority_refines[OF assms(1,3)]
  by (auto simp: canManageMember_def split: if_splits)

end
