(* ===== verification/Guild_Events.thy ===== *)
theory Guild_Events
  imports Guild_Permissions Outbox_Delivery
begin

text \<open>
  The events of the guild service (\<^verbatim>\<open>server/events.go\<close>, \<^verbatim>\<open>server/outbox.go\<close>): one constructor per
  event, and how a handler enqueues its events in the transaction that changes the guild. The
  properties: enqueueing leaves the guild's tables alone, numbers the records of each stream
  consecutively after the last one, and stamps them with the guild's access revision.
\<close>

section \<open>Keys and event types\<close>

definition StreamKey :: "int64 \<Rightarrow> gostring" where
  "StreamKey guildID = format_int guildID"

definition KafkaKey :: "int64 \<Rightarrow> gostring" where
  "KafkaKey guildID = format_int guildID"

definition EventTypeGuildCreated :: gostring where "EventTypeGuildCreated = str ''guild.created''"
definition EventTypeGuildUpdated :: gostring where "EventTypeGuildUpdated = str ''guild.updated''"
definition EventTypeGuildDeleted :: gostring where "EventTypeGuildDeleted = str ''guild.deleted''"
definition EventTypeGuildMemberJoined :: gostring where "EventTypeGuildMemberJoined = str ''guild.member.joined''"
definition EventTypeGuildMemberUpdated :: gostring where "EventTypeGuildMemberUpdated = str ''guild.member.updated''"
definition EventTypeGuildMemberRemoved :: gostring where "EventTypeGuildMemberRemoved = str ''guild.member.removed''"
definition EventTypeGuildMemberBanned :: gostring where "EventTypeGuildMemberBanned = str ''guild.member.banned''"
definition EventTypeGuildMemberUnbanned :: gostring where "EventTypeGuildMemberUnbanned = str ''guild.member.unbanned''"
definition EventTypeGuildRoleCreated :: gostring where "EventTypeGuildRoleCreated = str ''guild.role.created''"
definition EventTypeGuildRoleUpdated :: gostring where "EventTypeGuildRoleUpdated = str ''guild.role.updated''"
definition EventTypeGuildRoleDeleted :: gostring where "EventTypeGuildRoleDeleted = str ''guild.role.deleted''"
definition EventTypeGuildMemberRolesUpdated :: gostring where
  "EventTypeGuildMemberRolesUpdated = str ''guild.member.roles.updated''"
definition EventTypeGuildChannelCreated :: gostring where "EventTypeGuildChannelCreated = str ''guild.channel.created''"
definition EventTypeGuildChannelUpdated :: gostring where "EventTypeGuildChannelUpdated = str ''guild.channel.updated''"
definition EventTypeGuildChannelDeleted :: gostring where "EventTypeGuildChannelDeleted = str ''guild.channel.deleted''"
definition EventTypeGuildChannelOverwriteUpdated :: gostring where
  "EventTypeGuildChannelOverwriteUpdated = str ''guild.channel.overwrite.updated''"
definition EventTypeGuildChannelOverwriteDeleted :: gostring where
  "EventTypeGuildChannelOverwriteDeleted = str ''guild.channel.overwrite.deleted''"

section \<open>Event constructors\<close>

definition newGuildEvent :: "gostring \<Rightarrow> int64 \<Rightarrow> event_data \<Rightarrow> int64 \<Rightarrow> guildEvent" where
  "newGuildEvent eventType guildID data idempotencyKey =
     \<lparr>ge_EventID = idempotencyKey, ge_DeliveryIndex = 0, ge_StreamKey = StreamKey guildID, ge_Type = eventType,
      ge_GuildID = guildID, ge_Key = KafkaKey guildID,
      ge_Payload = \<lparr>ev_Type = eventType, ev_Data = data, ev_AccessRevision = None,
        ev_IdempotencyKey = format_int idempotencyKey, ev_StreamSequence = 0, ev_DeliveryIndex = 0\<rparr>\<rparr>"

definition finalizeEvent :: "eventEnvelope \<Rightarrow> int64 \<Rightarrow> int \<Rightarrow> eventEnvelope" where
  "finalizeEvent payload streamSequence deliveryIndex =
     payload\<lparr>ev_StreamSequence := streamSequence, ev_DeliveryIndex := deliveryIndex\<rparr>"

text \<open>The envelope struct of this function has no sequence and no delivery index, so they are dropped.\<close>

definition addEventAccessRevision :: "eventEnvelope \<Rightarrow> int64 \<Rightarrow> eventEnvelope" where
  "addEventAccessRevision payload accessRevision =
     payload\<lparr>ev_AccessRevision := Some accessRevision, ev_StreamSequence := 0, ev_DeliveryIndex := 0\<rparr>"

definition format_uint :: "perms \<Rightarrow> gostring" where
  "format_uint p = format_int (int (unat p))"

definition userProfilePayloadFromProto :: "UserProfile option \<Rightarrow> userProfilePayload" where
  "userProfilePayloadFromProto profile = (case profile of
       None \<Rightarrow> UserProfilePayload [] [] [] [] 0 0 []
     | Some p \<Rightarrow> UserProfilePayload (format_int (up_UserID p)) (up_Name p) (up_Bio p)
         (format_int (up_AvatarAssetID p)) (up_CreatedAt p) (up_UpdatedAt p) (up_Username p))"

definition guildPayloadFromModel :: "Guild \<Rightarrow> event_data" where
  "guildPayloadFromModel g = guildPayload (format_int (g_ID g)) (format_int (g_OwnerID g)) (g_Name g)
     (g_Description g) (format_int (g_IconAssetID g)) (g_Revision g) (g_CreatedAt g) (g_UpdatedAt g)"

definition guildMemberPayloadFromModel :: "GuildMember \<Rightarrow> UserProfile option \<Rightarrow> event_data" where
  "guildMemberPayloadFromModel m profile = guildMemberPayload (format_int (m_GuildID m)) (format_int (m_UserID m))
     (userProfilePayloadFromProto profile) (m_Nickname m) (m_Revision m) (m_JoinedAt m) (m_UpdatedAt m)"

definition guildRolePayloadFromModel :: "Role \<Rightarrow> event_data" where
  "guildRolePayloadFromModel r = guildRolePayload (format_int (r_ID r)) (format_int (r_GuildID r)) (r_Name r)
     (format_uint (r_Permissions r)) (r_Position r) (r_IsDefault r) (r_Revision r) (r_CreatedAt r) (r_UpdatedAt r)"

definition guildChannelPayloadFromModel :: "Channel \<Rightarrow> int64 \<Rightarrow> event_data" where
  "guildChannelPayloadFromModel c layoutRevision = guildChannelPayload (format_int (c_ID c)) (format_int (c_GuildID c))
     (c_Name c) (c_Type c) (c_Position c) (c_Topic c) (c_Revision c) (c_CreatedAt c) (c_UpdatedAt c)
     (format_int (c_ParentID c)) layoutRevision"

definition newGuildCreatedEvent :: "Guild \<Rightarrow> int64 \<Rightarrow> guildEvent" where
  "newGuildCreatedEvent g = newGuildEvent EventTypeGuildCreated (g_ID g) (guildPayloadFromModel g)"

definition newGuildUpdatedEvent :: "Guild \<Rightarrow> int64 \<Rightarrow> guildEvent" where
  "newGuildUpdatedEvent g = newGuildEvent EventTypeGuildUpdated (g_ID g) (guildPayloadFromModel g)"

definition newGuildDeletedEvent :: "Guild \<Rightarrow> int64 \<Rightarrow> guildEvent" where
  "newGuildDeletedEvent g = newGuildEvent EventTypeGuildDeleted (g_ID g)
     (guildDeletedPayload (format_int (g_ID g)) (g_Revision g) (g_DeletedAt g))"

definition newGuildMemberJoinedEvent :: "GuildMember \<Rightarrow> UserProfile option \<Rightarrow> int64 \<Rightarrow> guildEvent" where
  "newGuildMemberJoinedEvent m profile =
     newGuildEvent EventTypeGuildMemberJoined (m_GuildID m) (guildMemberPayloadFromModel m profile)"

definition newGuildMemberUpdatedEvent :: "GuildMember \<Rightarrow> UserProfile option \<Rightarrow> int64 \<Rightarrow> guildEvent" where
  "newGuildMemberUpdatedEvent m profile =
     newGuildEvent EventTypeGuildMemberUpdated (m_GuildID m) (guildMemberPayloadFromModel m profile)"

definition newGuildMemberRemovedEvent :: "GuildMember \<Rightarrow> int64 \<Rightarrow> guildEvent" where
  "newGuildMemberRemovedEvent m = newGuildEvent EventTypeGuildMemberRemoved (m_GuildID m)
     (guildMemberRemovedPayload (format_int (m_GuildID m)) (format_int (m_UserID m)) (m_Revision m) (m_DeletedAt m))"

definition newGuildMemberBannedEvent ::
  "GuildBan \<Rightarrow> UserProfile option \<Rightarrow> UserProfile option \<Rightarrow> int64 \<Rightarrow> guildEvent" where
  "newGuildMemberBannedEvent b profile actorProfile = newGuildEvent EventTypeGuildMemberBanned (b_GuildID b)
     (guildMemberBannedPayload (format_int (b_GuildID b)) (format_int (b_UserID b)) (format_int (b_ActorUserID b))
       (userProfilePayloadFromProto profile) (userProfilePayloadFromProto actorProfile) (b_Reason b) (b_CreatedAt b))"

definition newGuildMemberUnbannedEvent ::
  "int64 \<Rightarrow> int64 \<Rightarrow> int64 \<Rightarrow> UserProfile option \<Rightarrow> int64 \<Rightarrow> guildEvent" where
  "newGuildMemberUnbannedEvent guildID userID unbannedAt profile = newGuildEvent EventTypeGuildMemberUnbanned guildID
     (guildMemberUnbannedPayload (format_int guildID) (format_int userID) (userProfilePayloadFromProto profile) unbannedAt)"

definition newGuildRoleCreatedEvent :: "Role \<Rightarrow> int64 \<Rightarrow> guildEvent" where
  "newGuildRoleCreatedEvent r = newGuildEvent EventTypeGuildRoleCreated (r_GuildID r) (guildRolePayloadFromModel r)"

definition newGuildRoleUpdatedEvent :: "Role \<Rightarrow> int64 \<Rightarrow> guildEvent" where
  "newGuildRoleUpdatedEvent r = newGuildEvent EventTypeGuildRoleUpdated (r_GuildID r) (guildRolePayloadFromModel r)"

definition newGuildRoleDeletedEvent :: "Role \<Rightarrow> int64 \<Rightarrow> guildEvent" where
  "newGuildRoleDeletedEvent r = newGuildEvent EventTypeGuildRoleDeleted (r_GuildID r)
     (guildRoleDeletedPayload (format_int (r_ID r)) (format_int (r_GuildID r)) (r_Revision r) (r_DeletedAt r))"

definition newGuildMemberRolesUpdatedEvent ::
  "int64 \<Rightarrow> int64 \<Rightarrow> Role list \<Rightarrow> int64 \<Rightarrow> int64 \<Rightarrow> guildEvent" where
  "newGuildMemberRolesUpdatedEvent guildID userID roles updatedAt =
     newGuildEvent EventTypeGuildMemberRolesUpdated guildID
       (guildMemberRolesUpdatedPayload (format_int guildID) (format_int userID)
         (map (\<lambda>r. format_int (r_ID r)) (filter (\<lambda>r. \<not> r_IsDefault r) roles)) updatedAt)"

definition newGuildChannelCreatedEvent :: "Channel \<Rightarrow> int64 \<Rightarrow> int64 \<Rightarrow> guildEvent" where
  "newGuildChannelCreatedEvent c layoutRevision =
     newGuildEvent EventTypeGuildChannelCreated (c_GuildID c) (guildChannelPayloadFromModel c layoutRevision)"

definition newGuildChannelUpdatedEvent :: "Channel \<Rightarrow> int64 \<Rightarrow> int64 \<Rightarrow> guildEvent" where
  "newGuildChannelUpdatedEvent c layoutRevision =
     newGuildEvent EventTypeGuildChannelUpdated (c_GuildID c) (guildChannelPayloadFromModel c layoutRevision)"

definition newGuildChannelDeletedEvent :: "Channel \<Rightarrow> int64 \<Rightarrow> int64 \<Rightarrow> guildEvent" where
  "newGuildChannelDeletedEvent c layoutRevision = newGuildEvent EventTypeGuildChannelDeleted (c_GuildID c)
     (guildChannelDeletedPayload (format_int (c_ID c)) (format_int (c_GuildID c)) (c_Revision c) (c_DeletedAt c)
       layoutRevision)"

definition newGuildChannelOverwriteUpdatedEvent :: "ChannelPermissionOverwrite \<Rightarrow> int64 \<Rightarrow> guildEvent" where
  "newGuildChannelOverwriteUpdatedEvent x = newGuildEvent EventTypeGuildChannelOverwriteUpdated (o_GuildID x)
     (guildChannelOverwritePayload (format_int (o_ChannelID x)) (format_int (o_GuildID x)) (o_AppliesTo x)
       (format_int (o_AppliesToID x)) (format_uint (o_Allow x)) (format_uint (o_Deny x)) (o_Revision x) (o_UpdatedAt x))"

definition newGuildChannelOverwriteDeletedEvent ::
  "int64 \<Rightarrow> int64 \<Rightarrow> int32 \<Rightarrow> int64 \<Rightarrow> int64 \<Rightarrow> guildEvent" where
  "newGuildChannelOverwriteDeletedEvent guildID channelID appliesTo appliesToID =
     newGuildEvent EventTypeGuildChannelOverwriteDeleted guildID
       (guildChannelOverwriteDeletedPayload (format_int channelID) (format_int guildID) appliesTo (format_int appliesToID))"

section \<open>Profiles for events\<close>

text \<open>
  The response must hold exactly one profile for every requested user. \<open>collect_profiles\<close> is the loop
  over the returned profiles.
\<close>

primrec collect_profiles ::
  "int64 list \<Rightarrow> UserProfile option list \<Rightarrow> (int64 \<rightharpoonup> UserProfile) \<Rightarrow> guild_error + (int64 \<rightharpoonup> UserProfile)" where
  "collect_profiles expected [] profiles = Inr profiles"
| "collect_profiles expected (p # ps) profiles = (case p of
       None \<Rightarrow> Inl (Internal (str ''user service returned an invalid profile''))
     | Some profile \<Rightarrow>
         if up_UserID profile \<notin> set expected \<or> profiles (up_UserID profile) \<noteq> None
         then Inl (Internal (str ''user service returned unexpected profiles''))
         else collect_profiles expected ps (profiles(up_UserID profile \<mapsto> profile)))"

definition getEventUserProfiles :: "guild_env \<Rightarrow> int64 list \<Rightarrow> guild_error + (int64 \<rightharpoonup> UserProfile)" where
  "getEventUserProfiles env userIDs = (case e_BatchGetUserProfiles env userIDs of
       Inl e \<Rightarrow> Inl e
     | Inr None \<Rightarrow> Inl (Internal (str ''user service returned an invalid response''))
     | Inr (Some ps) \<Rightarrow>
         (case collect_profiles userIDs ps Map.empty of
            Inl e \<Rightarrow> Inl e
          | Inr profiles \<Rightarrow>
              if \<exists>u\<in>set userIDs. profiles u = None
              then Inl (Internal (str ''user service did not return all profiles''))
              else Inr profiles))"

section \<open>Enqueueing\<close>

text \<open>
  The loop of \<^verbatim>\<open>insertGuildOutbox\<close>: every event but a guild's deletion is stamped with the access
  revision of its guild, read once per guild; record \<open>index\<close> of the batch takes the identifier drawn
  after \<open>k + index\<close> others.
\<close>

definition event_payload :: "(int64 \<rightharpoonup> int64) \<Rightarrow> guildEvent \<Rightarrow> (eventEnvelope \<times> (int64 \<rightharpoonup> int64)) gtx" where
  "event_payload accessRevisions event =
     (if ge_Type event = EventTypeGuildDeleted then tx_return (ge_Payload event, accessRevisions)
      else
        tx_bind (case accessRevisions (ge_GuildID event) of
             Some accessRevision \<Rightarrow> tx_return accessRevision
           | None \<Rightarrow> tx_bind (store_GetGuild (ge_GuildID event)) (\<lambda>guild. tx_return (g_AccessRevision guild)))
          (\<lambda>accessRevision. tx_return (addEventAccessRevision (ge_Payload event) accessRevision,
             accessRevisions(ge_GuildID event \<mapsto> accessRevision))))"

definition outbox_record_for ::
  "guild_env \<Rightarrow> nat \<Rightarrow> reserved_range \<Rightarrow> nat \<Rightarrow> guildEvent \<Rightarrow> eventEnvelope \<Rightarrow> eventEnvelope outbox_record" where
  "outbox_record_for env k rangeValue index event payload =
     (let streamSequence = rr_first rangeValue + int index in
      \<lparr>ob_outbox_id = e_gen env (k + index), ob_event_id = ge_EventID event,
       ob_delivery_index = ge_DeliveryIndex event, ob_stream_key = ge_StreamKey event,
       ob_relay_shard_id = rr_shard rangeValue, ob_stream_sequence = streamSequence,
       ob_topic = EventTopic (e_Topic env), ob_event_type = ge_Type event, ob_key = ge_Key event,
       ob_payload = finalizeEvent payload streamSequence (ge_DeliveryIndex event),
       ob_trace_context = e_trace env, ob_attempts = 0, ob_next_attempt_at = 0,
       ob_created_at = e_outbox_now env\<rparr>)"

primrec outbox_records :: "guild_env \<Rightarrow> nat \<Rightarrow> reserved_range \<Rightarrow> nat \<Rightarrow> (int64 \<rightharpoonup> int64) \<Rightarrow> guildEvent list
    \<Rightarrow> eventEnvelope outbox_record list gtx" where
  "outbox_records env k rangeValue index accessRevisions [] = tx_return []"
| "outbox_records env k rangeValue index accessRevisions (event # events) =
     tx_bind (event_payload accessRevisions event) (\<lambda>(payload, accessRevisions').
     tx_bind (outbox_records env k rangeValue (Suc index) accessRevisions' events) (\<lambda>records.
     tx_return (outbox_record_for env k rangeValue index event payload # records)))"

definition insertGuildOutbox :: "guild_env \<Rightarrow> nat \<Rightarrow> guildEvent list \<Rightarrow> reserved_range \<Rightarrow> unit gtx" where
  "insertGuildOutbox env k events rangeValue =
     tx_bind (outbox_records env k rangeValue 0 Map.empty events) InsertGuildOutbox"

text \<open>The streams of a batch in the order of their first event.\<close>

definition stream_order :: "guildEvent list \<Rightarrow> gostring list" where
  "stream_order events = foldl (\<lambda>order event. if ge_StreamKey event \<in> set order then order else order @ [ge_StreamKey event]) [] events"

abbreviation by_stream :: "guildEvent list \<Rightarrow> gostring \<Rightarrow> guildEvent list" where
  "by_stream events streamKey \<equiv> filter (\<lambda>event. ge_StreamKey event = streamKey) events"

primrec enqueue_streams :: "guild_env \<Rightarrow> nat \<Rightarrow> guildEvent list \<Rightarrow> gostring list \<Rightarrow> unit gtx" where
  "enqueue_streams env k events [] = tx_return ()"
| "enqueue_streams env k events (streamKey # streamKeys) =
     (let group = by_stream events streamKey in
      tx_bind (tx_lift (outbox_result (ShardID streamKey (Shards (e_ShardCount env))))) (\<lambda>shardID.
      tx_then (EnsureGuildStream streamKey shardID)
      (tx_bind (ReserveGuildSequences streamKey (int (length group))) (\<lambda>rangeValue.
      tx_then (insertGuildOutbox env k group rangeValue)
      (enqueue_streams env (k + length group) events streamKeys)))))"

text \<open>\<open>k\<close> is the number of identifiers the handler has drawn before.\<close>

definition enqueueGuildEvents :: "guild_env \<Rightarrow> nat \<Rightarrow> guildEvent list \<Rightarrow> unit gtx" where
  "enqueueGuildEvents env k events =
     (if events = [] then tx_return ()
      else tx_then (enqueue_streams env k events (stream_order events)) NotifyOutbox)"

definition enqueueEvents :: "guild_env \<Rightarrow> nat \<Rightarrow> guildEvent list \<Rightarrow> unit gtx" where
  "enqueueEvents env k events = enqueueGuildEvents env k events"

section \<open>What enqueueing does\<close>

definition access_of :: "guild_db \<Rightarrow> int64 \<Rightarrow> int64 option" where
  "access_of s guildID = map_option g_AccessRevision (List.find (live_guild guildID) (db_guilds s))"

text \<open>The record written for event number \<open>j\<close> of a batch.\<close>

definition record_of :: "guild_env \<Rightarrow> nat \<Rightarrow> reserved_range \<Rightarrow> (int64 \<rightharpoonup> int64) \<Rightarrow> nat \<times> guildEvent \<Rightarrow> eventEnvelope outbox_record" where
  "record_of env k rng acc = (\<lambda>(j, event). outbox_record_for env k rng j event
     (if ge_Type event = EventTypeGuildDeleted then ge_Payload event
      else addEventAccessRevision (ge_Payload event) (the (acc (ge_GuildID event)))))"

lemma store_GetGuild_access: "store_GetGuild gid s = Inr (g, s') \<Longrightarrow> s' = s \<and> access_of s gid = Some (g_AccessRevision g)"
  by (auto simp: store_GetGuild_def access_of_def tx_query_Inr select_one_Inr)

lemma event_payload_Inr:
  assumes "event_payload ar event s = Inr ((payload, ar'), t)" "ar \<subseteq>\<^sub>m access_of s"
  shows "t = s" "ar' \<subseteq>\<^sub>m access_of s" "payload = (if ge_Type event = EventTypeGuildDeleted then ge_Payload event
      else addEventAccessRevision (ge_Payload event) (the (access_of s (ge_GuildID event))))"
    "ge_Type event \<noteq> EventTypeGuildDeleted \<Longrightarrow> access_of s (ge_GuildID event) \<noteq> None"
  using assms by (auto simp: event_payload_def tx_simps map_le_def dom_def split: if_splits option.splits
      dest!: store_GetGuild_access)

lemma outbox_records_Inr:
  assumes "outbox_records env k rng i ar events s = Inr (recs, s')" "ar \<subseteq>\<^sub>m access_of s"
  shows "s' = s \<and> recs = map (record_of env k rng (access_of s)) (enumerate i events)"
  using assms
proof (induction events arbitrary: i ar recs s')
  case (Cons event events)
  obtain payload ar' t rest where h: "event_payload ar event s = Inr ((payload, ar'), t)"
    and rest: "outbox_records env k rng (Suc i) ar' events t = Inr (rest, s')"
    and recs: "recs = outbox_record_for env k rng i event payload # rest"
    using Cons.prems(1) by (auto simp: tx_simps)
  note p = event_payload_Inr[OF h Cons.prems(2)]
  have "s' = s \<and> rest = map (record_of env k rng (access_of s)) (enumerate (Suc i) events)"
    using Cons.IH[of "Suc i" ar' rest s'] rest p(1,2) by simp
  then show ?case using recs p(3) by (simp add: record_of_def)
qed (simp add: tx_simps)

lemma outbox_records_access:
  assumes "outbox_records env k rng i ar events s = Inr (recs, s')" "ar \<subseteq>\<^sub>m access_of s"
    "event \<in> set events" "ge_Type event \<noteq> EventTypeGuildDeleted"
  shows "access_of s (ge_GuildID event) \<noteq> None"
  using assms
proof (induction events arbitrary: i ar recs s')
  case (Cons e events)
  obtain payload ar' t rest where h: "event_payload ar e s = Inr ((payload, ar'), t)"
    and rest: "outbox_records env k rng (Suc i) ar' events t = Inr (rest, s')"
    using Cons.prems(1) by (auto simp: tx_simps)
  note p = event_payload_Inr[OF h Cons.prems(2)]
  show ?case using Cons.IH[OF _ p(2)] rest p(1,4) Cons.prems(3,4) by auto
qed simp

section \<open>Enqueueing is a sequence of outbox commits\<close>

text \<open>
  A contract for the handlers: whatever else they do to the database, its outbox changes only by
  complete commits of the kind the delivery guarantee is about, however the relay is configured and
  whatever it has logged so far.
\<close>

definition commits :: "guild_db \<Rightarrow> guild_db \<Rightarrow> bool" where
  "commits s s' \<longleftrightarrow> (\<forall>cfg klog. (outbox_step cfg)\<^sup>*\<^sup>* (db_outbox s, klog) (db_outbox s', klog))"

interpretation commits: tx_contract commits
proof
  show "commits s t \<Longrightarrow> commits t u \<Longrightarrow> commits s u" for s t u
    unfolding commits_def by (meson rtranclp_trans)
qed (simp add: commits_def)

named_theorems commits_rules \<open>operations that change the outbox by commits only\<close>

lemma commits_same: "db_outbox s' = db_outbox s \<Longrightarrow> commits s s'"
  by (simp add: commits_def)

lemma outbox_result_Inr: "outbox_result r = Inr x \<longleftrightarrow> r = Inr x"
  by (auto simp: outbox_result_def split: sum.splits outbox_error.splits)

lemma InsertGuildOutbox_Inr:
  "InsertGuildOutbox recs s = Inr (u, s') \<longleftrightarrow> (\<exists>ob. InsertBatch recs (db_outbox s) = Inr ob \<and> s' = s\<lparr>db_outbox := ob\<rparr>)"
  by (auto simp: InsertGuildOutbox_def outbox_result_def split: sum.splits outbox_error.splits)

lemma ReserveGuildSequences_Inr:
  "ReserveGuildSequences k n s = Inr (rng, s') \<longleftrightarrow>
     (\<exists>ob. ReserveSequences k n (db_outbox s) = Inr (rng, ob) \<and> s' = s\<lparr>db_outbox := ob\<rparr>)"
  by (auto simp: ReserveGuildSequences_def outbox_result_def split: sum.splits outbox_error.splits)

lemma stamped_record_of:
  "(\<And>e. e \<in> set events \<Longrightarrow> ge_StreamKey e = key) \<Longrightarrow> stamped rng key (map (record_of env k rng acc) (enumerate 0 events))"
  by (auto simp: stamped_def record_of_def outbox_record_for_def Let_def nth_enumerate_eq)

lemma access_of_outbox [simp]: "access_of (s\<lparr>db_outbox := ob\<rparr>) = access_of s"
  by (simp add: access_of_def fun_eq_iff)

text \<open>One stream of a batch: its records follow the last one of the stream, in the order of the events.\<close>

lemma enqueue_stream_Inr:
  assumes "enqueue_streams env k events (key # keys) s = Inr (u, s')"
  obtains shard rng ob1 ob2 where "ShardID key (Shards (e_ShardCount env)) = Inr shard"
    "ReserveSequences key (int (length (by_stream events key))) (EnsureStream key shard (db_outbox s)) = Inr (rng, ob1)"
    "InsertBatch (map (record_of env k rng (access_of s)) (enumerate 0 (by_stream events key))) ob1 = Inr ob2"
    "enqueue_streams env (k + length (by_stream events key)) events keys (s\<lparr>db_outbox := ob2\<rparr>) = Inr (u, s')"
proof -
  obtain shard rng ob1 recs t ob2 where sh: "ShardID key (Shards (e_ShardCount env)) = Inr shard"
    and r: "ReserveSequences key (int (length (by_stream events key))) (EnsureStream key shard (db_outbox s)) = Inr (rng, ob1)"
    and o: "outbox_records env k rng 0 Map.empty (by_stream events key) (s\<lparr>db_outbox := ob1\<rparr>) = Inr (recs, t)"
    and ib: "InsertBatch recs (db_outbox t) = Inr ob2"
    and next_keys: "enqueue_streams env (k + length (by_stream events key)) events keys (t\<lparr>db_outbox := ob2\<rparr>) = Inr (u, s')"
    using assms by (auto simp: Let_def tx_simps outbox_result_Inr EnsureGuildStream_def ReserveGuildSequences_Inr
        insertGuildOutbox_def InsertGuildOutbox_Inr)
  have "t = s\<lparr>db_outbox := ob1\<rparr> \<and> recs = map (record_of env k rng (access_of s)) (enumerate 0 (by_stream events key))"
    using outbox_records_Inr[OF o] by simp
  then show ?thesis using that[OF sh r] ib next_keys by simp
qed

lemma enqueue_streams_commits: "enqueue_streams env k events keys s = Inr (u, s') \<Longrightarrow> commits s s'"
proof (induction keys arbitrary: k s)
  case Nil
  then show ?case by (simp add: tx_simps commits_same)
next
  case (Cons key keys)
  obtain shard rng ob1 ob2 where
    r: "ReserveSequences key (int (length (by_stream events key))) (EnsureStream key shard (db_outbox s)) = Inr (rng, ob1)"
    and i: "InsertBatch (map (record_of env k rng (access_of s)) (enumerate 0 (by_stream events key))) ob1 = Inr ob2"
    and n: "enqueue_streams env (k + length (by_stream events key)) events keys (s\<lparr>db_outbox := ob2\<rparr>) = Inr (u, s')"
    using enqueue_stream_Inr[OF Cons.prems] by metis
  let ?recs = "map (record_of env k rng (access_of s)) (enumerate 0 (by_stream events key))"
  have len: "int (length ?recs) = int (length (by_stream events key))" by simp
  have st: "stamped rng key ?recs" by (rule stamped_record_of) auto
  have "outbox_step cfg (db_outbox s, klog) (ob2, klog)" for cfg klog
    by (rule outbox_step.commit[OF _ st i]) (use r in \<open>simp only: len\<close>)
  then have "commits s (s\<lparr>db_outbox := ob2\<rparr>)" by (auto simp: commits_def)
  then show ?case using Cons.IH[OF n] commits.R_trans by blast
qed

lemma enqueueEvents_commits [commits_rules]: "tx_rel commits (enqueueEvents env k events)"
  unfolding tx_rel_def enqueueEvents_def enqueueGuildEvents_def
  by (auto simp: tx_simps NotifyOutbox_def dest: enqueue_streams_commits intro: commits.R_refl)

lemma core_outbox_records: "tx_rel core_eq (outbox_records env k rng i ar events)"
proof (induction events arbitrary: i ar)
  case (Cons event events)
  have "tx_rel core_eq (event_payload ar event)"
    unfolding event_payload_def store_GetGuild_def by (auto intro!: core.rel_rules split: option.splits)
  then show ?case using Cons.IH by (auto intro!: core.rel_rules split: prod.splits)
qed (simp add: core.rel_return)

lemma core_enqueue_streams: "tx_rel core_eq (enqueue_streams env k events keys)"
  by (induction keys arbitrary: k)
    (auto simp: Let_def insertGuildOutbox_def intro!: core.rel_rules core_rules core_outbox_records)

lemma core_enqueueEvents [core_rules]: "tx_rel core_eq (enqueueEvents env k events)"
  unfolding enqueueEvents_def enqueueGuildEvents_def
  by (auto intro!: core.rel_rules core_rules core_enqueue_streams)

lemmas keys_enqueueEvents [keys_rules] = core_enqueueEvents[THEN core_keys]

lemma enqueueEvents_core: "enqueueEvents env k events s = Inr (u, s') \<Longrightarrow> core_eq s s'"
  by (rule tx_relD[OF core_enqueueEvents])

section \<open>The events of one guild\<close>

lemma stream_order_same:
  assumes "\<And>e. e \<in> set events \<Longrightarrow> ge_StreamKey e = key"
  shows "stream_order events = (if events = [] then [] else [key])"
proof -
  have "foldl (\<lambda>order event. if ge_StreamKey event \<in> set order then order else order @ [ge_StreamKey event]) [key] es = [key]"
    if "set es \<subseteq> set events" for es
    using that by (induction es) (auto dest!: assms)
  then show ?thesis using assms by (cases events) (auto simp: stream_order_def)
qed

lemma stream_last_EnsureStream [simp]: "stream_last (EnsureStream k sh ob) j = stream_last ob j"
proof -
  have "List.find P (xs @ ys) = (case List.find P xs of None \<Rightarrow> List.find P ys | r \<Rightarrow> r)" for P and xs ys :: "stream_row list"
    by (induction xs) auto
  then show ?thesis
    by (auto simp: stream_last_def EnsureStream_def find_None_iff split: option.splits dest: find_SomeD)
qed

lemma enqueueEvents_one_stream:
  assumes e: "enqueueEvents env k events s = Inr (u, s')" and ne: "events \<noteq> []"
    and key: "\<And>e. e \<in> set events \<Longrightarrow> ge_StreamKey e = key"
  obtains rng where "rr_first rng = stream_last (db_outbox s) key + 1"
    "ob_events (db_outbox s') = ob_events (db_outbox s) @ map (record_of env k rng (access_of s)) (enumerate 0 events)"
    "stream_last (db_outbox s') key = stream_last (db_outbox s) key + int (length events)"
proof -
  have grp: "by_stream events key = events" using key by (simp add: filter_id_conv)
  have order: "stream_order events = [key]" using stream_order_same[of events key] key ne by simp
  have "enqueue_streams env k events [key] s = Inr (u, s')"
    using e ne by (auto simp: enqueueEvents_def enqueueGuildEvents_def order tx_simps NotifyOutbox_def
        simp del: enqueue_streams.simps)
  then obtain shard rng ob1 ob2 where
    r: "ReserveSequences key (int (length events)) (EnsureStream key shard (db_outbox s)) = Inr (rng, ob1)"
    and i: "InsertBatch (map (record_of env k rng (access_of s)) (enumerate 0 events)) ob1 = Inr ob2"
    and n: "enqueue_streams env (k + length events) events [] (s\<lparr>db_outbox := ob2\<rparr>) = Inr (u, s')"
    using enqueue_stream_Inr[of env k events key "[]" s u s'] unfolding grp by metis
  have s': "db_outbox s' = ob2" using n by (simp add: tx_simps)
  have "ob_events ob1 = ob_events (db_outbox s)"
    using r by (auto simp: ReserveSequences_def EnsureStream_def split: if_splits option.splits)
  moreover have "ob_events ob2 = ob_events ob1 @ map (record_of env k rng (access_of s)) (enumerate 0 events)"
    "ob_streams ob2 = ob_streams ob1"
    using i ne by (auto simp: InsertBatch_def split: if_splits)
  moreover have "stream_last ob2 key = stream_last ob1 key" using calculation(3) by (simp add: stream_last_def)
  ultimately show ?thesis
    using that[of rng] outbox_seq.reserve_first[OF r] outbox_seq.reserve_last[OF r] outbox_seq.reserve_advance[OF r] s'
    by simp
qed

end
