(* ===== verification/Guild_Validation.thy ===== *)
theory Guild_Validation
  imports Guild_Events
begin

text \<open>
  Request validation (\<^verbatim>\<open>server/validation.go\<close> and the validators of the other handler files) and the
  claim of an idempotency key that the four creating handlers share.
\<close>

section \<open>Names and limits\<close>

abbreviation (input) defaultGuildLimit :: int where "defaultGuildLimit \<equiv> 50"
abbreviation (input) maxGuildLimit :: int where "maxGuildLimit \<equiv> 100"
abbreviation (input) maxGuildNameRunes :: nat where "maxGuildNameRunes \<equiv> 100"
abbreviation (input) maxGuildDescriptionRunes :: nat where "maxGuildDescriptionRunes \<equiv> 1024"
abbreviation (input) maxRoleNameRunes :: nat where "maxRoleNameRunes \<equiv> 100"
abbreviation (input) maxNicknameRunes :: nat where "maxNicknameRunes \<equiv> 32"
abbreviation (input) maxBanReasonRunes :: nat where "maxBanReasonRunes \<equiv> 512"
abbreviation (input) maxChannelNameRunes :: nat where "maxChannelNameRunes \<equiv> 100"
abbreviation (input) maxChannelTopicRunes :: nat where "maxChannelTopicRunes \<equiv> 1024"
abbreviation (input) maxGuildRoleMemberBatch :: nat where "maxGuildRoleMemberBatch \<equiv> 100"
abbreviation (input) defaultMentionTargetsLimit :: int where "defaultMentionTargetsLimit \<equiv> 100"
abbreviation (input) maxMentionTargetsLimit :: int where "maxMentionTargetsLimit \<equiv> 1000"

definition normalizeGuildName :: "gostring \<Rightarrow> guild_error + gostring" where
  "normalizeGuildName name =
     (let name = trim_space name in
      if name = [] then Inl (invalidRequest ''guild name is required'')
      else if length name > maxGuildNameRunes then Inl (invalidRequest ''guild name is too long'')
      else Inr name)"

definition normalizeGuildDescription :: "gostring \<Rightarrow> guild_error + gostring" where
  "normalizeGuildDescription description =
     (let description = trim_space description in
      if length description > maxGuildDescriptionRunes then Inl (invalidRequest ''guild description is too long'')
      else Inr description)"

definition normalizeRoleName :: "gostring \<Rightarrow> guild_error + gostring" where
  "normalizeRoleName name =
     (let name = trim_space name in
      if name = [] then Inl (invalidRequest ''role name is required'')
      else if length name > maxRoleNameRunes then Inl (invalidRequest ''role name is too long'')
      else Inr name)"

definition normalizeNickname :: "gostring \<Rightarrow> guild_error + gostring" where
  "normalizeNickname nickname =
     (let nickname = trim_space nickname in
      if length nickname > maxNicknameRunes then Inl (invalidRequest ''guild nickname is too long'')
      else Inr nickname)"

text \<open>An absent key is \<open>None\<close>; the length limit counts bytes.\<close>

definition validateIdempotencyKey :: "gostring option \<Rightarrow> int \<Rightarrow> guild_error + unit" where
  "validateIdempotencyKey key maxLength = (case key of
       None \<Rightarrow> Inr ()
     | Some key \<Rightarrow>
         if key = [] then Inl (invalidRequest ''idempotency key must not be empty'')
         else if int (byte_len key) > maxLength then Inl (invalidRequest ''idempotency key is too long'')
         else if trim_space key \<noteq> key
         then Inl (invalidRequest ''idempotency key must not have leading or trailing whitespace'')
         else Inr ())"

definition normalizeLimit :: "int32 \<Rightarrow> guild_error + int" where
  "normalizeLimit value =
     (if value = 0 then Inr defaultGuildLimit
      else if value < 0 \<or> value > maxGuildLimit then Inl (invalidRequest ''limit is out of range'')
      else Inr value)"

definition normalizeMentionTargetsLimit :: "int32 \<Rightarrow> guild_error + int" where
  "normalizeMentionTargetsLimit value =
     (if value = 0 then Inr defaultMentionTargetsLimit
      else if value < 0 \<or> value > maxMentionTargetsLimit then Inl (invalidRequest ''limit is out of range'')
      else Inr value)"

text \<open>A field that is validated only when the request has it.\<close>

definition optional :: "('a \<Rightarrow> guild_error + 'b) \<Rightarrow> 'a option \<Rightarrow> guild_error + 'b option" where
  "optional validate field = (case field of
       None \<Rightarrow> Inr None
     | Some x \<Rightarrow> (case validate x of Inl e \<Rightarrow> Inl e | Inr y \<Rightarrow> Inr (Some y)))"

section \<open>Identifiers\<close>

definition validateMemberActorRequest :: "int64 \<Rightarrow> int64 \<Rightarrow> guild_error + unit" where
  "validateMemberActorRequest guildID actorUserID =
     (if guildID \<le> 0 then Inl (invalidRequest ''guild id is required'')
      else if actorUserID \<le> 0 then Inl (invalidRequest ''actor user id is required'')
      else Inr ())"

definition validateRoleRequest :: "int64 \<Rightarrow> int64 \<Rightarrow> int64 \<Rightarrow> guild_error + unit" where
  "validateRoleRequest guildID actorUserID roleID =
     (case validateMemberActorRequest guildID actorUserID of
        Inl e \<Rightarrow> Inl e
      | Inr _ \<Rightarrow> if roleID \<le> 0 then Inl (invalidRequest ''role id is required'') else Inr ())"

definition validateMemberRoleRequest :: "int64 \<Rightarrow> int64 \<Rightarrow> int64 \<Rightarrow> int64 \<Rightarrow> guild_error + unit" where
  "validateMemberRoleRequest guildID actorUserID userID roleID =
     (case validateRoleRequest guildID actorUserID roleID of
        Inl e \<Rightarrow> Inl e
      | Inr _ \<Rightarrow> if userID \<le> 0 then Inl (invalidRequest ''user id is required'') else Inr ())"

definition validateChannelActorRequest :: "int64 \<Rightarrow> int64 \<Rightarrow> guild_error + unit" where
  "validateChannelActorRequest channelID actorUserID =
     (if channelID \<le> 0 then Inl (invalidRequest ''channel id is required'')
      else if actorUserID \<le> 0 then Inl (invalidRequest ''actor user id is required'')
      else Inr ())"

definition validateExpectedChannelLayoutRevision :: "int64 option \<Rightarrow> guild_error + unit" where
  "validateExpectedChannelLayoutRevision revision = (case revision of
       Some r \<Rightarrow> if r \<le> 0 then Inl (invalidRequest ''expected channel layout revision is required'') else Inr ()
     | None \<Rightarrow> Inl (invalidRequest ''expected channel layout revision is required''))"

text \<open>The loop of \<^verbatim>\<open>normalizeRoleMemberUserIDs\<close>: positive identifiers, each kept once in order.\<close>

fun unique_ids :: "int64 list \<Rightarrow> int64 list \<Rightarrow> guild_error + int64 list" where
  "unique_ids unique [] = Inr unique"
| "unique_ids unique (userID # userIDs) =
     (if userID \<le> 0 then Inl (invalidRequest ''user id is required'')
      else if userID \<in> set unique then unique_ids unique userIDs
      else unique_ids (unique @ [userID]) userIDs)"

definition normalizeRoleMemberUserIDs :: "int64 list \<Rightarrow> guild_error + int64 list" where
  "normalizeRoleMemberUserIDs userIDs =
     (if userIDs = [] then Inl (invalidRequest ''user ids are required'')
      else if length userIDs > maxGuildRoleMemberBatch then Inl (invalidRequest ''too many user ids'')
      else unique_ids [] userIDs)"

section \<open>Permissions and channels\<close>

definition validatePermissions :: "perms \<Rightarrow> guild_error + unit" where
  "validatePermissions permissions =
     (if permissions > 9223372036854775807 then Inl (invalidRequest ''permissions exceed storage range'')
      else if and_not permissions AllGuildPermissions \<noteq> 0
      then Inl (invalidRequest ''permissions contain unsupported bits'')
      else Inr ())"

definition normalizeChannelName :: "gostring \<Rightarrow> guild_error + gostring" where
  "normalizeChannelName name =
     (let name = trim_space name in
      if name = [] then Inl (invalidRequest ''channel name is required'')
      else if length name > maxChannelNameRunes then Inl (invalidRequest ''channel name is too long'')
      else Inr name)"

definition validateChannelTopic :: "gostring \<Rightarrow> guild_error + unit" where
  "validateChannelTopic topic =
     (if length topic > maxChannelTopicRunes then Inl (invalidRequest ''channel topic is too long'') else Inr ())"

definition normalizeChannelType :: "int32 \<Rightarrow> guild_error + int32" where
  "normalizeChannelType value =
     (if value = CHANNEL_UNSPECIFIED then Inr CHANNEL_TEXT
      else if value \<noteq> CHANNEL_TEXT \<and> value \<noteq> CHANNEL_CATEGORY \<and> value \<noteq> CHANNEL_VOICE
      then Inl (invalidRequest ''unsupported channel type'')
      else Inr value)"

definition validateOverwriteRequest ::
  "int64 \<Rightarrow> int64 \<Rightarrow> int32 \<Rightarrow> int64 \<Rightarrow> perms \<Rightarrow> perms \<Rightarrow> guild_error + unit" where
  "validateOverwriteRequest channelID actorUserID appliesTo appliesToID allow deny =
     (case validateChannelActorRequest channelID actorUserID of
        Inl e \<Rightarrow> Inl e
      | Inr _ \<Rightarrow>
          if appliesToID \<le> 0 then Inl (invalidRequest ''overwrite applies_to_id is required'')
          else if appliesTo \<noteq> OVERWRITE_ROLE \<and> appliesTo \<noteq> OVERWRITE_MEMBER
          then Inl (invalidRequest ''invalid overwrite applies_to'')
          else if allow AND deny \<noteq> 0 then Inl (invalidRequest ''overwrite allow and deny must not overlap'')
          else if and_not (allow OR deny) AllChannelPermissions \<noteq> 0
          then Inl (invalidRequest ''overwrite contains non-channel permission bits'')
          else Inr ())"

section \<open>Idempotent creation\<close>

definition createGuildOperation :: gostring where "createGuildOperation = str ''guild.create''"
definition createGuildRoleOperation :: gostring where "createGuildRoleOperation = str ''guild.role.create''"
definition createGuildChannelOperation :: gostring where "createGuildChannelOperation = str ''guild.channel.create''"
definition createGuildInviteOperation :: gostring where "createGuildInviteOperation = str ''guild.invite.create''"

text \<open>
  The block that opens the transaction of a creating handler when the request carries a key: claim
  it, refuse a key used for another request, and answer a repeated request from the resource the
  first one created instead of running \<open>create\<close>.
\<close>

definition with_claim :: "guild_env \<Rightarrow> int64 \<Rightarrow> gostring \<Rightarrow> gostring option \<Rightarrow> gostring \<Rightarrow> int64 \<Rightarrow> int64
    \<Rightarrow> (int64 \<Rightarrow> 'a gtx) \<Rightarrow> 'a gtx \<Rightarrow> 'a gtx" where
  "with_claim env actorUserID operation key requestHash resourceID ttl existing create = (case key of
       None \<Rightarrow> create
     | Some key \<Rightarrow>
         tx_bind (ClaimGuildIdempotency \<lparr>ik_ActorUserID = actorUserID, ik_Operation = operation, ik_Key = key,
             ik_RequestHash = requestHash, ik_ResourceID = resourceID, ik_CreatedAt = e_now env,
             ik_ExpiresAt = e_now env + ttl\<rparr>) (\<lambda>claim.
         if cl_RequestHash claim \<noteq> requestHash then tx_fail IdempotencyKeyReused
         else if \<not> cl_Claimed claim then existing (cl_ResourceID claim)
         else create))"

section \<open>Event identifiers\<close>

text \<open>One event per item, each with the next identifier after the \<open>k\<close> drawn before.\<close>

definition draft_events :: "guild_env \<Rightarrow> nat \<Rightarrow> ('a \<Rightarrow> int64 \<Rightarrow> guildEvent) \<Rightarrow> 'a list \<Rightarrow> guildEvent list" where
  "draft_events env k f xs = map (\<lambda>(j, x). f x (e_gen env (k + j))) (enumerate 0 xs)"

end
