(* ===== verification/Guild_Policy.thy ===== *)
theory Guild_Policy
  imports Guild_Permissions
begin

text \<open>
  The specification of the guild service: who may change what. \<open>spec_step a\<close> are the changes of the
  abstract state a user \<open>a\<close> may cause, each with the permission, hierarchy and membership conditions
  it requires. The handler theories show that every handler call is a sequence of such steps
  (refinement); here the steps are shown to keep the invariant \<open>spec_inv\<close> and to be free of
  privilege escalation.
\<close>

section \<open>Conditions\<close>

abbreviation (input) MANAGE_ROLES :: nat where "MANAGE_ROLES \<equiv> 2"
abbreviation (input) MANAGE_MEMBERS :: nat where "MANAGE_MEMBERS \<equiv> 3"
abbreviation (input) KICK_MEMBERS :: nat where "KICK_MEMBERS \<equiv> 4"
abbreviation (input) MANAGE_CHANNELS :: nat where "MANAGE_CHANNELS \<equiv> 7"
abbreviation (input) BAN_MEMBERS :: nat where "BAN_MEMBERS \<equiv> 9"

text \<open>\<open>a\<close> is a member of the live guild \<open>g\<close> with permission number \<open>n\<close>.\<close>

definition may :: "guild_spec \<Rightarrow> int64 \<Rightarrow> int64 \<Rightarrow> nat \<Rightarrow> bool" where
  "may \<sigma> g a n \<longleftrightarrow> sp_owner \<sigma> g \<noteq> None \<and> (g, a) \<in> sp_members \<sigma> \<and> n \<in> eff \<sigma> g a"

text \<open>\<open>a\<close> stands above the member \<open>v\<close>, above a role.\<close>

definition outranks :: "guild_spec \<Rightarrow> int64 \<Rightarrow> int64 \<Rightarrow> int64 \<Rightarrow> bool" where
  "outranks \<sigma> g a v \<longleftrightarrow> sp_owner \<sigma> g = Some a \<or> sp_owner \<sigma> g \<noteq> Some v \<and> rank \<sigma> g v < rank \<sigma> g a"

definition controls :: "guild_spec \<Rightarrow> int64 \<Rightarrow> int64 \<Rightarrow> role_info \<Rightarrow> bool" where
  "controls \<sigma> g a i \<longleftrightarrow> sp_owner \<sigma> g = Some a \<or> \<not> ri_default i \<and> ri_pos i < rank \<sigma> g a"

definition parent_ok :: "guild_spec \<Rightarrow> int64 \<Rightarrow> int32 \<Rightarrow> int64 \<Rightarrow> bool" where
  "parent_ok \<sigma> g ty p \<longleftrightarrow> p = 0 \<or> ty \<noteq> CHANNEL_CATEGORY \<and>
     (\<exists>c. sp_channels \<sigma> p = Some c \<and> ci_guild c = g \<and> ci_type c = CHANNEL_CATEGORY)"

text \<open>The subject of an overwrite: a role or a member the actor may manage.\<close>

definition subject_ok :: "guild_spec \<Rightarrow> int64 \<Rightarrow> int64 \<Rightarrow> int32 \<Rightarrow> int64 \<Rightarrow> bool" where
  "subject_ok \<sigma> g a ty tid \<longleftrightarrow>
     ty = OVERWRITE_ROLE \<and> (\<exists>i. sp_roles \<sigma> tid = Some i \<and> ri_guild i = g \<and> (ri_default i \<or> controls \<sigma> g a i))
     \<or> ty = OVERWRITE_MEMBER \<and> (g, tid) \<in> sp_members \<sigma> \<and> outranks \<sigma> g a tid"

section \<open>Effects\<close>

definition remove_member :: "int64 \<Rightarrow> int64 \<Rightarrow> guild_spec \<Rightarrow> guild_spec" where
  "remove_member g v \<sigma> = \<sigma>\<lparr>sp_members := sp_members \<sigma> - {(g, v)},
     sp_assigned := {k \<in> sp_assigned \<sigma>. \<not> (fst k = g \<and> fst (snd k) = v)},
     sp_overwrites := map_without (\<lambda>k i. oi_guild i = g \<and> snd k = (OVERWRITE_MEMBER, v)) (sp_overwrites \<sigma>)\<rparr>"

definition drop_guild :: "int64 \<Rightarrow> guild_spec \<Rightarrow> guild_spec" where
  "drop_guild g \<sigma> = \<lparr>sp_owner = (sp_owner \<sigma>)(g := None),
     sp_members = {k \<in> sp_members \<sigma>. fst k \<noteq> g},
     sp_roles = map_without (\<lambda>_ i. ri_guild i = g) (sp_roles \<sigma>),
     sp_assigned = {k \<in> sp_assigned \<sigma>. \<not> fst k = g},
     sp_channels = map_without (\<lambda>_ i. ci_guild i = g) (sp_channels \<sigma>),
     sp_overwrites = map_without (\<lambda>_ i. oi_guild i = g) (sp_overwrites \<sigma>),
     sp_banned = {k \<in> sp_banned \<sigma>. fst k \<noteq> g}\<rparr>"

definition drop_role :: "int64 \<Rightarrow> int64 \<Rightarrow> guild_spec \<Rightarrow> guild_spec" where
  "drop_role g rid \<sigma> = \<sigma>\<lparr>sp_roles := (sp_roles \<sigma>)(rid := None),
     sp_assigned := {k \<in> sp_assigned \<sigma>. \<not> (fst k = g \<and> snd (snd k) = rid)},
     sp_overwrites := map_without (\<lambda>k i. oi_guild i = g \<and> snd k = (OVERWRITE_ROLE, rid)) (sp_overwrites \<sigma>)\<rparr>"

definition drop_channel :: "int64 \<Rightarrow> int64 \<Rightarrow> chan_info \<Rightarrow> guild_spec \<Rightarrow> guild_spec" where
  "drop_channel g cid c \<sigma> = \<sigma>\<lparr>
     sp_channels := (if ci_type c = CHANNEL_CATEGORY then unparent g cid (sp_channels \<sigma>) else sp_channels \<sigma>)(cid := None),
     sp_overwrites := map_without (\<lambda>k _. fst k = cid) (sp_overwrites \<sigma>)\<rparr>"

section \<open>Steps\<close>

inductive spec_step :: "int64 \<Rightarrow> guild_spec \<Rightarrow> guild_spec \<Rightarrow> bool" for a where
  create_guild: "sp_owner \<sigma> g = None \<Longrightarrow> sp_roles \<sigma> g = None \<Longrightarrow> (g, a) \<notin> sp_banned \<sigma> \<Longrightarrow>
    spec_step a \<sigma> (\<sigma>\<lparr>sp_owner := (sp_owner \<sigma>)(g \<mapsto> a), sp_members := insert (g, a) (sp_members \<sigma>),
      sp_roles := (sp_roles \<sigma>)(g \<mapsto> \<lparr>ri_guild = g, ri_perms = 1120, ri_pos = 0, ri_default = True\<rparr>)\<rparr>)"
| delete_guild: "sp_owner \<sigma> g = Some a \<Longrightarrow> spec_step a \<sigma> (drop_guild g \<sigma>)"
| transfer: "sp_owner \<sigma> g = Some a \<Longrightarrow> (g, u) \<in> sp_members \<sigma> \<Longrightarrow>
    spec_step a \<sigma> (\<sigma>\<lparr>sp_owner := (sp_owner \<sigma>)(g \<mapsto> u)\<rparr>)"
| add_member: "may \<sigma> g a MANAGE_MEMBERS \<Longrightarrow> (g, u) \<notin> sp_banned \<sigma> \<Longrightarrow> (g, u) \<notin> sp_members \<sigma> \<Longrightarrow>
    spec_step a \<sigma> (\<sigma>\<lparr>sp_members := insert (g, u) (sp_members \<sigma>)\<rparr>)"
| join: "sp_owner \<sigma> g \<noteq> None \<Longrightarrow> (g, a) \<notin> sp_banned \<sigma> \<Longrightarrow> (g, a) \<notin> sp_members \<sigma> \<Longrightarrow>
    spec_step a \<sigma> (\<sigma>\<lparr>sp_members := insert (g, a) (sp_members \<sigma>)\<rparr>)"
| leave: "(g, a) \<in> sp_members \<sigma> \<Longrightarrow> sp_owner \<sigma> g \<noteq> None \<Longrightarrow> sp_owner \<sigma> g \<noteq> Some a \<Longrightarrow>
    spec_step a \<sigma> (remove_member g a \<sigma>)"
| kick: "may \<sigma> g a KICK_MEMBERS \<Longrightarrow> (g, v) \<in> sp_members \<sigma> \<Longrightarrow> sp_owner \<sigma> g \<noteq> Some v \<Longrightarrow> outranks \<sigma> g a v \<Longrightarrow>
    spec_step a \<sigma> (remove_member g v \<sigma>)"
| ban: "may \<sigma> g a BAN_MEMBERS \<Longrightarrow> a \<noteq> v \<Longrightarrow> sp_owner \<sigma> g \<noteq> Some v \<Longrightarrow>
    ((g, v) \<in> sp_members \<sigma> \<Longrightarrow> outranks \<sigma> g a v) \<Longrightarrow>
    \<tau> = (if (g, v) \<in> sp_members \<sigma> then remove_member g v \<sigma> else \<sigma>) \<Longrightarrow>
    spec_step a \<sigma> (\<tau>\<lparr>sp_banned := insert (g, v) (sp_banned \<sigma>)\<rparr>)"
| unban: "may \<sigma> g a BAN_MEMBERS \<Longrightarrow> spec_step a \<sigma> (\<sigma>\<lparr>sp_banned := sp_banned \<sigma> - {(g, v)}\<rparr>)"
| create_role: "may \<sigma> g a MANAGE_ROLES \<Longrightarrow> bits p \<subseteq> eff \<sigma> g a \<Longrightarrow> sp_roles \<sigma> rid = None \<Longrightarrow>
    0 < pos \<Longrightarrow> pos \<le> MaxInt32 \<Longrightarrow> sp_owner \<sigma> g = Some a \<or> pos < rank \<sigma> g a \<Longrightarrow>
    spec_step a \<sigma> (\<sigma>\<lparr>sp_roles := (sp_roles \<sigma>)(rid \<mapsto> \<lparr>ri_guild = g, ri_perms = p, ri_pos = pos, ri_default = False\<rparr>)\<rparr>)"
| update_role: "may \<sigma> g a MANAGE_ROLES \<Longrightarrow> sp_roles \<sigma> rid = Some i \<Longrightarrow> ri_guild i = g \<Longrightarrow> bits p \<subseteq> eff \<sigma> g a \<Longrightarrow>
    ri_default i \<or> controls \<sigma> g a i \<Longrightarrow>
    spec_step a \<sigma> (\<sigma>\<lparr>sp_roles := (sp_roles \<sigma>)(rid \<mapsto> i\<lparr>ri_perms := p\<rparr>)\<rparr>)"
| delete_role: "may \<sigma> g a MANAGE_ROLES \<Longrightarrow> sp_roles \<sigma> rid = Some i \<Longrightarrow> ri_guild i = g \<Longrightarrow> \<not> ri_default i \<Longrightarrow>
    controls \<sigma> g a i \<Longrightarrow> spec_step a \<sigma> (drop_role g rid \<sigma>)"
| reorder_roles: "may \<sigma> g a MANAGE_ROLES \<Longrightarrow>
    (\<And>rid pos. req rid = Some pos \<Longrightarrow> 0 < pos \<and> pos \<le> MaxInt32 \<and> (sp_owner \<sigma> g = Some a \<or> pos < rank \<sigma> g a)
       \<and> (\<exists>i. sp_roles \<sigma> rid = Some i \<and> ri_guild i = g \<and> \<not> ri_default i \<and> controls \<sigma> g a i)) \<Longrightarrow>
    spec_step a \<sigma> (\<sigma>\<lparr>sp_roles := reposition g req (sp_roles \<sigma>)\<rparr>)"
| assign: "may \<sigma> g a MANAGE_ROLES \<Longrightarrow> sp_roles \<sigma> rid = Some i \<Longrightarrow> ri_guild i = g \<Longrightarrow> \<not> ri_default i \<Longrightarrow>
    controls \<sigma> g a i \<Longrightarrow> bits (ri_perms i) \<subseteq> eff \<sigma> g a \<Longrightarrow> (g, v) \<in> sp_members \<sigma> \<Longrightarrow> outranks \<sigma> g a v \<Longrightarrow>
    spec_step a \<sigma> (\<sigma>\<lparr>sp_assigned := insert (g, v, rid) (sp_assigned \<sigma>)\<rparr>)"
| unassign: "may \<sigma> g a MANAGE_ROLES \<Longrightarrow> sp_roles \<sigma> rid = Some i \<Longrightarrow> ri_guild i = g \<Longrightarrow> \<not> ri_default i \<Longrightarrow>
    controls \<sigma> g a i \<Longrightarrow> (g, v) \<in> sp_members \<sigma> \<Longrightarrow> outranks \<sigma> g a v \<Longrightarrow>
    spec_step a \<sigma> (\<sigma>\<lparr>sp_assigned := sp_assigned \<sigma> - {(g, v, rid)}\<rparr>)"
| create_channel: "may \<sigma> g a MANAGE_CHANNELS \<Longrightarrow> sp_channels \<sigma> cid = None \<Longrightarrow> ty \<in> {1, 2, 3} \<Longrightarrow> parent_ok \<sigma> g ty p \<Longrightarrow>
    spec_step a \<sigma> (\<sigma>\<lparr>sp_channels := (sp_channels \<sigma>)(cid \<mapsto> \<lparr>ci_guild = g, ci_type = ty, ci_parent = p\<rparr>),
      sp_overwrites := (sp_overwrites \<sigma>)((cid, OVERWRITE_ROLE, g) \<mapsto> \<lparr>oi_guild = g, oi_allow = 0, oi_deny = 0\<rparr>)\<rparr>)"
| move_channels: "may \<sigma> g a MANAGE_CHANNELS \<Longrightarrow>
    (\<And>cid p. req cid = Some p \<Longrightarrow>
       \<exists>c. sp_channels \<sigma> cid = Some c \<and> ci_guild c = g \<and> (p = ci_parent c \<or> parent_ok \<sigma> g (ci_type c) p)) \<Longrightarrow>
    spec_step a \<sigma> (\<sigma>\<lparr>sp_channels := reparent g req (sp_channels \<sigma>)\<rparr>)"
| delete_channel: "may \<sigma> g a MANAGE_CHANNELS \<Longrightarrow> sp_channels \<sigma> cid = Some c \<Longrightarrow> ci_guild c = g \<Longrightarrow>
    spec_step a \<sigma> (drop_channel g cid c \<sigma>)"
| set_overwrite: "may \<sigma> g a MANAGE_CHANNELS \<Longrightarrow> sp_channels \<sigma> cid = Some c \<Longrightarrow> ci_guild c = g \<Longrightarrow>
    bits allow \<subseteq> eff \<sigma> g a \<Longrightarrow> allow AND deny = 0 \<Longrightarrow> and_not (allow OR deny) AllChannelPermissions = 0 \<Longrightarrow>
    subject_ok \<sigma> g a ty tid \<Longrightarrow>
    spec_step a \<sigma> (\<sigma>\<lparr>sp_overwrites := (sp_overwrites \<sigma>)((cid, ty, tid) \<mapsto> \<lparr>oi_guild = g, oi_allow = allow, oi_deny = deny\<rparr>)\<rparr>)"
| delete_overwrite: "may \<sigma> g a MANAGE_CHANNELS \<Longrightarrow> sp_channels \<sigma> cid = Some c \<Longrightarrow> ci_guild c = g \<Longrightarrow>
    \<not> (ty = OVERWRITE_ROLE \<and> tid = g) \<Longrightarrow> subject_ok \<sigma> g a ty tid \<Longrightarrow>
    spec_step a \<sigma> (\<sigma>\<lparr>sp_overwrites := map_without (\<lambda>k _. k = (cid, ty, tid)) (sp_overwrites \<sigma>)\<rparr>)"

text \<open>A call of user \<open>a\<close> is a sequence of such steps.\<close>

abbreviation spec_steps :: "int64 \<Rightarrow> guild_spec \<Rightarrow> guild_spec \<Rightarrow> bool" where
  "spec_steps a \<equiv> (spec_step a)\<^sup>*\<^sup>*"

section \<open>The invariant\<close>

definition roles_inv :: "guild_spec \<Rightarrow> bool" where
  "roles_inv \<sigma> \<longleftrightarrow> finite (dom (sp_roles \<sigma>)) \<and>
     (\<forall>rid i. sp_roles \<sigma> rid = Some i \<longrightarrow> sp_owner \<sigma> (ri_guild i) \<noteq> None \<and> bits (ri_perms i) \<subseteq> {..<12}
        \<and> (ri_default i \<longleftrightarrow> rid = ri_guild i) \<and> (if ri_default i then ri_pos i = 0 else 0 < ri_pos i) \<and> ri_pos i \<le> MaxInt32)
     \<and> (\<forall>g. sp_owner \<sigma> g \<noteq> None \<longrightarrow> (\<exists>i. sp_roles \<sigma> g = Some i \<and> ri_guild i = g))"

definition members_inv :: "guild_spec \<Rightarrow> bool" where
  "members_inv \<sigma> \<longleftrightarrow> (\<forall>g u. sp_owner \<sigma> g = Some u \<longrightarrow> (g, u) \<in> sp_members \<sigma>)
     \<and> (\<forall>g u. (g, u) \<in> sp_members \<sigma> \<longrightarrow> sp_owner \<sigma> g \<noteq> None)
     \<and> (\<forall>g u. (g, u) \<in> sp_banned \<sigma> \<longrightarrow> sp_owner \<sigma> g \<noteq> None \<and> (g, u) \<notin> sp_members \<sigma>)
     \<and> (\<forall>g u rid. (g, u, rid) \<in> sp_assigned \<sigma> \<longrightarrow> (g, u) \<in> sp_members \<sigma>
          \<and> (\<exists>i. sp_roles \<sigma> rid = Some i \<and> ri_guild i = g \<and> \<not> ri_default i))"

definition channels_inv :: "guild_spec \<Rightarrow> bool" where
  "channels_inv \<sigma> \<longleftrightarrow>
     (\<forall>cid c. sp_channels \<sigma> cid = Some c \<longrightarrow> sp_owner \<sigma> (ci_guild c) \<noteq> None \<and> ci_type c \<in> {1, 2, 3}
        \<and> parent_ok \<sigma> (ci_guild c) (ci_type c) (ci_parent c)
        \<and> sp_overwrites \<sigma> (cid, OVERWRITE_ROLE, ci_guild c) \<noteq> None)"

definition overwrites_inv :: "guild_spec \<Rightarrow> bool" where
  "overwrites_inv \<sigma> \<longleftrightarrow>
     (\<forall>cid ty tid x. sp_overwrites \<sigma> (cid, ty, tid) = Some x \<longrightarrow>
        (\<exists>c. sp_channels \<sigma> cid = Some c \<and> ci_guild c = oi_guild x)
        \<and> oi_allow x AND oi_deny x = 0 \<and> and_not (oi_allow x OR oi_deny x) AllChannelPermissions = 0
        \<and> (ty = OVERWRITE_ROLE \<and> (\<exists>i. sp_roles \<sigma> tid = Some i \<and> ri_guild i = oi_guild x)
           \<or> ty = OVERWRITE_MEMBER \<and> (oi_guild x, tid) \<in> sp_members \<sigma>))"

definition spec_inv :: "guild_spec \<Rightarrow> bool" where
  "spec_inv \<sigma> \<longleftrightarrow> roles_inv \<sigma> \<and> members_inv \<sigma> \<and> channels_inv \<sigma> \<and> overwrites_inv \<sigma>"

definition spec_init :: guild_spec where
  "spec_init = \<lparr>sp_owner = Map.empty, sp_members = {}, sp_roles = Map.empty, sp_assigned = {},
     sp_channels = Map.empty, sp_overwrites = Map.empty, sp_banned = {}\<rparr>"

lemma spec_inv_init: "spec_inv spec_init"
  by (simp add: spec_inv_def roles_inv_def members_inv_def channels_inv_def overwrites_inv_def spec_init_def)

lemma roles_invD:
  assumes "roles_inv \<sigma>" "sp_roles \<sigma> rid = Some i"
  shows "sp_owner \<sigma> (ri_guild i) \<noteq> None" "bits (ri_perms i) \<subseteq> {..<12}" "ri_default i \<longleftrightarrow> rid = ri_guild i"
    "ri_default i \<Longrightarrow> ri_pos i = 0" "\<not> ri_default i \<Longrightarrow> 0 < ri_pos i" "0 \<le> ri_pos i" "ri_pos i \<le> MaxInt32"
proof -
  have *: "sp_owner \<sigma> (ri_guild i) \<noteq> None \<and> bits (ri_perms i) \<subseteq> {..<12}
        \<and> (ri_default i \<longleftrightarrow> rid = ri_guild i) \<and> (if ri_default i then ri_pos i = 0 else 0 < ri_pos i) \<and> ri_pos i \<le> MaxInt32"
    using assms unfolding roles_inv_def by blast
  show "sp_owner \<sigma> (ri_guild i) \<noteq> None" "bits (ri_perms i) \<subseteq> {..<12}" "ri_default i \<longleftrightarrow> rid = ri_guild i"
    "ri_default i \<Longrightarrow> ri_pos i = 0" "\<not> ri_default i \<Longrightarrow> 0 < ri_pos i" "0 \<le> ri_pos i" "ri_pos i \<le> MaxInt32"
    using * by (auto split: if_splits)
qed

lemma roles_inv_default: "roles_inv \<sigma> \<Longrightarrow> sp_owner \<sigma> g \<noteq> None \<Longrightarrow> \<exists>i. sp_roles \<sigma> g = Some i \<and> ri_guild i = g"
  unfolding roles_inv_def by blast

lemma roles_inv_finite: "roles_inv \<sigma> \<Longrightarrow> finite (dom (sp_roles \<sigma>))"
  unfolding roles_inv_def by blast

lemma base_bits_bound: "roles_inv \<sigma> \<Longrightarrow> base_bits \<sigma> g u \<subseteq> {..<12}"
  unfolding base_bits_def using roles_invD(2) by blast

lemma eff_bound: "roles_inv \<sigma> \<Longrightarrow> eff \<sigma> g u \<subseteq> {..<12}"
  using base_bits_bound by (auto simp: eff_def)

lemma members_invD:
  assumes "members_inv \<sigma>"
  shows "sp_owner \<sigma> g = Some u \<Longrightarrow> (g, u) \<in> sp_members \<sigma>" "(g, u) \<in> sp_members \<sigma> \<Longrightarrow> sp_owner \<sigma> g \<noteq> None"
    "(g, u) \<in> sp_banned \<sigma> \<Longrightarrow> sp_owner \<sigma> g \<noteq> None" "(g, u) \<in> sp_banned \<sigma> \<Longrightarrow> (g, u) \<notin> sp_members \<sigma>"
    "(g, u, rid) \<in> sp_assigned \<sigma> \<Longrightarrow> (g, u) \<in> sp_members \<sigma>"
    "(g, u, rid) \<in> sp_assigned \<sigma> \<Longrightarrow> \<exists>i. sp_roles \<sigma> rid = Some i \<and> ri_guild i = g \<and> \<not> ri_default i"
  using assms unfolding members_inv_def by blast+

lemma channels_invD:
  assumes "channels_inv \<sigma>" "sp_channels \<sigma> cid = Some c"
  shows "sp_owner \<sigma> (ci_guild c) \<noteq> None" "ci_type c \<in> {1, 2, 3}" "parent_ok \<sigma> (ci_guild c) (ci_type c) (ci_parent c)"
    "sp_overwrites \<sigma> (cid, OVERWRITE_ROLE, ci_guild c) \<noteq> None"
  using assms unfolding channels_inv_def by blast+

lemma overwrites_invD:
  assumes "overwrites_inv \<sigma>" "sp_overwrites \<sigma> (cid, ty, tid) = Some x"
  shows "\<exists>c. sp_channels \<sigma> cid = Some c \<and> ci_guild c = oi_guild x" "oi_allow x AND oi_deny x = 0"
    "and_not (oi_allow x OR oi_deny x) AllChannelPermissions = 0"
    "ty = OVERWRITE_ROLE \<and> (\<exists>i. sp_roles \<sigma> tid = Some i \<and> ri_guild i = oi_guild x)
       \<or> ty = OVERWRITE_MEMBER \<and> (oi_guild x, tid) \<in> sp_members \<sigma>"
  using assms unfolding overwrites_inv_def by blast+

lemma spec_invD:
  assumes "spec_inv \<sigma>"
  shows "roles_inv \<sigma>" "members_inv \<sigma>" "channels_inv \<sigma>" "overwrites_inv \<sigma>"
  using assms by (simp_all add: spec_inv_def)

subsection \<open>Every step keeps it\<close>

lemma roles_invI:
  assumes "finite (dom (sp_roles \<tau>))"
    "\<And>rid i. sp_roles \<tau> rid = Some i \<Longrightarrow> sp_owner \<tau> (ri_guild i) \<noteq> None"
    "\<And>rid i. sp_roles \<tau> rid = Some i \<Longrightarrow> bits (ri_perms i) \<subseteq> {..<12} \<and> (ri_default i \<longleftrightarrow> rid = ri_guild i)
       \<and> (if ri_default i then ri_pos i = 0 else 0 < ri_pos i) \<and> ri_pos i \<le> MaxInt32"
    "\<And>g. sp_owner \<tau> g \<noteq> None \<Longrightarrow> \<exists>i. sp_roles \<tau> g = Some i \<and> ri_guild i = g"
  shows "roles_inv \<tau>"
  using assms unfolding roles_inv_def by blast

text \<open>Changes that leave roles and owners alone.\<close>

lemma roles_inv_frame: "roles_inv \<sigma> \<Longrightarrow> sp_roles \<tau> = sp_roles \<sigma> \<Longrightarrow> sp_owner \<tau> = sp_owner \<sigma> \<Longrightarrow> roles_inv \<tau>"
  by (simp add: roles_inv_def)

lemma bits_default: "bits (1120 :: perms) \<subseteq> {..<12}"
proof -
  have "and_not (1120 :: perms) AllGuildPermissions = 0" by (simp add: AllGuild_val and_not_def)
  then have "bits (1120 :: perms) \<subseteq> bits AllGuildPermissions" unfolding and_not_zero_iff by blast
  then show ?thesis using bits_AllGuild by simp
qed

lemma role_write_roles_inv:
  assumes "roles_inv \<sigma>" "sp_owner \<sigma> (ri_guild i) \<noteq> None" "bits (ri_perms i) \<subseteq> {..<12}" "ri_default i \<longleftrightarrow> rid = ri_guild i"
    "if ri_default i then ri_pos i = 0 else 0 < ri_pos i" "ri_pos i \<le> MaxInt32"
    "\<And>j. sp_roles \<sigma> rid = Some j \<Longrightarrow> ri_guild j = ri_guild i"
    "sp_roles \<tau> = (sp_roles \<sigma>)(rid \<mapsto> i)" "sp_owner \<tau> = sp_owner \<sigma>"
  shows "roles_inv \<tau>"
proof (rule roles_invI)
  show "finite (dom (sp_roles \<tau>))" using assms(8) roles_inv_finite[OF assms(1)] by simp
  show "sp_owner \<tau> (ri_guild j) \<noteq> None" if "sp_roles \<tau> r = Some j" for r j
    using that assms(2,8,9) roles_invD(1)[OF assms(1)] by (auto split: if_splits)
  show "bits (ri_perms j) \<subseteq> {..<12} \<and> (ri_default j \<longleftrightarrow> r = ri_guild j)
       \<and> (if ri_default j then ri_pos j = 0 else 0 < ri_pos j) \<and> ri_pos j \<le> MaxInt32" if "sp_roles \<tau> r = Some j" for r j
  proof (cases "r = rid")
    case True
    then have "j = i" using that assms(8) by simp
    then show ?thesis using True assms(3-6) by simp
  next
    case False
    then have "sp_roles \<sigma> r = Some j" using that assms(8) by simp
    from roles_invD[OF assms(1) this] show ?thesis by simp
  qed
  show "\<exists>j. sp_roles \<tau> g = Some j \<and> ri_guild j = g" if "sp_owner \<tau> g \<noteq> None" for g
    using roles_inv_default[OF assms(1), of g] that assms(7,8,9) by auto
qed

lemma roles_inv_reposition:
  assumes inv: "roles_inv \<sigma>" and req: "\<And>rid pos. req rid = Some pos \<Longrightarrow> 0 < pos \<and> pos \<le> MaxInt32"
  shows "roles_inv (\<sigma>\<lparr>sp_roles := reposition g req (sp_roles \<sigma>)\<rparr>)"
proof (rule roles_invI)
  have old: "\<exists>j. sp_roles \<sigma> rid = Some j \<and> ri_guild i = ri_guild j \<and> ri_perms i = ri_perms j \<and> ri_default i = ri_default j
      \<and> (ri_pos i = ri_pos j \<or> \<not> ri_default j \<and> req rid = Some (ri_pos i))"
    if "reposition g req (sp_roles \<sigma>) rid = Some i" for rid i
    using that by (auto simp: reposition_def split: option.splits if_splits)
  show "finite (dom (sp_roles (\<sigma>\<lparr>sp_roles := reposition g req (sp_roles \<sigma>)\<rparr>)))"
    by (rule finite_subset[OF _ roles_inv_finite[OF inv]]) (auto dest: old)
  show "sp_owner (\<sigma>\<lparr>sp_roles := reposition g req (sp_roles \<sigma>)\<rparr>) (ri_guild i) \<noteq> None"
    if "sp_roles (\<sigma>\<lparr>sp_roles := reposition g req (sp_roles \<sigma>)\<rparr>) rid = Some i" for rid i
    using old[of rid i] that roles_invD(1)[OF inv] by fastforce
  show "bits (ri_perms i) \<subseteq> {..<12} \<and> (ri_default i \<longleftrightarrow> rid = ri_guild i)
       \<and> (if ri_default i then ri_pos i = 0 else 0 < ri_pos i) \<and> ri_pos i \<le> MaxInt32"
    if r: "sp_roles (\<sigma>\<lparr>sp_roles := reposition g req (sp_roles \<sigma>)\<rparr>) rid = Some i" for rid i
  proof -
    obtain j where j: "sp_roles \<sigma> rid = Some j" "ri_guild i = ri_guild j" "ri_perms i = ri_perms j" "ri_default i = ri_default j"
      "ri_pos i = ri_pos j \<or> \<not> ri_default j \<and> req rid = Some (ri_pos i)" using old[of rid i] r by auto
    note jd = roles_invD[OF inv j(1)]
    show ?thesis using j(2-5) jd req[of rid "ri_pos i"] by auto
  qed
  show "\<exists>i. sp_roles (\<sigma>\<lparr>sp_roles := reposition g req (sp_roles \<sigma>)\<rparr>) h = Some i \<and> ri_guild i = h"
    if o: "sp_owner (\<sigma>\<lparr>sp_roles := reposition g req (sp_roles \<sigma>)\<rparr>) h \<noteq> None" for h
  proof -
    obtain i where i: "sp_roles \<sigma> h = Some i" "ri_guild i = h" using roles_inv_default[OF inv, of h] o by auto
    then show ?thesis by (auto simp: reposition_def split: option.split)
  qed
qed

lemma spec_step_roles:
  assumes "spec_step a \<sigma> \<tau>" "spec_inv \<sigma>"
  shows "roles_inv \<tau>"
proof -
  note inv = spec_invD(1)[OF assms(2)] and mem = spec_invD(2)[OF assms(2)]
  note D = roles_invD[OF inv] and dflt = roles_inv_default[OF inv] and fin = roles_inv_finite[OF inv]
  from assms(1) show ?thesis
  proof cases
    case (create_guild g)
    show ?thesis
    proof (rule roles_invI)
      show "finite (dom (sp_roles \<tau>))" using create_guild fin by simp
      show "sp_owner \<tau> (ri_guild i) \<noteq> None" if "sp_roles \<tau> rid = Some i" for rid i
        using that create_guild D(1) by (auto split: if_splits)
      show "bits (ri_perms i) \<subseteq> {..<12} \<and> (ri_default i \<longleftrightarrow> rid = ri_guild i)
         \<and> (if ri_default i then ri_pos i = 0 else 0 < ri_pos i) \<and> ri_pos i \<le> MaxInt32" if r: "sp_roles \<tau> rid = Some i" for rid i
      proof (cases "rid = g")
        case True
        then have "i = \<lparr>ri_guild = g, ri_perms = 1120, ri_pos = 0, ri_default = True\<rparr>" using r create_guild by simp
        then show ?thesis using True bits_default by simp
      next
        case False
        then have "sp_roles \<sigma> rid = Some i" using r create_guild by simp
        from D[OF this] show ?thesis by simp
      qed
      show "\<exists>i. sp_roles \<tau> h = Some i \<and> ri_guild i = h" if "sp_owner \<tau> h \<noteq> None" for h
        using that create_guild dflt[of h] by auto
    qed
  next
    case (delete_guild g)
    show ?thesis
    proof (rule roles_invI)
      show "finite (dom (sp_roles \<tau>))"
        unfolding delete_guild(1) drop_guild_def by (rule finite_subset[OF _ fin]) auto
      show "sp_owner \<tau> (ri_guild i) \<noteq> None" if "sp_roles \<tau> rid = Some i" for rid i
        using that D(1) by (auto simp: delete_guild(1) drop_guild_def)
      show "bits (ri_perms i) \<subseteq> {..<12} \<and> (ri_default i \<longleftrightarrow> rid = ri_guild i)
         \<and> (if ri_default i then ri_pos i = 0 else 0 < ri_pos i) \<and> ri_pos i \<le> MaxInt32" if "sp_roles \<tau> rid = Some i" for rid i
        using that D[of rid i] by (simp add: delete_guild(1) drop_guild_def)
      show "\<exists>i. sp_roles \<tau> h = Some i \<and> ri_guild i = h" if "sp_owner \<tau> h \<noteq> None" for h
        using that dflt[of h] by (auto simp: delete_guild(1) drop_guild_def split: if_splits)
    qed
  next
    case (transfer g u)
    show ?thesis using inv transfer unfolding roles_inv_def by auto
  next
    case (create_role g p rid pos)
    have "rid \<noteq> g" using create_role(2,4) dflt[of g] by (auto simp: may_def)
    then show ?thesis
      using create_role eff_bound[OF inv, of g a]
      by (intro role_write_roles_inv[OF inv, of "\<lparr>ri_guild = g, ri_perms = p, ri_pos = pos, ri_default = False\<rparr>" rid]) (auto simp: may_def)
  next
    case (update_role g rid i p)
    show ?thesis
      using update_role eff_bound[OF inv, of g a] D[OF update_role(3)]
      by (intro role_write_roles_inv[OF inv, of "i\<lparr>ri_perms := p\<rparr>" rid]) auto
  next
    case (delete_role g rid i)
    have "rid \<noteq> ri_guild j \<or> \<not> ri_default j" if "sp_roles \<sigma> rid = Some j" for j using delete_role that by simp
    show ?thesis
    proof (rule roles_invI)
      show "finite (dom (sp_roles \<tau>))"
        unfolding delete_role(1) drop_role_def using fin by simp
      show "sp_owner \<tau> (ri_guild j) \<noteq> None" if "sp_roles \<tau> r = Some j" for r j
        using that D(1) by (auto simp: delete_role(1) drop_role_def split: if_splits)
      show "bits (ri_perms j) \<subseteq> {..<12} \<and> (ri_default j \<longleftrightarrow> r = ri_guild j)
         \<and> (if ri_default j then ri_pos j = 0 else 0 < ri_pos j) \<and> ri_pos j \<le> MaxInt32" if "sp_roles \<tau> r = Some j" for r j
      proof -
        have "sp_roles \<sigma> r = Some j" using that by (simp add: delete_role(1) drop_role_def split: if_splits)
        from D[OF this] show ?thesis by simp
      qed
      show "\<exists>i. sp_roles \<tau> h = Some i \<and> ri_guild i = h" if "sp_owner \<tau> h \<noteq> None" for h
        using that dflt[of h] delete_role D(3)[OF delete_role(3)] by (auto simp: drop_role_def split: if_splits)
    qed
  next
    case (reorder_roles g req)
    show ?thesis unfolding reorder_roles(1) by (rule roles_inv_reposition[OF inv]) (use reorder_roles(3) in blast)
  qed (auto intro: roles_inv_frame[OF inv] simp: remove_member_def drop_channel_def)
qed

lemma members_invI:
  assumes "\<And>g u. sp_owner \<tau> g = Some u \<Longrightarrow> (g, u) \<in> sp_members \<tau>"
    "\<And>g u. (g, u) \<in> sp_members \<tau> \<Longrightarrow> sp_owner \<tau> g \<noteq> None"
    "\<And>g u. (g, u) \<in> sp_banned \<tau> \<Longrightarrow> sp_owner \<tau> g \<noteq> None \<and> (g, u) \<notin> sp_members \<tau>"
    "\<And>g u rid. (g, u, rid) \<in> sp_assigned \<tau> \<Longrightarrow> (g, u) \<in> sp_members \<tau>
       \<and> (\<exists>i. sp_roles \<tau> rid = Some i \<and> ri_guild i = g \<and> \<not> ri_default i)"
  shows "members_inv \<tau>"
  using assms unfolding members_inv_def by blast

lemma members_inv_roles:
  assumes "members_inv \<sigma>" "sp_owner \<tau> = sp_owner \<sigma>" "sp_members \<tau> = sp_members \<sigma>" "sp_banned \<tau> = sp_banned \<sigma>"
    "sp_assigned \<tau> = sp_assigned \<sigma>"
    "\<And>rid i. sp_roles \<sigma> rid = Some i \<Longrightarrow> \<exists>j. sp_roles \<tau> rid = Some j \<and> ri_guild j = ri_guild i \<and> ri_default j = ri_default i"
  shows "members_inv \<tau>"
proof (rule members_invI)
  note D = members_invD[OF assms(1)]
  show "(g, u) \<in> sp_members \<tau>" if "sp_owner \<tau> g = Some u" for g u using that D(1) assms(2,3) by simp
  show "sp_owner \<tau> g \<noteq> None" if "(g, u) \<in> sp_members \<tau>" for g u using that D(2) assms(2,3) by simp
  show "sp_owner \<tau> g \<noteq> None \<and> (g, u) \<notin> sp_members \<tau>" if "(g, u) \<in> sp_banned \<tau>" for g u
    using that D(3,4) assms(2-4) by simp
  show "(g, u) \<in> sp_members \<tau> \<and> (\<exists>i. sp_roles \<tau> rid = Some i \<and> ri_guild i = g \<and> \<not> ri_default i)"
    if a: "(g, u, rid) \<in> sp_assigned \<tau>" for g u rid
  proof -
    obtain i where "sp_roles \<sigma> rid = Some i" "ri_guild i = g" "\<not> ri_default i" using D(6)[of g u rid] a assms(5) by auto
    then show ?thesis using assms(6)[of rid i] D(5) a assms(3,5) by auto
  qed
qed

lemma spec_step_members:
  assumes "spec_step a \<sigma> \<tau>" "spec_inv \<sigma>"
  shows "members_inv \<tau>"
proof -
  note inv = spec_invD(2)[OF assms(2)]
  note D = members_invD[OF inv] and frame = members_inv_roles[OF inv]
  from assms(1) show ?thesis
  proof cases
    case (create_guild g)
    show ?thesis unfolding create_guild(1)
      by (rule members_invI) (use create_guild in \<open>auto split: if_splits dest: D\<close>)
  next
    case (delete_guild g)
    show ?thesis unfolding delete_guild(1) drop_guild_def
      by (rule members_invI) (auto split: if_splits dest: D)
  next
    case (transfer g u)
    show ?thesis unfolding transfer(1) by (rule members_invI) (use transfer D in \<open>auto split: if_splits\<close>)
  next
    case (add_member g u)
    show ?thesis unfolding add_member(1)
      by (rule members_invI) (use add_member D in \<open>auto simp: may_def split: if_splits\<close>)
  next
    case (join g)
    show ?thesis unfolding join(1) by (rule members_invI) (use join D in \<open>auto split: if_splits\<close>)
  next
    case (leave g)
    show ?thesis unfolding leave(1) remove_member_def by (rule members_invI) (use leave D in \<open>auto split: if_splits\<close>)
  next
    case (kick g v)
    show ?thesis unfolding kick(1) remove_member_def by (rule members_invI) (use kick D in \<open>auto split: if_splits\<close>)
  next
    case (ban g v \<rho>)
    show ?thesis unfolding ban(1,6) remove_member_def
      by (rule members_invI) (use ban D in \<open>auto simp: may_def split: if_splits\<close>)
  next
    case (unban g v)
    show ?thesis unfolding unban(1) by (rule members_invI) (use D in auto)
  next
    case (create_role g p rid pos)
    show ?thesis by (rule frame) (use create_role in auto)
  next
    case (update_role g rid i p)
    show ?thesis by (rule frame) (use update_role in auto)
  next
    case (delete_role g rid i)
    show ?thesis unfolding delete_role(1) drop_role_def
      by (rule members_invI) (use delete_role in \<open>auto split: if_splits dest: D\<close>)
  next
    case (reorder_roles g req)
    show ?thesis by (rule frame) (auto simp: reorder_roles(1) reposition_def split: option.split)
  next
    case (assign g rid i v)
    show ?thesis unfolding assign(1) by (rule members_invI) (use assign D in auto)
  next
    case (unassign g rid i v)
    show ?thesis unfolding unassign(1) by (rule members_invI) (use D in auto)
  qed (auto intro: frame simp: drop_channel_def)
qed

lemma channels_invI:
  assumes "\<And>cid c. sp_channels \<tau> cid = Some c \<Longrightarrow> sp_owner \<tau> (ci_guild c) \<noteq> None \<and> ci_type c \<in> {1, 2, 3}"
    "\<And>cid c. sp_channels \<tau> cid = Some c \<Longrightarrow> parent_ok \<tau> (ci_guild c) (ci_type c) (ci_parent c)"
    "\<And>cid c. sp_channels \<tau> cid = Some c \<Longrightarrow> sp_overwrites \<tau> (cid, OVERWRITE_ROLE, ci_guild c) \<noteq> None"
  shows "channels_inv \<tau>"
  using assms unfolding channels_inv_def by blast

lemma channels_inv_frame:
  assumes "channels_inv \<sigma>" "sp_channels \<tau> = sp_channels \<sigma>" "\<And>g. sp_owner \<sigma> g \<noteq> None \<Longrightarrow> sp_owner \<tau> g \<noteq> None"
    "\<And>cid c. sp_channels \<sigma> cid = Some c \<Longrightarrow> sp_overwrites \<sigma> (cid, OVERWRITE_ROLE, ci_guild c) \<noteq> None \<Longrightarrow>
       sp_overwrites \<tau> (cid, OVERWRITE_ROLE, ci_guild c) \<noteq> None"
  shows "channels_inv \<tau>"
proof (rule channels_invI)
  fix cid c assume "sp_channels \<tau> cid = Some c"
  then have c: "sp_channels \<sigma> cid = Some c" using assms(2) by simp
  note D = channels_invD[OF assms(1) c]
  show "sp_owner \<tau> (ci_guild c) \<noteq> None \<and> ci_type c \<in> {1, 2, 3}" using D(1,2) assms(3) by blast
  show "parent_ok \<tau> (ci_guild c) (ci_type c) (ci_parent c)" using D(3) assms(2) by (simp add: parent_ok_def)
  show "sp_overwrites \<tau> (cid, OVERWRITE_ROLE, ci_guild c) \<noteq> None" by (rule assms(4)[OF c D(4)])
qed

lemma parent_ok_mono:
  assumes "parent_ok \<sigma> g ty p"
    "\<And>c. p \<noteq> 0 \<Longrightarrow> sp_channels \<sigma> p = Some c \<Longrightarrow> ci_guild c = g \<Longrightarrow> ci_type c = CHANNEL_CATEGORY \<Longrightarrow>
       \<exists>d. sp_channels \<tau> p = Some d \<and> ci_guild d = g \<and> ci_type d = CHANNEL_CATEGORY"
  shows "parent_ok \<tau> g ty p"
  using assms unfolding parent_ok_def by blast

text \<open>The @everyone overwrite of a channel belongs to the channel's guild.\<close>

lemma everyone_overwrite:
  assumes "channels_inv \<sigma>" "overwrites_inv \<sigma>" "sp_channels \<sigma> cid = Some c"
  obtains x where "sp_overwrites \<sigma> (cid, OVERWRITE_ROLE, ci_guild c) = Some x" "oi_guild x = ci_guild c"
proof -
  obtain x where x: "sp_overwrites \<sigma> (cid, OVERWRITE_ROLE, ci_guild c) = Some x" using channels_invD(4)[OF assms(1,3)] by blast
  then show ?thesis using overwrites_invD(1)[OF assms(2) x] assms(3) that by auto
qed

lemma delete_guild_channels:
  assumes inv: "channels_inv \<sigma>" "overwrites_inv \<sigma>"
  shows "channels_inv (drop_guild g \<sigma>)"
proof (rule channels_invI)
  fix cid c assume "sp_channels (drop_guild g \<sigma>) cid = Some c"
  then have c: "sp_channels \<sigma> cid = Some c" "ci_guild c \<noteq> g" by (auto simp: drop_guild_def)
  note D = channels_invD[OF inv(1) c(1)]
  show "sp_owner (drop_guild g \<sigma>) (ci_guild c) \<noteq> None \<and> ci_type c \<in> {1, 2, 3}"
    using D(1,2) c(2) by (auto simp: drop_guild_def)
  show "parent_ok (drop_guild g \<sigma>) (ci_guild c) (ci_type c) (ci_parent c)"
    by (rule parent_ok_mono[OF D(3)]) (use c(2) in \<open>auto simp: drop_guild_def\<close>)
  obtain x where "sp_overwrites \<sigma> (cid, OVERWRITE_ROLE, ci_guild c) = Some x" "oi_guild x = ci_guild c"
    by (rule everyone_overwrite[OF inv c(1)])
  then show "sp_overwrites (drop_guild g \<sigma>) (cid, OVERWRITE_ROLE, ci_guild c) \<noteq> None"
    using c(2) by (simp add: drop_guild_def map_without_def)
qed

lemma create_channel_channels:
  assumes inv: "channels_inv \<sigma>" and new: "sp_channels \<sigma> cid = None" "ty \<in> {1, 2, 3}" "parent_ok \<sigma> g ty p" "sp_owner \<sigma> g \<noteq> None"
  shows "channels_inv (\<sigma>\<lparr>sp_channels := (sp_channels \<sigma>)(cid \<mapsto> \<lparr>ci_guild = g, ci_type = ty, ci_parent = p\<rparr>),
      sp_overwrites := (sp_overwrites \<sigma>)((cid, OVERWRITE_ROLE, g) \<mapsto> x)\<rparr>)" (is "channels_inv ?\<tau>")
proof (rule channels_invI)
  fix c d assume d: "sp_channels ?\<tau> c = Some d"
  have mono: "parent_ok \<sigma> h t q \<Longrightarrow> parent_ok ?\<tau> h t q" for h t q
    by (erule parent_ok_mono) (use new(1) in auto)
  show "sp_owner ?\<tau> (ci_guild d) \<noteq> None \<and> ci_type d \<in> {1, 2, 3}"
    using d new channels_invD(1,2)[OF inv, of c d] by (auto split: if_splits)
  show "parent_ok ?\<tau> (ci_guild d) (ci_type d) (ci_parent d)"
    using d mono[OF new(3)] mono[OF channels_invD(3)[OF inv, of c d]] by (auto split: if_splits)
  show "sp_overwrites ?\<tau> (c, OVERWRITE_ROLE, ci_guild d) \<noteq> None"
    using d channels_invD(4)[OF inv, of c d] by (auto split: if_splits)
qed

lemma move_channels_channels:
  assumes inv: "channels_inv \<sigma>"
    and req: "\<And>cid p. req cid = Some p \<Longrightarrow>
       \<exists>c. sp_channels \<sigma> cid = Some c \<and> ci_guild c = g \<and> (p = ci_parent c \<or> parent_ok \<sigma> g (ci_type c) p)"
  shows "channels_inv (\<sigma>\<lparr>sp_channels := reparent g req (sp_channels \<sigma>)\<rparr>)" (is "channels_inv ?\<tau>")
proof (rule channels_invI)
  fix cid d assume d: "sp_channels ?\<tau> cid = Some d"
  obtain c where c: "sp_channels \<sigma> cid = Some c" "ci_guild d = ci_guild c" "ci_type d = ci_type c"
    and par: "ci_parent d = ci_parent c \<or> ci_guild c = g \<and> req cid = Some (ci_parent d)"
    using d by (auto simp: reparent_def split: option.splits if_splits)
  note D = channels_invD[OF inv c(1)]
  show "sp_owner ?\<tau> (ci_guild d) \<noteq> None \<and> ci_type d \<in> {1, 2, 3}" using D(1,2) c by auto
  have "parent_ok \<sigma> (ci_guild d) (ci_type d) (ci_parent d)"
    using par D(3) c req[of cid "ci_parent d"] by auto
  then show "parent_ok ?\<tau> (ci_guild d) (ci_type d) (ci_parent d)"
    by (rule parent_ok_mono) (auto simp: reparent_def split: option.split)
  show "sp_overwrites ?\<tau> (cid, OVERWRITE_ROLE, ci_guild d) \<noteq> None" using D(4) c by simp
qed

lemma delete_channel_channels:
  assumes inv: "channels_inv \<sigma>" and c: "sp_channels \<sigma> cid = Some c"
  shows "channels_inv (drop_channel (ci_guild c) cid c \<sigma>)" (is "channels_inv ?\<tau>")
proof (rule channels_invI)
  fix k d assume d: "sp_channels ?\<tau> k = Some d"
  obtain e where k: "k \<noteq> cid" "sp_channels \<sigma> k = Some e"
    and de: "d = (if ci_type c = 2 \<and> ci_guild e = ci_guild c \<and> ci_parent e = cid then e\<lparr>ci_parent := 0\<rparr> else e)"
    using d by (cases "sp_channels \<sigma> k") (auto simp: drop_channel_def unparent_def split: if_splits)
  have e: "k \<noteq> cid" "sp_channels \<sigma> k = Some e" "ci_guild d = ci_guild e" "ci_type d = ci_type e"
    and par: "ci_parent d = ci_parent e \<and> \<not> (ci_type c = 2 \<and> ci_guild e = ci_guild c \<and> ci_parent e = cid) \<or> ci_parent d = 0"
    using k de by auto
  note D = channels_invD[OF inv e(2)]
  show "sp_owner ?\<tau> (ci_guild d) \<noteq> None \<and> ci_type d \<in> {1, 2, 3}" using D(1,2) e by (auto simp: drop_channel_def)
  show "parent_ok ?\<tau> (ci_guild d) (ci_type d) (ci_parent d)"
  proof (cases "ci_parent d = 0")
    case False
    then have "ci_parent d = ci_parent e" "\<not> (ci_type c = 2 \<and> ci_guild e = ci_guild c \<and> ci_parent e = cid)" using par by auto
    then show ?thesis unfolding e(3,4) \<open>ci_parent d = ci_parent e\<close>
      by (intro parent_ok_mono[OF D(3)]) (use c in \<open>auto simp: drop_channel_def unparent_def\<close>)
  qed (simp add: parent_ok_def)
  show "sp_overwrites ?\<tau> (k, OVERWRITE_ROLE, ci_guild d) \<noteq> None"
    using D(4) e(1,3) by (auto simp: drop_channel_def map_without_def)
qed

lemma spec_step_channels:
  assumes "spec_step a \<sigma> \<tau>" "spec_inv \<sigma>"
  shows "channels_inv \<tau>"
proof -
  note ri = spec_invD(1)[OF assms(2)] and inv = spec_invD(3)[OF assms(2)] and oi = spec_invD(4)[OF assms(2)]
  note frame = channels_inv_frame[OF inv]
  from assms(1) show ?thesis
  proof cases
    case (delete_guild g)
    then show ?thesis using delete_guild_channels[OF inv oi] by simp
  next
    case (leave g)
    show ?thesis by (rule frame) (auto simp: leave(1) remove_member_def map_without_def split: option.split)
  next
    case (kick g v)
    show ?thesis by (rule frame) (auto simp: kick(1) remove_member_def map_without_def split: option.split)
  next
    case (ban g v)
    show ?thesis by (rule frame) (auto simp: ban(1,6) remove_member_def map_without_def split: option.split)
  next
    case (delete_role g rid i)
    show ?thesis
    proof (rule frame)
      fix cid c assume c: "sp_channels \<sigma> cid = Some c"
      obtain x where x: "sp_overwrites \<sigma> (cid, 1, ci_guild c) = Some x" "oi_guild x = ci_guild c"
        by (rule everyone_overwrite[OF inv oi c])
      have "rid \<noteq> g" using delete_role roles_invD(3)[OF ri delete_role(3)] by simp
      then show "sp_overwrites \<tau> (cid, 1, ci_guild c) \<noteq> None"
        using x by (auto simp: delete_role(1) drop_role_def map_without_def)
    qed (auto simp: delete_role(1) drop_role_def)
  next
    case (create_channel g cid ty p)
    show ?thesis unfolding create_channel(1)
      by (rule create_channel_channels[OF inv]) (use create_channel in \<open>auto simp: may_def\<close>)
  next
    case (move_channels g req)
    show ?thesis unfolding move_channels(1) by (rule move_channels_channels[OF inv]) (rule move_channels(3))
  next
    case (delete_channel g cid c)
    then show ?thesis using delete_channel_channels[OF inv delete_channel(3)] by simp
  next
    case (set_overwrite g cid c allow deny ty tid)
    show ?thesis by (rule frame) (auto simp: set_overwrite(1))
  next
    case (delete_overwrite g cid c ty tid)
    show ?thesis by (rule frame) (use delete_overwrite in \<open>auto simp: map_without_def split: option.split\<close>)
  qed (auto intro: frame split: if_splits)
qed

definition ow_ok :: "guild_spec \<Rightarrow> int64 \<Rightarrow> int32 \<Rightarrow> int64 \<Rightarrow> ow_info \<Rightarrow> bool" where
  "ow_ok \<sigma> cid ty tid x \<longleftrightarrow> (\<exists>c. sp_channels \<sigma> cid = Some c \<and> ci_guild c = oi_guild x)
        \<and> oi_allow x AND oi_deny x = 0 \<and> and_not (oi_allow x OR oi_deny x) AllChannelPermissions = 0
        \<and> (ty = OVERWRITE_ROLE \<and> (\<exists>i. sp_roles \<sigma> tid = Some i \<and> ri_guild i = oi_guild x)
           \<or> ty = OVERWRITE_MEMBER \<and> (oi_guild x, tid) \<in> sp_members \<sigma>)"

lemma overwrites_inv_ok: "overwrites_inv \<sigma> \<longleftrightarrow> (\<forall>cid ty tid x. sp_overwrites \<sigma> (cid, ty, tid) = Some x \<longrightarrow> ow_ok \<sigma> cid ty tid x)"
  by (simp add: overwrites_inv_def ow_ok_def)

text \<open>Overwrites that remain keep their channel and their subject.\<close>

lemma overwrites_inv_sub:
  assumes "overwrites_inv \<sigma>" "\<And>cid ty tid x. sp_overwrites \<tau> (cid, ty, tid) = Some x \<Longrightarrow> sp_overwrites \<sigma> (cid, ty, tid) = Some x"
    "\<And>cid ty tid x c. sp_overwrites \<tau> (cid, ty, tid) = Some x \<Longrightarrow> sp_channels \<sigma> cid = Some c \<Longrightarrow> ci_guild c = oi_guild x \<Longrightarrow>
       \<exists>d. sp_channels \<tau> cid = Some d \<and> ci_guild d = ci_guild c"
    "\<And>cid tid x i. sp_overwrites \<tau> (cid, OVERWRITE_ROLE, tid) = Some x \<Longrightarrow> sp_roles \<sigma> tid = Some i \<Longrightarrow> ri_guild i = oi_guild x \<Longrightarrow>
       \<exists>j. sp_roles \<tau> tid = Some j \<and> ri_guild j = ri_guild i"
    "\<And>cid tid x. sp_overwrites \<tau> (cid, OVERWRITE_MEMBER, tid) = Some x \<Longrightarrow> (oi_guild x, tid) \<in> sp_members \<sigma> \<Longrightarrow>
       (oi_guild x, tid) \<in> sp_members \<tau>"
  shows "overwrites_inv \<tau>"
  unfolding overwrites_inv_ok
proof (intro allI impI)
  fix cid ty tid x assume x: "sp_overwrites \<tau> (cid, ty, tid) = Some x"
  note D = overwrites_invD[OF assms(1) assms(2)[OF x]]
  obtain c where c: "sp_channels \<sigma> cid = Some c" "ci_guild c = oi_guild x" using D(1) by blast
  have ch: "\<exists>d. sp_channels \<tau> cid = Some d \<and> ci_guild d = oi_guild x" using assms(3)[OF x c] c(2) by auto
  have "ty = OVERWRITE_ROLE \<and> (\<exists>i. sp_roles \<tau> tid = Some i \<and> ri_guild i = oi_guild x)
       \<or> ty = OVERWRITE_MEMBER \<and> (oi_guild x, tid) \<in> sp_members \<tau>"
    using D(4)
  proof (elim disjE conjE exE)
    fix i assume "ty = OVERWRITE_ROLE" "sp_roles \<sigma> tid = Some i" "ri_guild i = oi_guild x"
    then show ?thesis using assms(4)[of cid tid x i] x by auto
  next
    assume "ty = OVERWRITE_MEMBER" "(oi_guild x, tid) \<in> sp_members \<sigma>"
    then show ?thesis using assms(5)[of cid tid x] x by auto
  qed
  then show "ow_ok \<tau> cid ty tid x" using ch D(2,3) by (simp add: ow_ok_def)
qed

lemma overwrites_inv_write:
  assumes "overwrites_inv \<sigma>" "ow_ok \<tau> cid ty tid x" "sp_overwrites \<tau> = (sp_overwrites \<sigma>)((cid, ty, tid) \<mapsto> x)"
    "\<And>k c. sp_channels \<sigma> k = Some c \<Longrightarrow> \<exists>d. sp_channels \<tau> k = Some d \<and> ci_guild d = ci_guild c"
    "sp_roles \<tau> = sp_roles \<sigma>" "sp_members \<tau> = sp_members \<sigma>"
  shows "overwrites_inv \<tau>"
  unfolding overwrites_inv_ok
proof (intro allI impI)
  fix k s t y assume y: "sp_overwrites \<tau> (k, s, t) = Some y"
  show "ow_ok \<tau> k s t y"
  proof (cases "(k, s, t) = (cid, ty, tid)")
    case True
    then show ?thesis using y assms(2,3) by simp
  next
    case False
    then have "sp_overwrites \<sigma> (k, s, t) = Some y" using y assms(3) by auto
    then have "ow_ok \<sigma> k s t y" using assms(1) by (simp add: overwrites_inv_ok)
    then show ?thesis using assms(4)[of k] assms(5,6) by (fastforce simp: ow_ok_def)
  qed
qed

lemma spec_step_overwrites:
  assumes "spec_step a \<sigma> \<tau>" "spec_inv \<sigma>"
  shows "overwrites_inv \<tau>"
proof -
  note ri = spec_invD(1)[OF assms(2)] and mi = spec_invD(2)[OF assms(2)] and inv = spec_invD(4)[OF assms(2)]
  note sub = overwrites_inv_sub[OF inv] and wr = overwrites_inv_write[OF inv]
  from assms(1) show ?thesis
  proof cases
    case (create_guild g)
    show ?thesis by (rule sub) (use create_guild in auto)
  next
    case (delete_guild g)
    show ?thesis by (rule sub) (auto simp: delete_guild(1) drop_guild_def)
  next
    case (transfer g u)
    show ?thesis by (rule sub) (auto simp: transfer(1))
  next
    case (add_member g u)
    show ?thesis by (rule sub) (auto simp: add_member(1))
  next
    case (join g)
    show ?thesis by (rule sub) (auto simp: join(1))
  next
    case (leave g)
    show ?thesis by (rule sub) (auto simp: leave(1) remove_member_def)
  next
    case (kick g v)
    show ?thesis by (rule sub) (auto simp: kick(1) remove_member_def)
  next
    case (ban \<rho> g v)
    show ?thesis by (rule sub) (auto simp: ban(1,6) remove_member_def split: if_splits)
  next
    case (unban g v)
    show ?thesis by (rule sub) (auto simp: unban(1))
  next
    case (create_role g p rid pos)
    show ?thesis by (rule sub) (use create_role in auto)
  next
    case (update_role g rid i p)
    show ?thesis by (rule sub) (use update_role in auto)
  next
    case (delete_role g rid i)
    show ?thesis by (rule sub) (use delete_role in \<open>auto simp: drop_role_def\<close>)
  next
    case (reorder_roles g req)
    show ?thesis by (rule sub) (auto simp: reorder_roles(1) reposition_def split: option.split)
  next
    case (assign g rid i v)
    show ?thesis by (rule sub) (auto simp: assign(1))
  next
    case (unassign g rid i v)
    show ?thesis by (rule sub) (auto simp: unassign(1))
  next
    case (create_channel g cid ty p)
    obtain i where "sp_roles \<sigma> g = Some i" "ri_guild i = g"
      using roles_inv_default[OF ri, of g] create_channel(2) by (auto simp: may_def)
    then show ?thesis
      by (intro wr[of _ cid 1 g "\<lparr>oi_guild = g, oi_allow = 0, oi_deny = 0\<rparr>"])
        (use create_channel in \<open>auto simp: ow_ok_def and_not_def\<close>)
  next
    case (move_channels g req)
    show ?thesis by (rule sub) (auto simp: move_channels(1) reparent_def split: option.split)
  next
    case (delete_channel g cid c)
    show ?thesis by (rule sub) (auto simp: delete_channel(1) drop_channel_def unparent_def)
  next
    case (set_overwrite g cid c allow deny ty tid)
    show ?thesis
      by (rule wr[of _ cid ty tid "\<lparr>oi_guild = g, oi_allow = allow, oi_deny = deny\<rparr>"])
        (use set_overwrite in \<open>auto simp: ow_ok_def subject_ok_def\<close>)
  next
    case (delete_overwrite g cid c ty tid)
    show ?thesis by (rule sub) (auto simp: delete_overwrite(1))
  qed
qed

lemma spec_step_inv: "spec_step a \<sigma> \<tau> \<Longrightarrow> spec_inv \<sigma> \<Longrightarrow> spec_inv \<tau>"
  unfolding spec_inv_def[of \<tau>] by (blast intro: spec_step_roles spec_step_members spec_step_channels spec_step_overwrites)

lemma spec_steps_inv: "spec_steps a \<sigma> \<tau> \<Longrightarrow> spec_inv \<sigma> \<Longrightarrow> spec_inv \<tau>"
  by (induction rule: rtranclp_induct) (auto intro: spec_step_inv)

section \<open>No privilege escalation\<close>

lemma base_bits_eff: "roles_inv \<sigma> \<Longrightarrow> base_bits \<sigma> g v \<subseteq> eff \<sigma> g v"
  using base_bits_bound by (auto simp: eff_def)

text \<open>
  A role that counts for \<open>v\<close> after the step either counted with the same permissions before, or grants
  only what the actor has.
\<close>

definition no_new_bits :: "guild_spec \<Rightarrow> guild_spec \<Rightarrow> int64 \<Rightarrow> int64 \<Rightarrow> int64 \<Rightarrow> bool" where
  "no_new_bits \<sigma> \<tau> g a v \<longleftrightarrow> (\<forall>rid i. sp_roles \<tau> rid = Some i \<longrightarrow> ri_guild i = g \<longrightarrow> ri_default i \<or> (g, v, rid) \<in> sp_assigned \<tau> \<longrightarrow>
     bits (ri_perms i) \<subseteq> eff \<sigma> g a \<or>
     (\<exists>j. sp_roles \<sigma> rid = Some j \<and> ri_guild j = g \<and> ri_perms j = ri_perms i \<and> (ri_default j \<or> (g, v, rid) \<in> sp_assigned \<sigma>)))"

lemma no_new_bits_eff:
  assumes "roles_inv \<sigma>" "roles_inv \<tau>" "no_new_bits \<sigma> \<tau> g a v"
    "sp_owner \<tau> g = Some v \<Longrightarrow> sp_owner \<sigma> g = Some v \<or> sp_owner \<sigma> g = Some a"
  shows "eff \<tau> g v \<subseteq> eff \<sigma> g v \<union> eff \<sigma> g a"
proof -
  have base: "base_bits \<tau> g v \<subseteq> eff \<sigma> g v \<union> eff \<sigma> g a"
  proof
    fix n assume "n \<in> base_bits \<tau> g v"
    then obtain rid i where i: "sp_roles \<tau> rid = Some i" "ri_guild i = g" "ri_default i \<or> (g, v, rid) \<in> sp_assigned \<tau>" "bit (ri_perms i) n"
      unfolding base_bits_def by blast
    then have "bits (ri_perms i) \<subseteq> eff \<sigma> g a \<or> n \<in> base_bits \<sigma> g v"
      using assms(3) unfolding no_new_bits_def base_bits_def mem_Collect_eq by metis
    then show "n \<in> eff \<sigma> g v \<union> eff \<sigma> g a" using i(4) base_bits_eff[OF assms(1), of g v] by blast
  qed
  show ?thesis
  proof (cases "sp_owner \<tau> g = Some v \<or> 0 \<in> base_bits \<tau> g v")
    case True
    then have "(sp_owner \<sigma> g = Some v \<or> 0 \<in> eff \<sigma> g v) \<or> (sp_owner \<sigma> g = Some a \<or> 0 \<in> eff \<sigma> g a)"
      using assms(4) base by blast
    then have "eff \<sigma> g v = {..<12} \<or> eff \<sigma> g a = {..<12}" using eff_admin by blast
    then show ?thesis using eff_bound[OF assms(2), of g v] by blast
  next
    case False
    then have "eff \<tau> g v = base_bits \<tau> g v" by (simp add: eff_def)
    then show ?thesis using base by simp
  qed
qed

lemma spec_step_no_new_bits:
  assumes "spec_step a \<sigma> \<tau>" "spec_inv \<sigma>" "sp_owner \<sigma> g \<noteq> None"
  shows "no_new_bits \<sigma> \<tau> g a v"
  unfolding no_new_bits_def
proof (intro allI impI)
  fix rid i assume i: "sp_roles \<tau> rid = Some i" "ri_guild i = g" "ri_default i \<or> (g, v, rid) \<in> sp_assigned \<tau>"
  let ?P = "bits (ri_perms i) \<subseteq> eff \<sigma> g a \<or>
     (\<exists>j. sp_roles \<sigma> rid = Some j \<and> ri_guild j = g \<and> ri_perms j = ri_perms i \<and> (ri_default j \<or> (g, v, rid) \<in> sp_assigned \<sigma>))"
  have oldI: ?P if "sp_roles \<sigma> rid = Some j" "ri_guild j = g" "ri_perms j = ri_perms i" "ri_default j \<or> (g, v, rid) \<in> sp_assigned \<sigma>" for j
    using that by blast
  from assms(1) show ?P
  proof cases
    case (create_guild h)
    then show ?thesis using i oldI[of i] assms(3) by (auto split: if_splits)
  next
    case (create_role h q r pos)
    then show ?thesis using i oldI[of i] by (cases "r = rid") auto
  next
    case (update_role h r j q)
    then show ?thesis using i oldI[of i] by (cases "r = rid") auto
  next
    case (reorder_roles h req)
    obtain j where "sp_roles \<sigma> rid = Some j" "ri_guild j = g" "ri_perms j = ri_perms i" "ri_default j = ri_default i"
      using i(1-2) by (auto simp: reorder_roles(1) reposition_def split: option.splits if_splits)
    then show ?thesis using oldI[of j] i(3) by (simp add: reorder_roles(1))
  next
    case (assign h r j u)
    then show ?thesis using i oldI[of i] by (cases "(g, v, rid) \<in> sp_assigned \<sigma>") auto
  qed (use i oldI[of i] in \<open>auto simp: drop_guild_def remove_member_def drop_role_def drop_channel_def split: if_splits\<close>)
qed

lemma spec_step_owner:
  assumes "spec_step a \<sigma> \<tau>" "sp_owner \<sigma> g \<noteq> None"
  shows "sp_owner \<tau> g = sp_owner \<sigma> g \<or> sp_owner \<sigma> g = Some a"
  using assms by cases (auto simp: drop_guild_def remove_member_def drop_role_def drop_channel_def)

lemma spec_step_eff:
  assumes "spec_step a \<sigma> \<tau>" "spec_inv \<sigma>" "sp_owner \<sigma> g \<noteq> None"
  shows "eff \<tau> g v \<subseteq> eff \<sigma> g v \<union> eff \<sigma> g a"
  by (rule no_new_bits_eff[OF spec_invD(1)[OF assms(2)] spec_step_roles[OF assms(1,2)] spec_step_no_new_bits[OF assms]])
    (use spec_step_owner[OF assms(1,3)] in auto)

lemma spec_steps_eff:
  assumes "spec_steps a \<sigma> \<tau>" "spec_inv \<sigma>" "sp_owner \<sigma> g \<noteq> None"
  shows "eff \<tau> g v \<subseteq> eff \<sigma> g v \<union> eff \<sigma> g a"
proof -
  have "(\<forall>v. eff \<tau> g v \<subseteq> eff \<sigma> g v \<union> eff \<sigma> g a) \<and> (sp_owner \<tau> g = sp_owner \<sigma> g \<or> eff \<sigma> g a = {..<12})"
    using assms(1)
  proof (induction rule: rtranclp_induct)
    case (step \<tau> \<rho>)
    have inv: "spec_inv \<tau>" by (rule spec_steps_inv[OF step(1) assms(2)])
    show ?case
    proof (cases "eff \<sigma> g a = {..<12}")
      case True
      then show ?thesis using eff_bound[OF spec_step_roles[OF step(2) inv], of g] by blast
    next
      case False
      then have o: "sp_owner \<tau> g = sp_owner \<sigma> g" using step.IH by blast
      then have "sp_owner \<tau> g \<noteq> None" using assms(3) by simp
      note e = spec_step_eff[OF step(2) inv this] and o2 = spec_step_owner[OF step(2) this]
      have "sp_owner \<sigma> g \<noteq> Some a" using False by (auto simp: eff_def)
      then show ?thesis using e o o2 step.IH by fastforce
    qed
  qed simp
  then show ?thesis by blast
qed

section \<open>The hierarchy\<close>

lemma finite_held:
  assumes "roles_inv \<sigma>"
  shows "finite (held_positions \<sigma> g u)"
proof (rule finite_subset)
  show "held_positions \<sigma> g u \<subseteq> (\<lambda>rid. ri_pos (the (sp_roles \<sigma> rid))) ` dom (sp_roles \<sigma>)"
    unfolding held_positions_def by force
  show "finite ((\<lambda>rid. ri_pos (the (sp_roles \<sigma> rid))) ` dom (sp_roles \<sigma>))" using roles_inv_finite[OF assms] by simp
qed

lemma rank_ge: "roles_inv \<sigma> \<Longrightarrow> p \<in> held_positions \<sigma> g u \<Longrightarrow> p \<le> rank \<sigma> g u" "roles_inv \<sigma> \<Longrightarrow> 0 \<le> rank \<sigma> g u"
proof -
  assume inv: "roles_inv \<sigma>"
  have fin: "finite (insert 0 (held_positions \<sigma> g u))" using finite_held[OF inv] by simp
  show "0 \<le> rank \<sigma> g u" using Max_ge[OF fin, of 0] by (auto simp: rank_def)
  assume p: "p \<in> held_positions \<sigma> g u"
  then have "p \<le> MaxInt32" using roles_invD(7)[OF inv] by (auto simp: held_positions_def)
  then show "p \<le> rank \<sigma> g u" using Max_ge[OF fin, of p] p by (auto simp: rank_def)
qed

lemma rank_le_MaxInt32: "roles_inv \<sigma> \<Longrightarrow> rank \<sigma> g u \<le> MaxInt32"
proof -
  assume inv: "roles_inv \<sigma>"
  have fin: "finite (insert 0 (held_positions \<sigma> g u))" using finite_held[OF inv] by simp
  have "p \<le> MaxInt32" if "p \<in> insert 0 (held_positions \<sigma> g u)" for p
    using that roles_invD(7)[OF inv] by (auto simp: held_positions_def)
  then show ?thesis using Max_in[OF fin] by (auto simp: rank_def)
qed

lemma rank_leI:
  assumes "roles_inv \<tau>" "\<And>p. p \<in> held_positions \<tau> g v \<Longrightarrow> p \<le> m" "0 \<le> m" "sp_owner \<tau> g = Some v \<Longrightarrow> m = MaxInt32"
  shows "rank \<tau> g v \<le> m"
proof (cases "sp_owner \<tau> g = Some v")
  case False
  have fin: "finite (insert 0 (held_positions \<tau> g v))" using finite_held[OF assms(1)] by simp
  have "Max (insert 0 (held_positions \<tau> g v)) \<in> insert 0 (held_positions \<tau> g v)" by (rule Max_in[OF fin]) simp
  then show ?thesis using assms(2,3) False by (auto simp: rank_def)
qed (use assms(4) in \<open>simp add: rank_def\<close>)

text \<open>A position \<open>v\<close> holds after the step was held before or is not above the actor.\<close>

lemma spec_step_held:
  assumes "spec_step a \<sigma> \<tau>" "spec_inv \<sigma>" "sp_owner \<sigma> g \<noteq> None" "p \<in> held_positions \<tau> g v"
  shows "p \<in> held_positions \<sigma> g v \<or> p \<le> rank \<sigma> g a"
proof -
  note ri = spec_invD(1)[OF assms(2)] and mi = spec_invD(2)[OF assms(2)]
  obtain rid i where i: "sp_roles \<tau> rid = Some i" "ri_guild i = g" "\<not> ri_default i" "(g, v, rid) \<in> sp_assigned \<tau>" "p = ri_pos i"
    using assms(4) unfolding held_positions_def by blast
  have heldI: "p \<in> held_positions \<sigma> g v"
    if "sp_roles \<sigma> rid = Some j" "ri_guild j = g" "\<not> ri_default j" "(g, v, rid) \<in> sp_assigned \<sigma>" "ri_pos j = p" for j
    using that unfolding held_positions_def by blast
  have top: "q \<le> rank \<sigma> g a" if "sp_owner \<sigma> g = Some a" "q \<le> MaxInt32" for q using that by (simp add: rank_def)
  from assms(1) show ?thesis
  proof cases
    case (create_guild h)
    then show ?thesis using i heldI assms(3) by (auto split: if_splits)
  next
    case (create_role h q r pos)
    have "r \<noteq> rid" using create_role i(4) members_invD(6)[OF mi, of g v rid] by auto
    then show ?thesis using create_role i heldI by auto
  next
    case (update_role h r j q)
    then show ?thesis using i heldI by (auto split: if_splits)
  next
    case (reorder_roles h req)
    obtain j where j: "sp_roles \<sigma> rid = Some j" "ri_guild j = g" "\<not> ri_default j"
      and pos: "ri_pos i = ri_pos j \<or> h = g \<and> req rid = Some (ri_pos i)"
      using i(1-3) by (auto simp: reorder_roles(1) reposition_def split: option.splits if_splits)
    have a: "(g, v, rid) \<in> sp_assigned \<sigma>" using i(4) by (simp add: reorder_roles(1))
    show ?thesis
      using pos heldI[OF j a] i(5) reorder_roles(3)[of rid "ri_pos i"] top by fastforce
  next
    case (assign h r j u)
    show ?thesis
    proof (cases "(g, v, rid) \<in> sp_assigned \<sigma>")
      case True
      then show ?thesis using heldI[of i] i by (simp add: assign(1))
    next
      case False
      then have "h = g" "j = i" using i assign by auto
      then show ?thesis using assign i top[of p] roles_invD(7)[OF ri, of rid i] by (auto simp: controls_def)
    qed
  qed (use i heldI[of i] in \<open>auto simp: drop_guild_def remove_member_def drop_role_def drop_channel_def split: if_splits\<close>)
qed

lemma spec_step_rank:
  assumes "spec_step a \<sigma> \<tau>" "spec_inv \<sigma>" "sp_owner \<sigma> g \<noteq> None"
  shows "rank \<tau> g v \<le> max (rank \<sigma> g v) (rank \<sigma> g a)"
proof (rule rank_leI[OF spec_step_roles[OF assms(1,2)]])
  note ri = spec_invD(1)[OF assms(2)]
  show "p \<le> max (rank \<sigma> g v) (rank \<sigma> g a)" if "p \<in> held_positions \<tau> g v" for p
    using spec_step_held[OF assms that] rank_ge(1)[OF ri, of p g v] by auto
  show "0 \<le> max (rank \<sigma> g v) (rank \<sigma> g a)" using rank_ge(2)[OF ri] by (simp add: le_max_iff_disj)
  assume "sp_owner \<tau> g = Some v"
  then have "sp_owner \<sigma> g = Some v \<or> sp_owner \<sigma> g = Some a" using spec_step_owner[OF assms(1,3)] by auto
  then have "rank \<sigma> g v = MaxInt32 \<or> rank \<sigma> g a = MaxInt32" by (auto simp: rank_def)
  then show "max (rank \<sigma> g v) (rank \<sigma> g a) = MaxInt32"
    using rank_le_MaxInt32[OF ri, of g v] rank_le_MaxInt32[OF ri, of g a] by (auto simp: max_def)
qed

text \<open>
  Whom the actor does not outrank it can neither remove nor demote: such a member keeps its membership
  and its rank.
\<close>

lemma spec_step_keeps_member:
  assumes "spec_step a \<sigma> \<tau>" "(g, v) \<in> sp_members \<sigma>" "\<not> outranks \<sigma> g a v" "v \<noteq> a"
  shows "(g, v) \<in> sp_members \<tau>"
  using assms(1)
  by cases (use assms(2-4) in \<open>auto simp: outranks_def drop_guild_def remove_member_def drop_role_def drop_channel_def\<close>)

lemma spec_step_keeps_held:
  assumes "spec_step a \<sigma> \<tau>" "\<not> outranks \<sigma> g a v" "v \<noteq> a" "p \<in> held_positions \<sigma> g v" "rank \<sigma> g a \<le> p"
  shows "p \<in> held_positions \<tau> g v"
proof -
  have no: "sp_owner \<sigma> g \<noteq> Some a" using assms(2) by (simp add: outranks_def)
  obtain rid i where i: "sp_roles \<sigma> rid = Some i" "ri_guild i = g" "\<not> ri_default i" "(g, v, rid) \<in> sp_assigned \<sigma>" "p = ri_pos i"
    using assms(4) unfolding held_positions_def by blast
  have nc: "\<not> controls \<sigma> g a i" using no i(5) assms(5) by (simp add: controls_def)
  have heldI: "p \<in> held_positions \<tau> g v"
    if "sp_roles \<tau> rid = Some j" "ri_guild j = g" "\<not> ri_default j" "(g, v, rid) \<in> sp_assigned \<tau>" "ri_pos j = p" for j
    using that unfolding held_positions_def by blast
  from assms(1) show ?thesis
  proof cases
    case (create_guild h)
    then have "h \<noteq> rid" using i(1) by auto
    then show ?thesis using i heldI[of i] by (auto simp: create_guild(1))
  next
    case (create_role h q r pos)
    then have "r \<noteq> rid" using i(1) by auto
    then show ?thesis using i heldI[of i] by (auto simp: create_role(1))
  next
    case (update_role h r j q)
    then show ?thesis using i heldI[of i] heldI[of "i\<lparr>ri_perms := q\<rparr>"] by (cases "r = rid") simp_all
  next
    case (delete_role h r j)
    then have "r \<noteq> rid" using i nc by auto
    then show ?thesis using i heldI[of i] by (auto simp: delete_role(1) drop_role_def)
  next
    case (reorder_roles h req)
    have "req rid = None \<or> h \<noteq> g" using reorder_roles(3)[of rid] i nc by (cases "req rid") auto
    then have "reposition h req (sp_roles \<sigma>) rid = Some i" using i(1,2) by (cases "req rid") (auto simp: reposition_def)
    then show ?thesis using i(2-5) heldI[of i] by (simp add: reorder_roles(1))
  next
    case (delete_guild h)
    then show ?thesis using i heldI[of i] no by (auto simp: drop_guild_def)
  next
    case (leave h)
    then show ?thesis using i heldI[of i] assms(3) by (auto simp: remove_member_def)
  next
    case (kick h u)
    then show ?thesis using i heldI[of i] assms(2) by (auto simp: remove_member_def)
  next
    case (ban h u)
    then show ?thesis using i heldI[of i] assms(2) by (cases "h = g \<and> u = v") (auto simp: remove_member_def)
  next
    case (unassign h r j u)
    then have "\<not> (h = g \<and> u = v)" using assms(2) by auto
    then show ?thesis using i heldI[of i] unassign(1) by auto
  qed (use i heldI[of i] in \<open>auto simp: drop_channel_def\<close>)
qed

lemma spec_step_keeps_rank:
  assumes "spec_step a \<sigma> \<tau>" "spec_inv \<sigma>" "sp_owner \<sigma> g \<noteq> None" "\<not> outranks \<sigma> g a v" "v \<noteq> a"
  shows "rank \<tau> g v = rank \<sigma> g v"
proof (rule antisym)
  note ri = spec_invD(1)[OF assms(2)] and ri' = spec_step_roles[OF assms(1,2)]
  have owner: "sp_owner \<tau> g = sp_owner \<sigma> g" using spec_step_owner[OF assms(1,3)] assms(4) by (auto simp: outranks_def)
  have le: "rank \<sigma> g a \<le> rank \<sigma> g v"
    using assms(4) rank_le_MaxInt32[OF ri, of g a] by (auto simp: outranks_def rank_def split: if_splits)
  show "rank \<tau> g v \<le> rank \<sigma> g v" using spec_step_rank[OF assms(1-3), of v] le by simp
  show "rank \<sigma> g v \<le> rank \<tau> g v"
  proof (cases "sp_owner \<sigma> g = Some v")
    case True
    then show ?thesis using owner by (simp add: rank_def)
  next
    case False
    have fin: "finite (insert 0 (held_positions \<sigma> g v))" using finite_held[OF ri] by simp
    have "rank \<sigma> g v \<in> insert 0 (held_positions \<sigma> g v)" using Max_in[OF fin] False by (simp add: rank_def)
    then show ?thesis
      using spec_step_keeps_held[OF assms(1,4,5) _ le] rank_ge(1)[OF ri', of "rank \<sigma> g v" g v] rank_ge(2)[OF ri', of g v] by auto
  qed
qed

lemma spec_steps_hierarchy:
  assumes "spec_steps a \<sigma> \<tau>" "spec_inv \<sigma>" "(g, v) \<in> sp_members \<sigma>" "\<not> outranks \<sigma> g a v" "v \<noteq> a"
  shows "(g, v) \<in> sp_members \<tau> \<and> rank \<tau> g v = rank \<sigma> g v"
proof -
  have "(g, v) \<in> sp_members \<tau> \<and> rank \<tau> g v = rank \<sigma> g v \<and> rank \<tau> g a \<le> rank \<sigma> g a \<and> sp_owner \<tau> g = sp_owner \<sigma> g"
    using assms(1)
  proof (induction rule: rtranclp_induct)
    case (step \<tau> \<rho>)
    have inv: "spec_inv \<tau>" by (rule spec_steps_inv[OF step(1) assms(2)])
    have o: "sp_owner \<tau> g \<noteq> None" using members_invD(2)[OF spec_invD(2)[OF inv]] step.IH by blast
    have n: "\<not> outranks \<tau> g a v" using assms(4) step.IH by (auto simp: outranks_def)
    show ?case
      using spec_step_keeps_member[OF step(2) _ n assms(5)] spec_step_keeps_rank[OF step(2) inv o n assms(5)]
        spec_step_rank[OF step(2) inv o, of a] spec_step_owner[OF step(2) o] n step.IH
      by (auto simp: outranks_def)
  qed (use assms(3) in simp)
  then show ?thesis by blast
qed

end
