(* ===== verification/Guild_Contract.thy ===== *)
theory Guild_Contract
  imports Guild_Validation Guild_Policy
begin

text \<open>
  The contracts of the handlers, as relations between the database before and after a successful
  call: \<open>safe\<close> keeps the primary keys and changes the outbox only by complete commits, \<open>sim a\<close>
  is the simulation of the handler by steps of the specification that user \<open>a\<close> may take. Both
  compose over the transaction combinators; the store operations satisfy them one by one.
\<close>

section \<open>Reading\<close>

interpretation reads: tx_contract "(=)"
  by unfold_locales auto

named_theorems read_rules \<open>operations that change nothing\<close>


lemma reads_same: "tx_rel (=) m \<Longrightarrow> m s = Inr (x, s') \<Longrightarrow> s' = s"
  by (auto simp: tx_rel_def)

lemma read_store [read_rules]:
  "tx_rel (=) (GetGuildForMember gid uid)" "tx_rel (=) (store_GetGuild gid)" "tx_rel (=) (store_ListUserGuilds uid after n)"
  "tx_rel (=) (GetGuildChannelLayoutRevision gid)" "tx_rel (=) (CountGuildMembers gid)" "tx_rel (=) (store_GetGuildMember gid uid)"
  "tx_rel (=) (store_ListGuildMembers gid ts uid n)" "tx_rel (=) (GetGuildBan gid uid)" "tx_rel (=) (store_ListGuildBans gid ts uid n)"
  "tx_rel (=) (store_GetGuildRole gid rid)" "tx_rel (=) (store_ListGuildRoles gid)" "tx_rel (=) (ListGuildRolesByGuilds gids)"
  "tx_rel (=) (store_ListGuildMemberRoles gid uid)" "tx_rel (=) (ListGuildMemberRolesByGuilds gids uid)"
  "tx_rel (=) (ListGuildMemberRolesByUsers gid uids)" "tx_rel (=) (store_GetGuildChannel cid)" "tx_rel (=) (store_ListGuildChannels gid)"
  "tx_rel (=) (ListGuildChannelsWithRevision gid)" "tx_rel (=) (ListGuildChannelsWithRevisionsByGuilds gids)"
  "tx_rel (=) (store_ListGuildChannelPermissionOverwrites cid)" "tx_rel (=) (ListGuildChannelPermissionOverwritesByChannels cids)"
  "tx_rel (=) (ListGuildChannelPermissionOverwritesByGuild gid)" "tx_rel (=) (ListGuildChannelPermissionOverwritesByGuilds gids uid)"
  "tx_rel (=) (store_GetGuildInvite code)" "tx_rel (=) (GetGuildInviteByID iid)" "tx_rel (=) (store_ListGuildInvites gid ts n)"
  "tx_rel (=) (ListGuildMemberIDsPage gid uid n)" "tx_rel (=) (ListGuildRoleTargetIDsPage gid rids uid n)"
  "tx_rel (=) (ListUsersWithCommonGuild uid uids)" "tx_rel (=) (store_ListGuildRoleMembers gid rid ts uid n)"
  unfolding GetGuildForMember_def store_GetGuild_def store_ListUserGuilds_def GetGuildChannelLayoutRevision_def CountGuildMembers_def
    store_GetGuildMember_def store_ListGuildMembers_def GetGuildBan_def store_ListGuildBans_def store_GetGuildRole_def
    store_ListGuildRoles_def ListGuildRolesByGuilds_def store_ListGuildMemberRoles_def ListGuildMemberRolesByGuilds_def
    ListGuildMemberRolesByUsers_def store_GetGuildChannel_def store_ListGuildChannels_def ListGuildChannelsWithRevision_def
    ListGuildChannelsWithRevisionsByGuilds_def store_ListGuildChannelPermissionOverwrites_def
    ListGuildChannelPermissionOverwritesByChannels_def ListGuildChannelPermissionOverwritesByGuild_def
    ListGuildChannelPermissionOverwritesByGuilds_def store_GetGuildInvite_def GetGuildInviteByID_def store_ListGuildInvites_def
    ListGuildMemberIDsPage_def ListGuildRoleTargetIDsPage_def ListUsersWithCommonGuild_def store_ListGuildRoleMembers_def Let_def
  by (intro reads.rel_rules | simp)+

lemma read_locks [read_rules]:
  "tx_rel (=) (CheckResourceQuota q)" "tx_rel (=) (LockGuildChannelMutations gid)" "tx_rel (=) NotifyOutbox"
  by (auto simp: tx_rel_def LockGuildChannelMutations_Inr NotifyOutbox_def tx_simps dest: CheckResourceQuota_Inr)

lemma read_loadMemberAuthorityAndRoles [read_rules]: "tx_rel (=) (loadMemberAuthorityAndRoles gid uid)"
  unfolding loadMemberAuthorityAndRoles_def by (intro reads.rel_rules read_rules)

lemma read_loadMemberAuthority [read_rules]: "tx_rel (=) (loadMemberAuthority gid uid)"
  unfolding loadMemberAuthority_def by (auto intro!: reads.rel_rules read_rules split: prod.splits)

text \<open>A run of a handler, decomposed: a read goes on in the same state.\<close>

lemma read_norm: "tx_rel (=) m \<Longrightarrow> NO_MATCH s t \<Longrightarrow> m s = Inr (x, t) \<longleftrightarrow> t = s \<and> m s = Inr (x, s)"
  by (auto simp: tx_rel_def)

lemmas read_simps = read_rules[THEN read_norm]

section \<open>Keys and outbox\<close>

abbreviation outbox_same :: "guild_db \<Rightarrow> guild_db \<Rightarrow> bool" where
  "outbox_same s s' \<equiv> db_outbox s' = db_outbox s"

interpretation obs: tx_contract outbox_same
  by unfold_locales auto

lemma outbox_same_store:
  "tx_rel outbox_same (store_CreateGuild gid owner name ts)" "tx_rel outbox_same (store_UpdateGuild env gid nm desc)"
  "tx_rel outbox_same (UpdateGuildIcon env gid asset)" "tx_rel outbox_same (store_DeleteGuild gid ts)"
  "tx_rel outbox_same (store_TransferGuildOwnership env gid o1 o2)" "tx_rel outbox_same (AdvanceGuildChannelLayoutRevision gid n)"
  "tx_rel outbox_same (CreateGuildMember gid uid ts)" "tx_rel outbox_same (UpdateGuildMemberNickname env gid uid nick)"
  "tx_rel outbox_same (RemoveGuildMember gid uid ts)" "tx_rel outbox_same (DeleteGuildMembers gid ts)"
  "tx_rel outbox_same (UpsertGuildBan ban)" "tx_rel outbox_same (DeleteGuildBan gid uid)" "tx_rel outbox_same (DeleteGuildBans gid)"
  unfolding tx_rel_def store_CreateGuild_def store_UpdateGuild_def UpdateGuildIcon_def store_DeleteGuild_def
    store_TransferGuildOwnership_def AdvanceGuildChannelLayoutRevision_def CreateGuildMember_def UpdateGuildMemberNickname_def
    RemoveGuildMember_def DeleteGuildMembers_def UpsertGuildBan_def DeleteGuildBan_def DeleteGuildBans_def update_guild_def
    tx_modify_def Let_def
  by (auto simp: tx_simps split: sum.splits if_splits prod.splits option.splits)

lemma outbox_same_roles:
  "tx_rel outbox_same (CreateDefaultRole gid ts)" "tx_rel outbox_same (store_CreateGuildRole rid gid nm ps pos ts)"
  "tx_rel outbox_same (store_UpdateGuildRole gid rid nm' ps' ts)" "tx_rel outbox_same (store_DeleteGuildRole gid rid ts)"
  "tx_rel outbox_same (DeleteGuildRoles gid ts)" "tx_rel outbox_same (UpdateGuildRolePositions gid rids poss ts)"
  "tx_rel outbox_same (store_AddGuildMemberRole gid uid rid ts)" "tx_rel outbox_same (store_RemoveGuildMemberRole gid uid rid)"
  "tx_rel outbox_same (DeleteGuildMemberRoleAssignments gid uid)" "tx_rel outbox_same (DeleteGuildRoleAssignments gid rid)"
  "tx_rel outbox_same (DeleteAllGuildRoleAssignments gid)"
  unfolding tx_rel_def CreateDefaultRole_def store_CreateGuildRole_def store_UpdateGuildRole_def store_DeleteGuildRole_def
    DeleteGuildRoles_def UpdateGuildRolePositions_def store_AddGuildMemberRole_def store_RemoveGuildMemberRole_def
    DeleteGuildMemberRoleAssignments_def DeleteGuildRoleAssignments_def DeleteAllGuildRoleAssignments_def insert_role_def
    delete_member_roles_def tx_modify_def Let_def
  by (auto simp: tx_simps split: sum.splits if_splits prod.splits option.splits)

lemma outbox_same_channels:
  "tx_rel outbox_same (store_CreateGuildChannel cid gid nm ty pos topic par ts)" "tx_rel outbox_same (store_UpdateGuildChannel cid nm' tp pr ts)"
  "tx_rel outbox_same (UpdateGuildChannelPositions gid us ts)" "tx_rel outbox_same (store_DeleteGuildChannel cid ts)"
  "tx_rel outbox_same (DeleteGuildChannels gid ts)" "tx_rel outbox_same (ClearGuildChannelParent gid par ts)"
  "tx_rel outbox_same (store_UpsertGuildChannelPermissionOverwrite ow)"
  "tx_rel outbox_same (store_DeleteGuildChannelPermissionOverwrite cid ty tid)"
  "tx_rel outbox_same (DeleteGuildChannelPermissionOverwrites cid)" "tx_rel outbox_same (DeleteAllGuildChannelPermissionOverwrites gid)"
  "tx_rel outbox_same (DeleteGuildChannelPermissionOverwritesForAppliesTo gid ty tid)"
  unfolding tx_rel_def store_CreateGuildChannel_def store_UpdateGuildChannel_def UpdateGuildChannelPositions_def
    store_DeleteGuildChannel_def DeleteGuildChannels_def ClearGuildChannelParent_def store_UpsertGuildChannelPermissionOverwrite_def
    store_DeleteGuildChannelPermissionOverwrite_def DeleteGuildChannelPermissionOverwrites_def
    DeleteAllGuildChannelPermissionOverwrites_def DeleteGuildChannelPermissionOverwritesForAppliesTo_def delete_overwrites_def
    tx_modify_def Let_def
  by (auto simp: tx_simps split: sum.splits if_splits prod.splits option.splits)

lemma outbox_same_invites:
  "tx_rel outbox_same (store_CreateGuildInvite invite)" "tx_rel outbox_same (ConsumeGuildInvite code ts)"
  "tx_rel outbox_same (store_DeleteGuildInvite code)" "tx_rel outbox_same (DeleteGuildInvites gid)"
  unfolding tx_rel_def store_CreateGuildInvite_def ConsumeGuildInvite_def store_DeleteGuildInvite_def DeleteGuildInvites_def
    tx_modify_def Let_def
  by (auto simp: tx_simps split: sum.splits if_splits prod.splits option.splits)

lemma outbox_same_profiles:
  "tx_rel outbox_same (UpsertGuildMemberProfile env p)" "tx_rel outbox_same (UpdateGuildMemberProfilesByUser env p)"
  "tx_rel outbox_same (UpdateGuildMemberProfilesByUserWithoutAvatar env p)"
  "tx_rel outbox_same (UpdateGuildMemberProfileNickname env gid uid nick)" "tx_rel outbox_same (DeleteGuildMemberProfile gid uid)"
  "tx_rel outbox_same (DeleteGuildMemberProfiles gid)"
  unfolding tx_rel_def UpsertGuildMemberProfile_def UpdateGuildMemberProfilesByUser_def
    UpdateGuildMemberProfilesByUserWithoutAvatar_def UpdateGuildMemberProfileNickname_def DeleteGuildMemberProfile_def
    DeleteGuildMemberProfiles_def tx_modify_def Let_def
  by (auto simp: tx_simps split: sum.splits if_splits prod.splits option.splits)

lemma outbox_same_claim_attempts: "tx_rel outbox_same (claim_attempts n params)"
  by (induction n) (auto simp: tx_rel_def tx_simps Let_def split: if_splits option.splits)

lemma outbox_same_claim: "tx_rel outbox_same (ClaimGuildIdempotency params)"
  unfolding ClaimGuildIdempotency_def by (rule outbox_same_claim_attempts)

definition safe :: "guild_db \<Rightarrow> guild_db \<Rightarrow> bool" where
  "safe s s' \<longleftrightarrow> (keys_ok s \<longrightarrow> keys_ok s') \<and> commits s s'"

interpretation safe: tx_contract safe
  by unfold_locales (auto simp: safe_def commits.R_refl intro: commits.R_trans)

named_theorems safe_rules \<open>operations that keep the keys and commit to the outbox\<close>

lemma safe_same: "tx_rel (keeps keys_ok) m \<Longrightarrow> tx_rel outbox_same m \<Longrightarrow> tx_rel safe m"
  unfolding tx_rel_def safe_def using commits_same by blast

lemma safe_read: "tx_rel (=) m \<Longrightarrow> tx_rel safe m"
  using safe.R_refl by (fastforce simp: tx_rel_def)

lemmas safe_reads [safe_rules] = read_rules[THEN safe_read]

lemma safe_store [safe_rules]:
  "tx_rel safe (store_CreateGuild gid owner name ts)" "tx_rel safe (store_UpdateGuild env gid nm desc)"
  "tx_rel safe (UpdateGuildIcon env gid asset)" "tx_rel safe (store_DeleteGuild gid ts)"
  "tx_rel safe (store_TransferGuildOwnership env gid o1 o2)" "tx_rel safe (AdvanceGuildChannelLayoutRevision gid n)"
  "tx_rel safe (CreateGuildMember gid uid ts)" "tx_rel safe (UpdateGuildMemberNickname env gid uid nick)"
  "tx_rel safe (RemoveGuildMember gid uid ts)" "tx_rel safe (DeleteGuildMembers gid ts)"
  "tx_rel safe (UpsertGuildBan ban)" "tx_rel safe (DeleteGuildBan gid uid)" "tx_rel safe (DeleteGuildBans gid)"
  by (rule safe_same; rule keys_rules outbox_same_store)+

lemma safe_roles [safe_rules]:
  "tx_rel safe (CreateDefaultRole gid ts)" "tx_rel safe (store_CreateGuildRole rid gid name ps pos ts)"
  "tx_rel safe (store_UpdateGuildRole gid rid nm' ps' ts)" "tx_rel safe (store_DeleteGuildRole gid rid ts)"
  "tx_rel safe (DeleteGuildRoles gid ts)" "tx_rel safe (UpdateGuildRolePositions gid rids poss ts)"
  "tx_rel safe (store_AddGuildMemberRole gid uid rid ts)" "tx_rel safe (store_RemoveGuildMemberRole gid uid rid)"
  "tx_rel safe (DeleteGuildMemberRoleAssignments gid uid)" "tx_rel safe (DeleteGuildRoleAssignments gid rid)"
  "tx_rel safe (DeleteAllGuildRoleAssignments gid)"
  by (rule safe_same; rule keys_rules outbox_same_roles)+

lemma safe_channels [safe_rules]:
  "tx_rel safe (store_CreateGuildChannel cid gid name ty pos topic par ts)" "tx_rel safe (store_UpdateGuildChannel cid nm' tp pr ts)"
  "tx_rel safe (UpdateGuildChannelPositions gid us ts)" "tx_rel safe (store_DeleteGuildChannel cid ts)"
  "tx_rel safe (DeleteGuildChannels gid ts)" "tx_rel safe (ClearGuildChannelParent gid par ts)"
  "tx_rel safe (store_UpsertGuildChannelPermissionOverwrite ow)"
  "tx_rel safe (store_DeleteGuildChannelPermissionOverwrite cid ty tid)"
  "tx_rel safe (DeleteGuildChannelPermissionOverwrites cid)" "tx_rel safe (DeleteAllGuildChannelPermissionOverwrites gid)"
  "tx_rel safe (DeleteGuildChannelPermissionOverwritesForAppliesTo gid ty tid)"
  by (rule safe_same; rule keys_rules outbox_same_channels)+

lemma safe_others [safe_rules]:
  "tx_rel safe (store_CreateGuildInvite invite)" "tx_rel safe (ConsumeGuildInvite code ts)"
  "tx_rel safe (store_DeleteGuildInvite code)" "tx_rel safe (DeleteGuildInvites gid)"
  "tx_rel safe (UpsertGuildMemberProfile env p)" "tx_rel safe (UpdateGuildMemberProfilesByUser env p)"
  "tx_rel safe (UpdateGuildMemberProfilesByUserWithoutAvatar env p)"
  "tx_rel safe (UpdateGuildMemberProfileNickname env gid uid nick)" "tx_rel safe (DeleteGuildMemberProfile gid uid)"
  "tx_rel safe (DeleteGuildMemberProfiles gid)" "tx_rel safe (ClaimGuildIdempotency params)"
  by (rule safe_same; rule keys_rules outbox_same_invites outbox_same_profiles outbox_same_claim)+

lemma safe_enqueueEvents [safe_rules]: "tx_rel safe (enqueueEvents env k events)"
  using keys_enqueueEvents[of env k events] enqueueEvents_commits[of env k events] by (simp add: tx_rel_def safe_def)

lemma safe_option: "(opt = None \<Longrightarrow> tx_rel safe m) \<Longrightarrow> (\<And>x. opt = Some x \<Longrightarrow> tx_rel safe (f x)) \<Longrightarrow>
    tx_rel safe (case opt of None \<Rightarrow> m | Some x \<Rightarrow> f x)"
  by (cases opt) auto

lemma safe_prod: "(\<And>x y. tx_rel safe (f x y)) \<Longrightarrow> tx_rel safe (case p of (x, y) \<Rightarrow> f x y)"
  by (cases p) auto

lemma safe_with_claim [safe_rules]:
  "(\<And>rid. tx_rel safe (existing rid)) \<Longrightarrow> tx_rel safe create \<Longrightarrow>
     tx_rel safe (with_claim env actor operation key requestHash resourceID ttl existing create)"
  unfolding with_claim_def by (intro safe_option safe.rel_rules safe_rules)

lemmas handler_rules = safe.rel_rules safe_option safe_prod

section \<open>Simulation\<close>

definition sim :: "int64 \<Rightarrow> guild_db \<Rightarrow> guild_db \<Rightarrow> bool" where
  "sim a s s' \<longleftrightarrow> (keys_ok s \<and> spec_inv (absdb s) \<longrightarrow> keys_ok s' \<and> spec_steps a (absdb s) (absdb s'))"

interpretation sim: tx_contract "sim a" for a
proof
  show "sim a s t \<Longrightarrow> sim a t u \<Longrightarrow> sim a s u" for s t u
    unfolding sim_def using spec_steps_inv[of a "absdb s" "absdb t"] by (meson rtranclp_trans)
qed (simp add: sim_def)

lemma simI:
  assumes "tx_rel safe m"
    "\<And>s r s'. m s = Inr (r, s') \<Longrightarrow> keys_ok s \<Longrightarrow> spec_inv (absdb s) \<Longrightarrow> spec_steps a (absdb s) (absdb s')"
  shows "tx_rel (sim a) m"
  using assms unfolding tx_rel_def sim_def safe_def by blast

lemma sim_read: "tx_rel (=) m \<Longrightarrow> tx_rel (sim a) m"
  using sim.R_refl by (fastforce simp: tx_rel_def)

lemma sim_core: "tx_rel core_eq m \<Longrightarrow> tx_rel (sim a) m"
  by (fastforce simp: tx_rel_def sim_def dest: core_eqD(9,10))

lemma sim_step:
  "tx_rel safe m \<Longrightarrow> (\<And>s r s'. m s = Inr (r, s') \<Longrightarrow> keys_ok s \<Longrightarrow> spec_inv (absdb s) \<Longrightarrow> spec_step a (absdb s) (absdb s')) \<Longrightarrow>
     tx_rel (sim a) m"
  by (rule simI) auto

lemma with_claim_Inr:
  assumes "with_claim env actor operation key requestHash resourceID ttl existing create s = Inr (r, s')"
  obtains (existing) t rid where "absdb t = absdb s" "keys_ok t = keys_ok s" "existing rid t = Inr (r, s')"
  | (create) t where "absdb t = absdb s" "keys_ok t = keys_ok s" "create t = Inr (r, s')"
proof (cases key)
  case None
  then show ?thesis using assms create[OF refl refl] by (simp add: with_claim_def)
next
  case (Some k)
  then obtain claim t where c: "ClaimGuildIdempotency \<lparr>ik_ActorUserID = actor, ik_Operation = operation, ik_Key = k,
      ik_RequestHash = requestHash, ik_ResourceID = resourceID, ik_CreatedAt = e_now env, ik_ExpiresAt = e_now env + ttl\<rparr> s = Inr (claim, t)"
    and rest: "(if cl_RequestHash claim \<noteq> requestHash then tx_fail IdempotencyKeyReused
         else if \<not> cl_Claimed claim then existing (cl_ResourceID claim) else create) t = Inr (r, s')"
    using assms by (auto simp: with_claim_def tx_bind_Inr)
  note eq = core_eqD(9,10)[OF tx_relD[OF core_idempotency c]]
  show ?thesis
  proof (cases "cl_Claimed claim")
    case True
    then show ?thesis using rest create[OF eq] by (simp add: tx_fail_def split: if_splits)
  next
    case False
    then show ?thesis using rest existing[OF eq, of "cl_ResourceID claim"] by (simp add: tx_fail_def split: if_splits)
  qed
qed

lemma enqueueEvents_absdb: "enqueueEvents env k events s = Inr (u, s') \<Longrightarrow> absdb s' = absdb s"
  using core_eqD(9)[OF enqueueEvents_core] .

text \<open>The actor's checks on the specification.\<close>

lemma bits_pow: "bits (2 ^ n :: perms) = (if n < 64 then {n} else {})"
  by (auto simp: bit_exp_iff)

lemma has_may:
  assumes "keys_ok s" "loadMemberAuthority gid uid s = Inr (a, s')" "has a (2 ^ n)" "n < 12"
  shows "may (absdb s) gid uid n"
  using has_refines[OF assms(1-3)] loadMemberAuthority_refines(6,7)[OF assms(1,2)] assms(4)
  by (simp add: may_def bits_pow)

lemmas has_perms = has_may[where n = 1, simplified] has_may[where n = 2, simplified] has_may[where n = 3, simplified]
  has_may[where n = 4, simplified] has_may[where n = 7, simplified] has_may[where n = 9, simplified] has_may[where n = 10, simplified]

lemma validatePermissions_bits: "validatePermissions p = Inr () \<Longrightarrow> bits p \<subseteq> {..<12}"
proof -
  assume "validatePermissions p = Inr ()"
  then have "and_not p AllGuildPermissions = 0" by (auto simp: validatePermissions_def split: if_splits)
  then show ?thesis unfolding and_not_zero_iff using bits_AllGuild by auto
qed

lemma canManageRole_controls:
  assumes "keys_ok s" "loadMemberAuthority gid uid s = Inr (a, s')" "canManageRole a r"
  shows "controls (absdb s) gid uid (role_info_of r)"
  using canManageRole_refines[OF assms] by (auto simp: controls_def)

lemma canManageMember_outranks:
  assumes "keys_ok s" "loadMemberAuthority gid uid s = Inr (a, s')" "loadMemberAuthority gid v s = Inr (b, s'')" "canManageMember a b"
  shows "outranks (absdb s) gid uid v"
  using canManageMember_refines[OF assms] by (auto simp: outranks_def)

end
