(* ===== verification/Guild_Cursors.thy ===== *)
theory Guild_Cursors
  imports Cursor Guild_Contract
begin

text \<open>
  The guild service's use of cursors (\<^verbatim>\<open>server/cursors.go\<close>): each list binds its cursor to the request
  it continues. A request without a cursor starts at position zero.
\<close>

section \<open>Payloads\<close>

record userGuildsPayload =
  ug_UserID :: int64
  ug_ID :: int64

record guildIDPayload =
  gi_GuildID :: int64
  gi_ID :: int64

record guildTimeIDPayload =
  gt_GuildID :: int64
  gt_Time :: int64
  gt_ID :: int64

record guildRoleTimeIDPayload =
  gr_GuildID :: int64
  gr_RoleID :: int64
  gr_Time :: int64
  gr_ID :: int64

record mentionTargetsPayload =
  mp_GuildID :: int64
  mp_ChannelID :: int64
  mp_RoleIDs :: "int64 list"
  mp_Everyone :: bool
  mp_AfterUserID :: int64

text \<open>The service's codec with the JSON of each payload type.\<close>

record guild_cursors =
  gc_Codec :: "Codec option"
  gc_userGuilds :: "userGuildsPayload json"
  gc_guildID :: "guildIDPayload json"
  gc_guildTimeID :: "guildTimeIDPayload json"
  gc_guildRoleTimeID :: "guildRoleTimeIDPayload json"
  gc_mentionTargets :: "mentionTargetsPayload json"

section \<open>Reading a cursor\<close>

definition readCursor :: "gostring option \<Rightarrow> guild_error + gostring" where
  "readCursor value = (case value of
       None \<Rightarrow> Inr []
     | Some value \<Rightarrow> if value = [] then Inl (invalidRequest ''cursor is invalid'') else Inr value)"

definition mapCursorErr :: "cursor_error \<Rightarrow> guild_error" where
  "mapCursorErr err = (case err of
       ErrInvalid \<Rightarrow> invalidRequest ''cursor is invalid''
     | CodecRequired \<Rightarrow> StoreError (str ''cursor codec is required'')
     | SecretTooShort \<Rightarrow> StoreError (str ''cursor secret must be at least 32 bytes''))"

definition decodeUserGuildsCursor :: "guild_cursors \<Rightarrow> gostring \<Rightarrow> int64 \<Rightarrow> guild_error + int64" where
  "decodeUserGuildsCursor gc token userID = (case Decode (gc_Codec gc) (gc_userGuilds gc) KindUserGuilds token of
       Inl e \<Rightarrow> Inl (mapCursorErr e)
     | Inr None \<Rightarrow> Inr 0
     | Inr (Some payload) \<Rightarrow>
         if ug_UserID payload \<noteq> userID \<or> ug_ID payload \<le> 0 then Inl (invalidRequest ''cursor is invalid'')
         else Inr (ug_ID payload))"

definition decodeGuildIDCursor :: "guild_cursors \<Rightarrow> gostring \<Rightarrow> gostring \<Rightarrow> int64 \<Rightarrow> guild_error + int64" where
  "decodeGuildIDCursor gc kind token guildID = (case Decode (gc_Codec gc) (gc_guildID gc) kind token of
       Inl e \<Rightarrow> Inl (mapCursorErr e)
     | Inr None \<Rightarrow> Inr 0
     | Inr (Some payload) \<Rightarrow>
         if gi_GuildID payload \<noteq> guildID \<or> gi_ID payload \<le> 0 then Inl (invalidRequest ''cursor is invalid'')
         else Inr (gi_ID payload))"

definition decodeGuildTimeIDCursor ::
  "guild_cursors \<Rightarrow> gostring \<Rightarrow> gostring \<Rightarrow> int64 \<Rightarrow> guild_error + int64 \<times> int64" where
  "decodeGuildTimeIDCursor gc kind token guildID = (case Decode (gc_Codec gc) (gc_guildTimeID gc) kind token of
       Inl e \<Rightarrow> Inl (mapCursorErr e)
     | Inr None \<Rightarrow> Inr (0, 0)
     | Inr (Some payload) \<Rightarrow>
         if gt_GuildID payload \<noteq> guildID \<or> gt_Time payload \<le> 0 \<or> gt_ID payload \<le> 0
         then Inl (invalidRequest ''cursor is invalid'')
         else Inr (gt_Time payload, gt_ID payload))"

definition decodeMentionTargetsCursor ::
  "guild_cursors \<Rightarrow> gostring \<Rightarrow> int64 \<Rightarrow> int64 \<Rightarrow> int64 list \<Rightarrow> bool \<Rightarrow> guild_error + int64" where
  "decodeMentionTargetsCursor gc token guildID channelID roleIDs everyone =
     (case Decode (gc_Codec gc) (gc_mentionTargets gc) KindGuildMentionTargets token of
       Inl e \<Rightarrow> Inl (mapCursorErr e)
     | Inr None \<Rightarrow> Inr 0
     | Inr (Some payload) \<Rightarrow>
         if mp_GuildID payload \<noteq> guildID \<or> mp_ChannelID payload \<noteq> channelID \<or> mp_AfterUserID payload \<le> 0
           \<or> mp_Everyone payload \<noteq> everyone \<or> mp_RoleIDs payload \<noteq> roleIDs
         then Inl (invalidRequest ''cursor is invalid'')
         else Inr (mp_AfterUserID payload))"

definition decodeGuildRoleTimeIDCursor ::
  "guild_cursors \<Rightarrow> gostring \<Rightarrow> int64 \<Rightarrow> int64 \<Rightarrow> guild_error + int64 \<times> int64" where
  "decodeGuildRoleTimeIDCursor gc token guildID roleID =
     (case Decode (gc_Codec gc) (gc_guildRoleTimeID gc) KindGuildRoleMembers token of
       Inl e \<Rightarrow> Inl (mapCursorErr e)
     | Inr None \<Rightarrow> Inr (0, 0)
     | Inr (Some payload) \<Rightarrow>
         if gr_GuildID payload \<noteq> guildID \<or> gr_RoleID payload \<noteq> roleID \<or> gr_Time payload \<le> 0 \<or> gr_ID payload \<le> 0
         then Inl (invalidRequest ''cursor is invalid'')
         else Inr (gr_Time payload, gr_ID payload))"

section \<open>Setting the next cursor\<close>

text \<open>The cursor of the response, \<open>None\<close> when it is not set.\<close>

abbreviation encode_failed :: guild_error where
  "encode_failed \<equiv> Internal (str ''failed to encode cursor'')"

definition encoded :: "cursor_error + gostring \<Rightarrow> guild_error + gostring option" where
  "encoded r = (case r of Inl _ \<Rightarrow> Inl encode_failed | Inr token \<Rightarrow> Inr (Some token))"

definition setNextUserGuildsCursor :: "guild_cursors \<Rightarrow> bool \<Rightarrow> Guild list \<Rightarrow> int64 \<Rightarrow> guild_error + gostring option" where
  "setNextUserGuildsCursor gc hasMore page userID =
     (if \<not> hasMore \<or> page = [] then Inr None
      else let nextID = g_ID (last page) in
        if userID \<le> 0 \<or> nextID \<le> 0 then Inl encode_failed
        else encoded (Encode (gc_Codec gc) (gc_userGuilds gc) KindUserGuilds \<lparr>ug_UserID = userID, ug_ID = nextID\<rparr>))"

definition setNextGuildIDCursor ::
  "guild_cursors \<Rightarrow> gostring \<Rightarrow> bool \<Rightarrow> 'a list \<Rightarrow> int64 \<Rightarrow> ('a \<Rightarrow> int64) \<Rightarrow> guild_error + gostring option" where
  "setNextGuildIDCursor gc kind hasMore page guildID idOf =
     (if \<not> hasMore \<or> page = [] then Inr None
      else let nextID = idOf (last page) in
        if guildID \<le> 0 \<or> nextID \<le> 0 then Inl encode_failed
        else encoded (Encode (gc_Codec gc) (gc_guildID gc) kind \<lparr>gi_GuildID = guildID, gi_ID = nextID\<rparr>))"

definition setNextMemberCursor ::
  "guild_cursors \<Rightarrow> gostring \<Rightarrow> bool \<Rightarrow> GuildMember list \<Rightarrow> int64 \<Rightarrow> guild_error + gostring option" where
  "setNextMemberCursor gc kind hasMore page guildID =
     (if \<not> hasMore \<or> page = [] then Inr None
      else let l = last page in
        if guildID \<le> 0 \<or> m_JoinedAt l \<le> 0 \<or> m_UserID l \<le> 0 then Inl encode_failed
        else encoded (Encode (gc_Codec gc) (gc_guildTimeID gc) kind
          \<lparr>gt_GuildID = guildID, gt_Time = m_JoinedAt l, gt_ID = m_UserID l\<rparr>))"

definition setNextRoleMemberCursor ::
  "guild_cursors \<Rightarrow> bool \<Rightarrow> GuildMember list \<Rightarrow> int64 \<Rightarrow> int64 \<Rightarrow> guild_error + gostring option" where
  "setNextRoleMemberCursor gc hasMore page guildID roleID =
     (if \<not> hasMore \<or> page = [] then Inr None
      else let l = last page in
        if guildID \<le> 0 \<or> roleID \<le> 0 \<or> m_JoinedAt l \<le> 0 \<or> m_UserID l \<le> 0 then Inl encode_failed
        else encoded (Encode (gc_Codec gc) (gc_guildRoleTimeID gc) KindGuildRoleMembers
          \<lparr>gr_GuildID = guildID, gr_RoleID = roleID, gr_Time = m_JoinedAt l, gr_ID = m_UserID l\<rparr>))"

definition setNextBanCursor :: "guild_cursors \<Rightarrow> bool \<Rightarrow> GuildBan list \<Rightarrow> int64 \<Rightarrow> guild_error + gostring option" where
  "setNextBanCursor gc hasMore page guildID =
     (if \<not> hasMore \<or> page = [] then Inr None
      else let l = last page in
        if guildID \<le> 0 \<or> b_CreatedAt l \<le> 0 \<or> b_UserID l \<le> 0 then Inl encode_failed
        else encoded (Encode (gc_Codec gc) (gc_guildTimeID gc) KindGuildBans
          \<lparr>gt_GuildID = guildID, gt_Time = b_CreatedAt l, gt_ID = b_UserID l\<rparr>))"

definition setNextMentionTargetsCursor :: "guild_cursors \<Rightarrow> bool \<Rightarrow> int64 \<Rightarrow> int64 \<Rightarrow> int64 \<Rightarrow> int64 list \<Rightarrow> bool
    \<Rightarrow> guild_error + gostring option" where
  "setNextMentionTargetsCursor gc hasMore afterUserID guildID channelID roleIDs everyone =
     (if \<not> hasMore \<or> afterUserID \<le> 0 then Inr None
      else encoded (Encode (gc_Codec gc) (gc_mentionTargets gc) KindGuildMentionTargets
        \<lparr>mp_GuildID = guildID, mp_ChannelID = channelID, mp_RoleIDs = roleIDs, mp_Everyone = everyone,
         mp_AfterUserID = afterUserID\<rparr>))"

text \<open>A value read from the database before the transaction, in the state \<open>pre\<close> it had then.\<close>

definition tx_before :: "guild_db \<Rightarrow> 'a gtx \<Rightarrow> 'a gtx" where
  "tx_before pre m = (\<lambda>s. case m pre of Inl e \<Rightarrow> Inl e | Inr (x, _) \<Rightarrow> Inr (x, s))"

lemma tx_before_Inr [tx_simps]: "tx_before pre m s = Inr (x, s') \<longleftrightarrow> s' = s \<and> (\<exists>t. m pre = Inr (x, t))"
  by (auto simp: tx_before_def split: sum.splits)

lemma read_before [read_rules]: "tx_rel (=) (tx_before pre m)"
  by (auto simp: tx_rel_def tx_simps)

lemma safe_before [safe_rules]: "tx_rel safe (tx_before pre m)"
  by (rule safe_read[OF read_before])

end
