(* ===== verification/Guild_Channels.thy ===== *)
theory Guild_Channels
  imports Guild_Cursors "HOL-Library.Multiset"
begin

text \<open>
  The channel handlers (\<^verbatim>\<open>server/channels.go\<close>, \<^verbatim>\<open>channel_layout.go\<close>, \<^verbatim>\<open>channel_validation.go\<close>,
  \<^verbatim>\<open>channel_permissions.go\<close>): creating, updating, deleting and reordering channels under the layout
  revision, and their permission overwrites.
\<close>

section \<open>Validation\<close>

definition requireGuildChannelLayoutRevision :: "int64 \<Rightarrow> int64 \<Rightarrow> unit gtx" where
  "requireGuildChannelLayoutRevision guildID expectedRevision =
     tx_bind (GetGuildChannelLayoutRevision guildID) (\<lambda>currentRevision.
     tx_require (currentRevision = expectedRevision) ChannelLayoutConflict)"

definition validateChannelParent :: "int64 \<Rightarrow> int32 \<Rightarrow> int64 \<Rightarrow> unit gtx" where
  "validateChannelParent guildID channelType parentID =
     (if parentID = 0 then tx_return ()
      else if parentID < 0 then tx_fail (invalidRequest ''parent id must not be negative'')
      else if channelType = CHANNEL_CATEGORY then tx_fail (invalidRequest ''category channels cannot have a parent'')
      else tx_bind (store_GetGuildChannel parentID) (\<lambda>parent.
        tx_require (c_GuildID parent = guildID \<and> c_Type parent = CHANNEL_CATEGORY)
          (invalidRequest ''parent channel must be a category in the same guild'')))"

definition isDefaultEveryoneOverwrite :: "int32 \<Rightarrow> int64 \<Rightarrow> int64 \<Rightarrow> bool" where
  "isDefaultEveryoneOverwrite appliesTo appliesToID guildID \<longleftrightarrow> appliesTo = OVERWRITE_ROLE \<and> appliesToID = guildID"

definition validateOverwriteAppliesTo :: "memberAuthority \<Rightarrow> int64 \<Rightarrow> int32 \<Rightarrow> int64 \<Rightarrow> unit gtx" where
  "validateOverwriteAppliesTo authority guildID appliesTo appliesToID =
     (if appliesTo = OVERWRITE_ROLE
      then tx_bind (store_GetGuildRole guildID appliesToID) (\<lambda>role.
        tx_require (r_IsDefault role \<or> canManageRole authority role) PermissionDenied)
      else if appliesTo = OVERWRITE_MEMBER
      then tx_bind (loadMemberAuthority guildID appliesToID) (\<lambda>target.
        tx_require (canManageMember authority target) PermissionDenied)
      else tx_fail (invalidRequest ''invalid overwrite applies_to''))"

definition upsertDefaultEveryoneOverwrite ::
  "int64 \<Rightarrow> int64 \<Rightarrow> int64 \<Rightarrow> int \<Rightarrow> ChannelPermissionOverwrite gtx" where
  "upsertDefaultEveryoneOverwrite channelID guildID createdAt limit =
     tx_then (CheckResourceQuota ((quota QuotaChannelOverwrites channelID limit)
       \<lparr>q_AppliesTo := OVERWRITE_ROLE, q_AppliesToID := guildID\<rparr>))
     (store_UpsertGuildChannelPermissionOverwrite \<lparr>o_ChannelID = channelID, o_GuildID = guildID,
        o_AppliesTo = OVERWRITE_ROLE, o_AppliesToID = guildID, o_Allow = 0, o_Deny = 0, o_Revision = 0,
        o_CreatedAt = createdAt, o_UpdatedAt = 0\<rparr>)"

section \<open>Layout\<close>

definition isUncategorizedChannel :: "int32 \<Rightarrow> int64 \<Rightarrow> bool" where
  "isUncategorizedChannel channelType parentID \<longleftrightarrow> parentID = 0 \<and> channelType \<noteq> CHANNEL_CATEGORY"

definition nextGuildChannelPosition :: "Channel list \<Rightarrow> int32" where
  "nextGuildChannelPosition channels =
     foldl (\<lambda>position channel. if c_Position channel \<ge> position then wrap32 (c_Position channel + 1) else position) 0 channels"

definition uncategorizedChannelInsertPosition :: "Channel list \<Rightarrow> int32" where
  "uncategorizedChannelInsertPosition channels =
     foldl (\<lambda>position channel.
         if isUncategorizedChannel (c_Type channel) (c_ParentID channel) then position
         else if c_Position channel < position then c_Position channel else position)
       (nextGuildChannelPosition channels) channels"

definition resolvedChannelParentID :: "Channel \<Rightarrow> (int64 \<rightharpoonup> int64) \<Rightarrow> int64" where
  "resolvedChannelParentID channel parentIDs = (case parentIDs (c_ID channel) of Some parentID \<Rightarrow> parentID | None \<Rightarrow> c_ParentID channel)"

text \<open>The requested channels go to their slots of \<open>ordered\<close>.\<close>

fun place_requested ::
  "Channel list \<Rightarrow> Channel option list \<Rightarrow> (int64 \<times> int32) list \<Rightarrow> guild_error + Channel option list" where
  "place_requested channels ordered [] = Inr ordered"
| "place_requested channels ordered ((channelID, position) # positions) =
     (if position \<ge> wrap32 (int (length ordered)) then Inl (invalidRequest ''channel position is out of range'')
      else case List.find (\<lambda>c. c_ID c = channelID) channels of
        None \<Rightarrow> Inl NotFound
      | Some channel \<Rightarrow>
          if ordered ! nat position \<noteq> None then Inl (invalidRequest ''channel positions conflict'')
          else place_requested channels (ordered[nat position := Some channel]) positions)"

text \<open>
  The inner loop \<^verbatim>\<open>for ordered[next] != nil\<close>; \<open>None\<close> stands for the panic of running past the end.
\<close>

function next_free :: "Channel option list \<Rightarrow> nat \<Rightarrow> nat option" where
  "next_free ordered next =
     (if length ordered \<le> next then None
      else if ordered ! next \<noteq> None then next_free ordered (Suc next)
      else Some next)"
  by pat_completeness auto
termination
  by (relation "measure (\<lambda>(ordered, next). length ordered - next)") auto

declare next_free.simps [simp del]

primrec fill_rest :: "Channel option list \<Rightarrow> nat \<Rightarrow> Channel list \<Rightarrow> Channel option list option" where
  "fill_rest ordered next [] = Some ordered"
| "fill_rest ordered next (channel # channels) = (case next_free ordered next of
       None \<Rightarrow> None
     | Some slot \<Rightarrow> fill_rest (ordered[slot := Some channel]) slot channels)"

text \<open>The channels in their new order, uncategorized ones first. \<open>positions\<close> are in iteration order.\<close>

definition placed_channels ::
  "Channel list \<Rightarrow> (int64 \<times> int32) list \<Rightarrow> (int64 \<rightharpoonup> int64) \<Rightarrow> guild_error + Channel list" where
  "placed_channels channels positions parentIDs =
     (case place_requested channels (replicate (length channels) None) positions of
        Inl e \<Rightarrow> Inl e
      | Inr ordered \<Rightarrow>
          (case fill_rest ordered 0 (filter (\<lambda>c. c_ID c \<notin> fst ` set positions) channels) of
             None \<Rightarrow> Inl (Internal (str ''index out of range''))
           | Some slots \<Rightarrow>
               let ordered = map the slots;
                   uncategorized = (\<lambda>c. isUncategorizedChannel (c_Type c) (resolvedChannelParentID c parentIDs))
               in Inr (filter uncategorized ordered @ filter (\<lambda>c. \<not> uncategorized c) ordered)))"

definition position_updates :: "(Channel \<Rightarrow> int64) \<Rightarrow> Channel list \<Rightarrow> GuildChannelPositionUpdate list" where
  "position_updates parent ordered =
     map (\<lambda>(i, c). \<lparr>pu_ChannelID = c_ID c, pu_Position = wrap32 (int i), pu_ParentID = parent c\<rparr>)
       (filter (\<lambda>(i, c). \<not> (c_Position c = wrap32 (int i) \<and> c_ParentID c = parent c)) (enumerate 0 ordered))"

definition normalizeGuildChannelPlacements ::
  "Channel list \<Rightarrow> (int64 \<times> int32) list \<Rightarrow> (int64 \<rightharpoonup> int64) \<Rightarrow> guild_error + GuildChannelPositionUpdate list" where
  "normalizeGuildChannelPlacements channels positions parentIDs =
     (case placed_channels channels positions parentIDs of
        Inl e \<Rightarrow> Inl e
      | Inr ordered \<Rightarrow> Inr (position_updates (\<lambda>c. resolvedChannelParentID c parentIDs) ordered))"

text \<open>Where the moved channel goes among the others; \<open>None\<close> when its new parent is not there.\<close>

definition move_destination :: "Channel list \<Rightarrow> int64 \<Rightarrow> nat option" where
  "move_destination remaining parentID =
     (if parentID = 0
      then Some (length (takeWhile (\<lambda>c. isUncategorizedChannel (c_Type c) (c_ParentID c)) remaining))
      else foldl (\<lambda>d (i, c). if c_ID c = parentID \<or> c_ParentID c = parentID then Some (Suc i) else d) None
             (enumerate 0 remaining))"

definition channelParentMoveUpdates ::
  "Channel list \<Rightarrow> int64 \<Rightarrow> int64 \<Rightarrow> guild_error + GuildChannelPositionUpdate list" where
  "channelParentMoveUpdates channels channelID parentID =
     (let remaining = filter (\<lambda>c. c_ID c \<noteq> channelID) channels in
      case List.find (\<lambda>c. c_ID c = channelID) (rev channels) of
        None \<Rightarrow> Inl NotFound
      | Some moving \<Rightarrow>
          (case move_destination remaining parentID of
             None \<Rightarrow> Inl NotFound
           | Some destination \<Rightarrow>
               let ordered = take destination remaining @ [moving] @ drop destination remaining
               in Inr (position_updates (\<lambda>c. if c_ID c = c_ID moving then parentID else c_ParentID c) ordered)))"

section \<open>Creating, updating and deleting a channel\<close>

text \<open>The getter of an optional field that is not set.\<close>

abbreviation or_zero :: "int64 option \<Rightarrow> int64" where
  "or_zero x \<equiv> (case x of Some v \<Rightarrow> v | None \<Rightarrow> 0)"

definition CreateGuildChannel :: "guild_env \<Rightarrow> int64 \<Rightarrow> int64 \<Rightarrow> gostring \<Rightarrow> int32 \<Rightarrow> gostring \<Rightarrow> int64 \<Rightarrow> int64 option
    \<Rightarrow> gostring option \<Rightarrow> (Channel \<times> int64) gtx" where
  "CreateGuildChannel env guildID actorUserID name channelType topic parentID expected key =
     tx_then (tx_lift (validateMemberActorRequest guildID actorUserID))
     (tx_bind (tx_lift (normalizeChannelName name)) (\<lambda>name.
     tx_bind (tx_lift (normalizeChannelType channelType)) (\<lambda>channelType.
     tx_then (tx_lift (validateChannelTopic topic))
     (tx_then (tx_lift (validateExpectedChannelLayoutRevision expected))
     (tx_then (tx_lift (validateIdempotencyKey key (KeyLength (e_Idempotency env))))
     (let requestHash = e_digest env (ChannelFingerprint guildID name channelType topic parentID);
          createdAt = e_now env;
          channelID = e_gen env 0
      in tx_map_error mapStoreError
        (tx_bind (loadMemberAuthority guildID actorUserID) (\<lambda>authority.
         tx_then (tx_require (has authority PermissionManageChannels) PermissionDenied)
         (with_claim env actorUserID createGuildChannelOperation key requestHash channelID
            (CreateGuildChannelTTL (e_Idempotency env))
            (\<lambda>resourceID. tx_bind (store_GetGuildChannel resourceID) (\<lambda>existing.
               tx_bind (GetGuildChannelLayoutRevision guildID) (\<lambda>layoutRevision. tx_return (existing, layoutRevision))))
            (tx_then (LockGuildChannelMutations guildID)
            (tx_then (requireGuildChannelLayoutRevision guildID (or_zero expected))
            (tx_then (CheckResourceQuota (quota QuotaGuildChannels guildID (Channels (e_Limits env))))
            (tx_bind (store_ListGuildChannels guildID) (\<lambda>channels.
             tx_then (validateChannelParent guildID channelType parentID)
             (tx_bind
               (if channelType \<noteq> CHANNEL_CATEGORY \<and> parentID = 0
                then
                  let position = uncategorizedChannelInsertPosition channels;
                      updates = map (\<lambda>c. \<lparr>pu_ChannelID = c_ID c, pu_Position = wrap32 (c_Position c + 1), pu_ParentID = c_ParentID c\<rparr>)
                                  (filter (\<lambda>c. \<not> c_Position c < position) channels)
                  in tx_bind (UpdateGuildChannelPositions guildID updates createdAt) (\<lambda>shifted.
                     tx_then (tx_require (length shifted = length updates) NotFound) (tx_return (position, shifted)))
                else tx_return (nextGuildChannelPosition channels, []))
               (\<lambda>(position, shifted).
                tx_bind (store_CreateGuildChannel channelID guildID name channelType position topic parentID createdAt) (\<lambda>channel.
                tx_bind (upsertDefaultEveryoneOverwrite (c_ID channel) (c_GuildID channel) createdAt (Overwrites (e_Limits env)))
                  (\<lambda>everyoneOverwrite.
                tx_bind (AdvanceGuildChannelLayoutRevision guildID (or_zero expected)) (\<lambda>layoutRevision.
                let n = length shifted;
                    events = draft_events env 1 (\<lambda>c. newGuildChannelUpdatedEvent c layoutRevision) shifted
                      @ [newGuildChannelCreatedEvent channel layoutRevision (e_gen env (1 + n)),
                         newGuildChannelOverwriteUpdatedEvent everyoneOverwrite (e_gen env (2 + n))]
                in tx_then (enqueueEvents env (3 + n) events) (tx_return (channel, layoutRevision)))))))))))))))))))))"

text \<open>\<^verbatim>\<open>updatedChannels[i] = updated\<close> for the first channel with its identifier.\<close>

primrec replace_channel :: "Channel \<Rightarrow> Channel list \<Rightarrow> Channel list" where
  "replace_channel updated [] = []"
| "replace_channel updated (c # cs) = (if c_ID c = c_ID updated then updated # cs else c # replace_channel updated cs)"

text \<open>
  The two changes inside the transaction of \<^verbatim>\<open>UpdateGuildChannel\<close>, each with the variables it may assign:
  the parent still to be written, the changed channels, the updated channel and whether the layout
  changed.
\<close>

definition move_to_parent ::
  "int64 \<Rightarrow> Channel \<Rightarrow> int64 option \<Rightarrow> (int64 option \<times> Channel list \<times> Channel option \<times> bool) gtx" where
  "move_to_parent updatedAt channel parentID = (case parentID of
       None \<Rightarrow> tx_return (None, [], None, False)
     | Some p \<Rightarrow>
         if p = c_ParentID channel then tx_return (Some p, [], None, False)
         else
           tx_bind (store_ListGuildChannels (c_GuildID channel)) (\<lambda>channels.
           tx_bind (tx_lift (channelParentMoveUpdates channels (c_ID channel) p)) (\<lambda>updates.
           tx_bind (UpdateGuildChannelPositions (c_GuildID channel) updates updatedAt) (\<lambda>updatedChannels.
           tx_then (tx_require (length updatedChannels = length updates) NotFound)
           (case List.find (\<lambda>c. c_ID c = c_ID channel) updatedChannels of
              None \<Rightarrow> tx_fail NotFound
            | Some updated \<Rightarrow> tx_return (None, updatedChannels, Some updated, True))))))"

definition update_fields :: "int64 \<Rightarrow> int64 \<Rightarrow> gostring option \<Rightarrow> gostring option \<Rightarrow> int64 option \<Rightarrow> Channel list \<Rightarrow> Channel option
    \<Rightarrow> (Channel list \<times> Channel option) gtx" where
  "update_fields channelID updatedAt name topic parentID updatedChannels updated =
     (if name \<noteq> None \<or> topic \<noteq> None \<or> parentID \<noteq> None
      then tx_bind (store_UpdateGuildChannel channelID name topic parentID updatedAt) (\<lambda>updated.
        tx_return (if updatedChannels = [] then [updated] else replace_channel updated updatedChannels, Some updated))
      else tx_return (updatedChannels, updated))"

definition UpdateGuildChannel :: "guild_env \<Rightarrow> int64 \<Rightarrow> int64 \<Rightarrow> gostring option \<Rightarrow> gostring option \<Rightarrow> int64 option \<Rightarrow> int64 option
    \<Rightarrow> (Channel \<times> int64 option) gtx" where
  "UpdateGuildChannel env channelID actorUserID name topic parentID expected =
     tx_then (tx_lift (validateChannelActorRequest channelID actorUserID))
     (let updatedAt = e_now env in
     tx_bind (tx_lift (optional normalizeChannelName name)) (\<lambda>name.
     tx_then (tx_lift (optional validateChannelTopic topic))
     (tx_then (case parentID of None \<Rightarrow> tx_return ()
                | Some p \<Rightarrow> tx_then (tx_require (\<not> p < 0) (invalidRequest ''parent id must not be negative''))
                             (tx_lift (validateExpectedChannelLayoutRevision expected)))
     (tx_then (tx_require (name \<noteq> None \<or> topic \<noteq> None \<or> parentID \<noteq> None) (invalidRequest ''at least one channel field is required''))
     (tx_map_error mapStoreError
       (tx_bind (store_GetGuildChannel channelID) (\<lambda>channel.
        tx_bind (case parentID of None \<Rightarrow> tx_return channel
                 | Some _ \<Rightarrow> tx_then (LockGuildChannelMutations (c_GuildID channel))
                      (tx_then (requireGuildChannelLayoutRevision (c_GuildID channel) (or_zero expected))
                      (store_GetGuildChannel channelID))) (\<lambda>channel.
        tx_bind (loadMemberAuthority (c_GuildID channel) actorUserID) (\<lambda>authority.
        tx_then (tx_require (has authority PermissionManageChannels) PermissionDenied)
        (tx_then (case parentID of None \<Rightarrow> tx_return () | Some p \<Rightarrow> validateChannelParent (c_GuildID channel) (c_Type channel) p)
        (tx_bind (move_to_parent updatedAt channel parentID) (\<lambda>(parentID, updatedChannels, updated, layoutChanged).
         tx_bind (update_fields channelID updatedAt name topic parentID updatedChannels updated) (\<lambda>(updatedChannels, updated).
         tx_bind (if layoutChanged then AdvanceGuildChannelLayoutRevision (c_GuildID channel) (or_zero expected) else tx_return 0)
           (\<lambda>layoutRevision.
         tx_then (enqueueEvents env (length updatedChannels)
            (draft_events env 0 (\<lambda>c. newGuildChannelUpdatedEvent c layoutRevision) updatedChannels))
         (tx_return (the updated, if layoutChanged then Some layoutRevision else None))))))))))))))))"

text \<open>The children of a deleted category move to the guild's root; the result are those channels.\<close>

definition detach_children :: "int64 \<Rightarrow> Channel \<Rightarrow> Channel list gtx" where
  "detach_children deletedAt channel =
     (if c_Type channel = CHANNEL_CATEGORY
      then
        tx_bind (store_ListGuildChannels (c_GuildID channel)) (\<lambda>channels.
        let childIDs = set (map c_ID (filter (\<lambda>c. c_ParentID c = c_ID channel) channels)) in
        tx_then (ClearGuildChannelParent (c_GuildID channel) (c_ID channel) deletedAt)
        (tx_bind (store_ListGuildChannels (c_GuildID channel)) (\<lambda>channels.
         tx_return (filter (\<lambda>c. c_ID c \<in> childIDs) channels))))
      else tx_return [])"

definition DeleteGuildChannel :: "guild_env \<Rightarrow> int64 \<Rightarrow> int64 \<Rightarrow> int64 option \<Rightarrow> int64 gtx" where
  "DeleteGuildChannel env channelID actorUserID expected =
     tx_then (tx_lift (validateChannelActorRequest channelID actorUserID))
     (tx_then (tx_lift (validateExpectedChannelLayoutRevision expected))
     (tx_map_error mapStoreError
       (tx_bind (store_GetGuildChannel channelID) (\<lambda>channel.
        tx_bind (loadMemberAuthority (c_GuildID channel) actorUserID) (\<lambda>authority.
        tx_then (tx_require (has authority PermissionManageChannels) PermissionDenied)
        (tx_then (LockGuildChannelMutations (c_GuildID channel))
        (tx_bind (store_GetGuildChannel channelID) (\<lambda>channel.
        tx_then (requireGuildChannelLayoutRevision (c_GuildID channel) (or_zero expected))
        (let deletedAt = e_now env in
         tx_bind (detach_children deletedAt channel)
           (\<lambda>movedChildren.
            tx_then (DeleteGuildChannelPermissionOverwrites (c_ID channel))
            (tx_bind (store_DeleteGuildChannel (c_ID channel) deletedAt) (\<lambda>deleted.
             tx_bind (AdvanceGuildChannelLayoutRevision (c_GuildID channel) (or_zero expected)) (\<lambda>layoutRevision.
             tx_then (enqueueEvents env (1 + length movedChildren)
               (newGuildChannelDeletedEvent deleted layoutRevision (e_gen env 0)
                # draft_events env 1 (\<lambda>c. newGuildChannelUpdatedEvent c layoutRevision) movedChildren))
             (tx_return layoutRevision))))))))))))))"

section \<open>Reordering\<close>

text \<open>A request item: channel, position and, when set, the new parent.\<close>

type_synonym placement_item = "int64 \<times> int32 \<times> int64 option"

fun channel_positions :: "(int64 \<times> int32) list \<Rightarrow> placement_item list \<Rightarrow> guild_error + (int64 \<times> int32) list" where
  "channel_positions positions [] = Inr positions"
| "channel_positions positions ((channelID, position, parentID) # items) =
     (if channelID \<le> 0 \<or> position < 0 \<or> (case parentID of Some p \<Rightarrow> p < 0 | None \<Rightarrow> False)
      then Inl (invalidRequest ''channel id and position are invalid'')
      else if channelID \<in> fst ` set positions then Inl (invalidRequest ''channel id must be unique'')
      else channel_positions (positions @ [(channelID, position)]) items)"

primrec requested_parents :: "int64 \<Rightarrow> Channel list \<Rightarrow> placement_item list \<Rightarrow> (int64 \<rightharpoonup> int64) gtx" where
  "requested_parents guildID current [] = tx_return Map.empty"
| "requested_parents guildID current (item # items) =
     (case item of (channelID, position, parentID) \<Rightarrow>
       (case List.find (\<lambda>c. c_ID c = channelID) current of
          None \<Rightarrow> tx_fail NotFound
        | Some channel \<Rightarrow>
            tx_bind (case parentID of
                None \<Rightarrow> tx_return (c_ParentID channel)
              | Some p \<Rightarrow> tx_then (validateChannelParent guildID (c_Type channel) p) (tx_return p)) (\<lambda>parent.
            tx_bind (requested_parents guildID current items) (\<lambda>parentIDs.
            tx_return (parentIDs(channelID \<mapsto> parent))))))"

definition apply_placements ::
  "guild_env \<Rightarrow> int64 \<Rightarrow> int64 \<Rightarrow> Channel list \<Rightarrow> GuildChannelPositionUpdate list \<Rightarrow> (Channel list \<times> int64) gtx" where
  "apply_placements env guildID expected current updates =
     (if updates = [] then tx_return (current, expected)
      else
        tx_bind (UpdateGuildChannelPositions guildID updates (e_now env)) (\<lambda>updated.
        tx_then (tx_require (length updated = length updates) NotFound)
        (tx_bind (AdvanceGuildChannelLayoutRevision guildID expected) (\<lambda>layoutRevision.
         tx_bind (store_ListGuildChannels guildID) (\<lambda>channels.
         tx_then (enqueueEvents env (length updated)
           (draft_events env 0 (\<lambda>c. newGuildChannelUpdatedEvent c layoutRevision) updated))
         (tx_return (channels, layoutRevision)))))))"

definition ReorderGuildChannels ::
  "guild_env \<Rightarrow> int64 \<Rightarrow> int64 \<Rightarrow> placement_item list \<Rightarrow> int64 option \<Rightarrow> (Channel list \<times> int64) gtx" where
  "ReorderGuildChannels env guildID actorUserID items expected =
     tx_then (tx_lift (validateMemberActorRequest guildID actorUserID))
     (tx_then (tx_require (items \<noteq> []) (invalidRequest ''channel positions are required''))
     (tx_then (tx_lift (validateExpectedChannelLayoutRevision expected))
     (tx_bind (tx_lift (channel_positions [] items)) (\<lambda>positions.
     tx_map_error mapStoreError
       (tx_bind (loadMemberAuthority guildID actorUserID) (\<lambda>authority.
        tx_then (tx_require (has authority PermissionManageChannels) PermissionDenied)
        (tx_then (LockGuildChannelMutations guildID)
        (tx_then (requireGuildChannelLayoutRevision guildID (or_zero expected))
        (tx_bind (store_ListGuildChannels guildID) (\<lambda>current.
         tx_bind (requested_parents guildID current items) (\<lambda>parentIDs.
         tx_bind (tx_lift (normalizeGuildChannelPlacements current (e_iter env positions) parentIDs)) (\<lambda>updates.
         apply_placements env guildID (or_zero expected) current updates))))))))))))"

section \<open>Overwrites\<close>

definition UpsertGuildChannelPermissionOverwrite ::
  "guild_env \<Rightarrow> int64 \<Rightarrow> int64 \<Rightarrow> int32 \<Rightarrow> int64 \<Rightarrow> perms \<Rightarrow> perms \<Rightarrow> ChannelPermissionOverwrite gtx" where
  "UpsertGuildChannelPermissionOverwrite env channelID actorUserID appliesTo appliesToID allow deny =
     tx_then (tx_lift (validateOverwriteRequest channelID actorUserID appliesTo appliesToID allow deny))
     (let changedAt = e_now env in
      tx_map_error mapStoreError
        (tx_bind (store_GetGuildChannel channelID) (\<lambda>channel.
         tx_bind (loadMemberAuthority (c_GuildID channel) actorUserID) (\<lambda>authority.
         tx_then (tx_require (has authority PermissionManageChannels \<and> canGrantPermissions authority allow) PermissionDenied)
         (tx_then (validateOverwriteAppliesTo authority (c_GuildID channel) appliesTo appliesToID)
         (tx_then (CheckResourceQuota ((quota QuotaChannelOverwrites (c_ID channel) (Overwrites (e_Limits env)))
            \<lparr>q_AppliesTo := appliesTo, q_AppliesToID := appliesToID\<rparr>))
         (tx_bind (store_UpsertGuildChannelPermissionOverwrite \<lparr>o_ChannelID = c_ID channel, o_GuildID = c_GuildID channel,
             o_AppliesTo = appliesTo, o_AppliesToID = appliesToID, o_Allow = allow, o_Deny = deny, o_Revision = 0,
             o_CreatedAt = changedAt, o_UpdatedAt = 0\<rparr>) (\<lambda>overwrite.
          tx_then (enqueueEvents env 1 [newGuildChannelOverwriteUpdatedEvent overwrite (e_gen env 0)])
          (tx_return overwrite)))))))))"

definition DeleteGuildChannelPermissionOverwrite ::
  "guild_env \<Rightarrow> int64 \<Rightarrow> int64 \<Rightarrow> int32 \<Rightarrow> int64 \<Rightarrow> unit gtx" where
  "DeleteGuildChannelPermissionOverwrite env channelID actorUserID appliesTo appliesToID =
     tx_then (tx_lift (validateOverwriteRequest channelID actorUserID appliesTo appliesToID 0 0))
     (tx_map_error mapStoreError
       (tx_bind (store_GetGuildChannel channelID) (\<lambda>channel.
        tx_bind (loadMemberAuthority (c_GuildID channel) actorUserID) (\<lambda>authority.
        tx_then (tx_require (has authority PermissionManageChannels) PermissionDenied)
        (tx_then (tx_require (\<not> isDefaultEveryoneOverwrite appliesTo appliesToID (c_GuildID channel))
           (invalidRequest ''default role overwrite cannot be deleted''))
        (tx_then (validateOverwriteAppliesTo authority (c_GuildID channel) appliesTo appliesToID)
        (tx_then (store_DeleteGuildChannelPermissionOverwrite (c_ID channel) appliesTo appliesToID)
        (enqueueEvents env 1 [newGuildChannelOverwriteDeletedEvent (c_GuildID channel) channelID appliesTo appliesToID (e_gen env 0)]))))))))"

definition ListGuildChannelPermissionOverwrites :: "int64 \<Rightarrow> int64 \<Rightarrow> ChannelPermissionOverwrite list gtx" where
  "ListGuildChannelPermissionOverwrites channelID actorUserID =
     tx_then (tx_lift (validateChannelActorRequest channelID actorUserID))
     (tx_map_error mapStoreError
       (tx_bind (store_GetGuildChannel channelID) (\<lambda>channel.
        tx_bind (loadMemberAuthority (c_GuildID channel) actorUserID) (\<lambda>authority.
        tx_then (tx_require (has authority PermissionManageChannels) PermissionDenied)
        (store_ListGuildChannelPermissionOverwrites (c_ID channel))))))"

section \<open>The handlers keep keys and outbox\<close>

lemma read_validation [read_rules]:
  "tx_rel (=) (requireGuildChannelLayoutRevision gid n)" "tx_rel (=) (validateChannelParent gid ty p)"
  "tx_rel (=) (validateOverwriteAppliesTo au gid ty tid)"
  unfolding requireGuildChannelLayoutRevision_def validateChannelParent_def validateOverwriteAppliesTo_def
  by (intro reads.rel_rules read_rules)+

lemma read_requested_parents [read_rules]: "tx_rel (=) (requested_parents gid current items)"
proof (induction items)
  case (Cons item items)
  then show ?case by (cases item) (auto intro!: reads.rel_rules read_rules split: option.split)
qed (simp add: reads.rel_return)

lemmas channel_reads = read_validation read_requested_parents
lemmas safe_channel_reads [safe_rules] = channel_reads[THEN safe_read]
lemmas channel_read_simps = read_simps channel_reads[THEN read_norm]

lemma safe_upsertDefaultEveryoneOverwrite [safe_rules]: "tx_rel safe (upsertDefaultEveryoneOverwrite cid gid ts n)"
  unfolding upsertDefaultEveryoneOverwrite_def by (intro handler_rules safe_rules)

lemma safe_CreateGuildChannel [safe_rules]: "tx_rel safe (CreateGuildChannel env gid a name ty topic par expected key)"
  unfolding CreateGuildChannel_def Let_def by (intro handler_rules safe_rules)

lemma safe_UpdateGuildChannel [safe_rules]: "tx_rel safe (UpdateGuildChannel env cid a name topic par expected)"
  unfolding UpdateGuildChannel_def move_to_parent_def update_fields_def Let_def by (intro handler_rules safe_rules)

lemma safe_detach_children [safe_rules]: "tx_rel safe (detach_children ts ch)"
  unfolding detach_children_def Let_def by (intro handler_rules safe_rules)

lemma safe_channel_changes [safe_rules]:
  "tx_rel safe (DeleteGuildChannel env cid a expected)" "tx_rel safe (ReorderGuildChannels env gid a items expected)"
  "tx_rel safe (UpsertGuildChannelPermissionOverwrite env cid a ty tid al dn)"
  "tx_rel safe (DeleteGuildChannelPermissionOverwrite env cid a ty tid)"
  unfolding DeleteGuildChannel_def ReorderGuildChannels_def apply_placements_def UpsertGuildChannelPermissionOverwrite_def
    DeleteGuildChannelPermissionOverwrite_def Let_def by (intro handler_rules safe_rules)+

section \<open>The handlers are steps of the specification\<close>

lemma validateChannelParent_ok:
  assumes "keys_ok s" "validateChannelParent gid ty p s = Inr (u, s')"
  shows "parent_ok (absdb s) gid ty p"
proof (cases "p = 0")
  case False
  then obtain parent where g: "store_GetGuildChannel p s = Inr (parent, s)" "ty \<noteq> CHANNEL_CATEGORY"
    "c_GuildID parent = gid" "c_Type parent = CHANNEL_CATEGORY"
    using assms(2) by (auto simp: validateChannelParent_def tx_simps read_simps split: if_splits)
  then show ?thesis using GetGuildChannel_refines(2)[OF assms(1) g(1)] by (simp add: parent_ok_def)
qed (simp add: parent_ok_def)

lemma store_ListGuildChannels_live:
  assumes "keys_ok s" "store_ListGuildChannels gid s = Inr (cs, s')" "c \<in> set cs"
  shows "sp_channels (absdb s) (c_ID c) = Some (chan_info_of c)" "c_GuildID c = gid" "c_DeletedAt c = 0" "c \<in> set (db_channels s)"
  using assms(2,3) channels_of_live[OF assms(1)] by (auto simp: store_ListGuildChannels_def tx_read_Inr)

lemma update_parents_mem: "update_parents us cid = Some p \<Longrightarrow> \<exists>u\<in>set us. pu_ChannelID u = cid \<and> pu_ParentID u = p"
  by (auto simp: update_parents_def dest!: map_of_SomeD)

lemma position_updates_step:
  assumes keys: "keys_ok s" and may: "may (absdb s) gid a MANAGE_CHANNELS" and l: "store_ListGuildChannels gid s = Inr (cs, s)"
    and us: "\<And>u. u \<in> set us \<Longrightarrow> \<exists>c\<in>set cs. c_ID c = pu_ChannelID u \<and>
      (pu_ParentID u = c_ParentID c \<or> parent_ok (absdb s) gid (c_Type c) (pu_ParentID u))"
    and upd: "UpdateGuildChannelPositions gid us ts s = Inr (r, s')"
  shows "spec_step a (absdb s) (absdb s')"
  unfolding UpdateGuildChannelPositions_refines(1)[OF keys upd]
proof (rule spec_step.move_channels[OF may])
  fix cid p assume "update_parents us cid = Some p"
  then obtain u where u: "u \<in> set us" "pu_ChannelID u = cid" "pu_ParentID u = p" by (blast dest: update_parents_mem)
  obtain c where "c \<in> set cs" "c_ID c = cid" "p = c_ParentID c \<or> parent_ok (absdb s) gid (c_Type c) p" using us[OF u(1)] u(2,3) by blast
  then show "\<exists>c. sp_channels (absdb s) cid = Some c \<and> ci_guild c = gid \<and> (p = ci_parent c \<or> parent_ok (absdb s) gid (ci_type c) p)"
    using store_ListGuildChannels_live(1,2)[OF keys l] by (metis chan_info_of_simps)
qed

lemma same_parents_absdb:
  assumes keys: "keys_ok s" and l: "store_ListGuildChannels gid s = Inr (cs, s)"
    and us: "\<And>u. u \<in> set us \<Longrightarrow> \<exists>c\<in>set cs. c_ID c = pu_ChannelID u \<and> pu_ParentID u = c_ParentID c"
    and upd: "UpdateGuildChannelPositions gid us ts s = Inr (r, s')"
  shows "absdb s' = absdb s"
proof -
  have "reparent gid (update_parents us) (sp_channels (absdb s)) cid = sp_channels (absdb s) cid" for cid
  proof (cases "update_parents us cid")
    case (Some p)
    then obtain u c where "u \<in> set us" "c \<in> set cs" "c_ID c = cid" "p = c_ParentID c" using us update_parents_mem by metis
    then show ?thesis using store_ListGuildChannels_live(1)[OF keys l, of c] Some by (simp add: reparent_def del: absdb_sel)
  qed (cases "sp_channels (absdb s) cid"; simp add: reparent_def del: absdb_sel)
  then show ?thesis using UpdateGuildChannelPositions_refines(1)[OF keys upd] by (simp add: fun_eq_iff del: absdb_sel)
qed

lemma create_channel_step:
  assumes keys: "keys_ok s" and inv: "spec_inv (absdb s)" and may: "may (absdb s) gid a MANAGE_CHANNELS"
    and ty: "ty \<in> {1, 2, 3}" and par: "parent_ok (absdb s) gid ty par"
    and c: "store_CreateGuildChannel cid gid name ty pos topic par ts s = Inr (ch, s1)"
    and w: "upsertDefaultEveryoneOverwrite (c_ID ch) (c_GuildID ch) ts n s1 = Inr (x, s2)"
  shows "spec_step a (absdb s) (absdb s2)"
proof -
  note c' = CreateGuildChannel_refines[OF c]
  have k1: "keys_ok s1" using tx_relD[OF keys_channels(1) c] keys by simp
  have none: "sp_channels (absdb s) cid = None"
    using c'(8) channels_of_live[OF keys, of cid] by (auto simp: not_Some_eq[symmetric] simp del: not_Some_eq)
  have "sp_overwrites (absdb s) (cid, OVERWRITE_ROLE, gid) = None"
    using overwrites_invD(1)[OF spec_invD(4)[OF inv], of cid OVERWRITE_ROLE gid] none by (cases "sp_overwrites (absdb s) (cid, OVERWRITE_ROLE, gid)") auto
  then have "absdb s2 = (absdb s)\<lparr>sp_channels := (sp_channels (absdb s))(cid \<mapsto> \<lparr>ci_guild = gid, ci_type = ty, ci_parent = par\<rparr>),
      sp_overwrites := (sp_overwrites (absdb s))((cid, OVERWRITE_ROLE, gid) \<mapsto> \<lparr>oi_guild = gid, oi_allow = 0, oi_deny = 0\<rparr>)\<rparr>"
    using w c'(1-3) UpsertOverwrite_refines(1)[OF k1]
    by (auto simp: upsertDefaultEveryoneOverwrite_def tx_simps read_simps simp del: absdb_sel)
  then show ?thesis using spec_step.create_channel[OF may none ty par] by simp
qed

lemma normalizeChannelType_ok: "normalizeChannelType ty = Inr t \<Longrightarrow> t \<in> {1, 2, 3}"
  by (auto simp: normalizeChannelType_def split: if_splits)

lemma CreateGuildChannel_sim: "tx_rel (sim a) (CreateGuildChannel env gid a name ty topic par expected key)"
proof (rule simI[OF safe_CreateGuildChannel])
  fix s r s' assume run: "CreateGuildChannel env gid a name ty topic par expected key s = Inr (r, s')"
    and keys: "keys_ok s" and inv: "spec_inv (absdb s)"
  define shift where "shift t channels = (if t \<noteq> CHANNEL_CATEGORY \<and> par = 0
      then
        let position = uncategorizedChannelInsertPosition channels;
            updates = map (\<lambda>c. \<lparr>pu_ChannelID = c_ID c, pu_Position = wrap32 (c_Position c + 1), pu_ParentID = c_ParentID c\<rparr>)
                        (filter (\<lambda>c. \<not> c_Position c < position) channels)
        in tx_bind (UpdateGuildChannelPositions gid updates (e_now env)) (\<lambda>shifted.
           tx_then (tx_require (length shifted = length updates) NotFound) (tx_return (position, shifted)))
      else tx_return (nextGuildChannelPosition channels, []))" for t channels
  obtain t au nm create where ty: "normalizeChannelType ty = Inr t"
    and au: "loadMemberAuthority gid a s = Inr (au, s)" "has au PermissionManageChannels"
    and w: "with_claim env a createGuildChannelOperation key (e_digest env (ChannelFingerprint gid nm t topic par)) (e_gen env 0)
        (CreateGuildChannelTTL (e_Idempotency env))
        (\<lambda>rid. tx_bind (store_GetGuildChannel rid) (\<lambda>existing.
           tx_bind (GetGuildChannelLayoutRevision gid) (\<lambda>rv. tx_return (existing, rv)))) create s = Inr (r, s')"
    and create: "\<And>s0. create s0 = Inr (r, s') \<Longrightarrow> \<exists>cs pos sh s1 ch s2 x s3 n s4 k evs u.
        store_ListGuildChannels gid s0 = Inr (cs, s0) \<and> validateChannelParent gid t par s0 = Inr ((), s0) \<and>
        shift t cs s0 = Inr ((pos, sh), s1) \<and>
        store_CreateGuildChannel (e_gen env 0) gid nm t pos topic par (e_now env) s1 = Inr (ch, s2) \<and>
        upsertDefaultEveryoneOverwrite (c_ID ch) (c_GuildID ch) (e_now env) (Overwrites (e_Limits env)) s2 = Inr (x, s3) \<and>
        AdvanceGuildChannelLayoutRevision gid (or_zero expected) s3 = Inr (n, s4) \<and> enqueueEvents env k evs s4 = Inr (u, s')"
    using run unfolding CreateGuildChannel_def Let_def
    by (fastforce simp: tx_then_Inr tx_bind_Inr tx_map_error_Inr tx_require_Inr tx_lift_Inr tx_return_Inr channel_read_simps
        shift_def Let_def split: prod.splits)
  note may = has_perms(5)[OF keys au]
  show "spec_steps a (absdb s) (absdb s')"
  proof (rule with_claim_Inr[OF w])
    fix s0 rid assume "absdb s0 = absdb s" "tx_bind (store_GetGuildChannel rid) (\<lambda>existing.
           tx_bind (GetGuildChannelLayoutRevision gid) (\<lambda>rv. tx_return (existing, rv))) s0 = Inr (r, s')"
    then show ?thesis by (auto simp: tx_simps read_simps)
  next
    fix s0 assume s0: "absdb s0 = absdb s" "keys_ok s0 = keys_ok s" "create s0 = Inr (r, s')"
    then have k0: "keys_ok s0" using keys by simp
    obtain cs pos sh s1 ch s2 x s3 n s4 k evs u where l: "store_ListGuildChannels gid s0 = Inr (cs, s0)"
      and vp: "validateChannelParent gid t par s0 = Inr ((), s0)" and sh: "shift t cs s0 = Inr ((pos, sh), s1)"
      and c: "store_CreateGuildChannel (e_gen env 0) gid nm t pos topic par (e_now env) s1 = Inr (ch, s2)"
      and ow: "upsertDefaultEveryoneOverwrite (c_ID ch) (c_GuildID ch) (e_now env) (Overwrites (e_Limits env)) s2 = Inr (x, s3)"
      and ad: "AdvanceGuildChannelLayoutRevision gid (or_zero expected) s3 = Inr (n, s4)" and e: "enqueueEvents env k evs s4 = Inr (u, s')"
      using create[OF s0(3)] by blast
    have s1: "absdb s1 = absdb s \<and> keys_ok s1"
    proof (cases "t \<noteq> CHANNEL_CATEGORY \<and> par = 0")
      case True
      then obtain us where us: "us = map (\<lambda>c. \<lparr>pu_ChannelID = c_ID c, pu_Position = wrap32 (c_Position c + 1), pu_ParentID = c_ParentID c\<rparr>)
          (filter (\<lambda>c. \<not> c_Position c < uncategorizedChannelInsertPosition cs) cs)"
        and upd: "UpdateGuildChannelPositions gid us (e_now env) s0 = Inr (sh, s1)"
        using sh by (auto simp: shift_def Let_def tx_simps)
      have "absdb s1 = absdb s0" by (rule same_parents_absdb[OF k0 l _ upd]) (auto simp: us)
      then show ?thesis using s0(1) tx_relD[OF keys_channels(3) upd] k0 by simp
    next
      case False
      then have "s1 = s0" using sh by (auto simp: shift_def tx_simps)
      then show ?thesis using s0(1) k0 by simp
    qed
    have "parent_ok (absdb s1) gid t par" using validateChannelParent_ok[OF k0 vp] s0(1) s1 by simp
    then have "spec_step a (absdb s1) (absdb s3)"
      using create_channel_step[OF _ _ _ normalizeChannelType_ok[OF ty] _ c ow] s1 inv may by simp
    moreover have "keys_ok s3" using tx_relD[OF safe_channels(1) c] tx_relD[OF safe_upsertDefaultEveryoneOverwrite ow] s1 by (simp add: safe_def)
    ultimately have "spec_step a (absdb s) (absdb s')"
      using s1 AdvanceLayout_refines(1)[OF _ ad] enqueueEvents_absdb[OF e] by simp
    then show ?thesis by simp
  qed
qed

lemma position_updates_mem:
  "u \<in> set (position_updates parent cs) \<Longrightarrow> \<exists>c\<in>set cs. pu_ChannelID u = c_ID c \<and> pu_ParentID u = parent c"
  by (auto simp: position_updates_def enumerate_eq_zip dest: set_zip_rightD)

lemma channelParentMoveUpdates_mem:
  assumes "channelParentMoveUpdates cs cid p = Inr us" "u \<in> set us"
  shows "\<exists>c\<in>set cs. c_ID c = pu_ChannelID u \<and> (pu_ParentID u = c_ParentID c \<or> c_ID c = cid \<and> pu_ParentID u = p)"
proof -
  obtain m d where m: "List.find (\<lambda>c. c_ID c = cid) (rev cs) = Some m"
    and us: "us = position_updates (\<lambda>c. if c_ID c = c_ID m then p else c_ParentID c)
        (take d (filter (\<lambda>c. c_ID c \<noteq> cid) cs) @ [m] @ drop d (filter (\<lambda>c. c_ID c \<noteq> cid) cs))"
    using assms(1) by (auto simp: channelParentMoveUpdates_def Let_def split: option.splits)
  have mm: "m \<in> set cs" "c_ID m = cid" using find_SomeD[OF m] by auto
  obtain c where c: "c \<in> set (take d (filter (\<lambda>c. c_ID c \<noteq> cid) cs) @ [m] @ drop d (filter (\<lambda>c. c_ID c \<noteq> cid) cs))"
    "pu_ChannelID u = c_ID c" "pu_ParentID u = (if c_ID c = c_ID m then p else c_ParentID c)"
    using position_updates_mem assms(2) unfolding us by blast
  then have "c \<in> set cs" using mm by (auto dest: in_set_takeD in_set_dropD)
  then show ?thesis using c(2,3) mm(2) by (auto split: if_splits)
qed

lemma move_to_parent_step:
  assumes keys: "keys_ok s" and may: "may (absdb s) (c_GuildID ch) a MANAGE_CHANNELS"
    and g: "store_GetGuildChannel cid s = Inr (ch, s)"
    and vp: "\<And>p. par = Some p \<Longrightarrow> validateChannelParent (c_GuildID ch) (c_Type ch) p s = Inr ((), s)"
    and mv: "move_to_parent ts ch par s = Inr ((par', ups, upd, lay), s1)"
  shows "spec_steps a (absdb s) (absdb s1) \<and> keys_ok s1 \<and> (par' = None \<or> s1 = s \<and> par' = Some (c_ParentID ch))"
proof (cases "par = None \<or> par = Some (c_ParentID ch)")
  case True
  then have "s1 = s \<and> (par' = None \<or> par' = Some (c_ParentID ch))" using mv by (auto simp: move_to_parent_def tx_simps)
  then show ?thesis using keys by auto
next
  case False
  then obtain p cs us where p: "par = Some p" and l: "store_ListGuildChannels (c_GuildID ch) s = Inr (cs, s)"
    and us: "channelParentMoveUpdates cs (c_ID ch) p = Inr us" and upd: "UpdateGuildChannelPositions (c_GuildID ch) us ts s = Inr (ups, s1)"
    and par': "par' = None"
    using mv by (auto simp: move_to_parent_def tx_simps read_simps split: option.splits)
  have po: "parent_ok (absdb s) (c_GuildID ch) (c_Type ch) p" by (rule validateChannelParent_ok[OF keys vp[OF p]])
  note ch = GetGuildChannel_refines[OF keys g]
  have same: "c = ch" if "c \<in> set cs" "c_ID c = c_ID ch" for c
    by (rule inj_on_distinct_key[OF keys_okD(4)[OF keys]]) (use that ch(4) store_ListGuildChannels_live(4)[OF keys l] in auto)
  have "spec_step a (absdb s) (absdb s1)"
  proof (rule position_updates_step[OF keys may l _ upd])
    fix u assume "u \<in> set us"
    from channelParentMoveUpdates_mem[OF us this]
    show "\<exists>c\<in>set cs. c_ID c = pu_ChannelID u \<and> (pu_ParentID u = c_ParentID c \<or> parent_ok (absdb s) (c_GuildID ch) (c_Type c) (pu_ParentID u))"
      using po same by metis
  qed
  then show ?thesis using par' tx_relD[OF keys_channels(3) upd] keys by blast
qed

lemma update_fields_absdb:
  assumes keys: "keys_ok s" and par: "\<And>p i. par = Some p \<Longrightarrow> sp_channels (absdb s) cid = Some i \<Longrightarrow> ci_parent i = p"
    and up: "update_fields cid ts nm tp par ups upd s = Inr (r, s')"
  shows "absdb s' = absdb s \<and> keys_ok s'"
proof (cases "nm \<noteq> None \<or> tp \<noteq> None \<or> par \<noteq> None")
  case True
  then obtain c where c: "store_UpdateGuildChannel cid nm tp par ts s = Inr (c, s')" using up by (auto simp: update_fields_def tx_simps split: if_splits)
  obtain i where i: "sp_channels (absdb s) cid = Some i" "absdb s' = (absdb s)\<lparr>sp_channels :=
      (sp_channels (absdb s))(cid \<mapsto> i\<lparr>ci_parent := case par of Some p \<Rightarrow> p | None \<Rightarrow> ci_parent i\<rparr>)\<rparr>"
    using UpdateGuildChannel_refines(1)[OF keys c] by blast
  have "i\<lparr>ci_parent := case par of Some p \<Rightarrow> p | None \<Rightarrow> ci_parent i\<rparr> = i" using par[OF _ i(1)] by (cases par) auto
  then show ?thesis using i tx_relD[OF keys_channels(2) c] keys by (simp add: map_upd_triv del: absdb_sel)
next
  case False
  then show ?thesis using up keys by (simp add: update_fields_def tx_simps)
qed

lemma UpdateGuildChannel_Inr:
  assumes "UpdateGuildChannel env cid a name topic par expected s = Inr (r, s')"
  obtains nm ch au par' ups upd lay s1 ups2 upd2 s2 n s3 k evs u where "store_GetGuildChannel cid s = Inr (ch, s)"
    "loadMemberAuthority (c_GuildID ch) a s = Inr (au, s)" "has au PermissionManageChannels"
    "(case par of None \<Rightarrow> tx_return () | Some p \<Rightarrow> validateChannelParent (c_GuildID ch) (c_Type ch) p) s = Inr ((), s)"
    "move_to_parent (e_now env) ch par s = Inr ((par', ups, upd, lay), s1)"
    "update_fields cid (e_now env) nm topic par' ups upd s1 = Inr ((ups2, upd2), s2)"
    "(if lay then AdvanceGuildChannelLayoutRevision (c_GuildID ch) (or_zero expected) else tx_return 0) s2 = Inr (n, s3)"
    "enqueueEvents env k evs s3 = Inr (u, s')"
proof (cases par)
  case None
  then show ?thesis using assms that unfolding UpdateGuildChannel_def Let_def
    by (auto simp: tx_then_Inr tx_bind_Inr tx_map_error_Inr tx_require_Inr tx_lift_Inr tx_return_Inr channel_read_simps)
next
  case (Some p)
  then show ?thesis using assms that unfolding UpdateGuildChannel_def Let_def
    by (auto simp: tx_then_Inr tx_bind_Inr tx_map_error_Inr tx_require_Inr tx_lift_Inr tx_return_Inr channel_read_simps)
qed

lemma UpdateGuildChannel_sim: "tx_rel (sim a) (UpdateGuildChannel env cid a name topic par expected)"
proof (rule simI[OF safe_UpdateGuildChannel])
  fix s r s' assume run: "UpdateGuildChannel env cid a name topic par expected s = Inr (r, s')" and keys: "keys_ok s"
  obtain nm ch au par' ups upd lay s1 ups2 upd2 s2 n s3 k evs u where g: "store_GetGuildChannel cid s = Inr (ch, s)"
    and au: "loadMemberAuthority (c_GuildID ch) a s = Inr (au, s)" "has au PermissionManageChannels"
    and vp: "(case par of None \<Rightarrow> tx_return () | Some p \<Rightarrow> validateChannelParent (c_GuildID ch) (c_Type ch) p) s = Inr ((), s)"
    and mv: "move_to_parent (e_now env) ch par s = Inr ((par', ups, upd, lay), s1)"
    and up: "update_fields cid (e_now env) nm topic par' ups upd s1 = Inr ((ups2, upd2), s2)"
    and ad: "(if lay then AdvanceGuildChannelLayoutRevision (c_GuildID ch) (or_zero expected) else tx_return 0) s2 = Inr (n, s3)"
    and e: "enqueueEvents env k evs s3 = Inr (u, s')"
    by (rule UpdateGuildChannel_Inr[OF run])
  have st: "spec_steps a (absdb s) (absdb s1) \<and> keys_ok s1 \<and> (par' = None \<or> s1 = s \<and> par' = Some (c_ParentID ch))"
    by (rule move_to_parent_step[OF keys has_perms(5)[OF keys au] g _ mv]) (use vp in auto)
  have f: "absdb s2 = absdb s1 \<and> keys_ok s2"
    by (rule update_fields_absdb[OF _ _ up]) (use st GetGuildChannel_refines(2)[OF keys g] in auto)
  have "absdb s3 = absdb s2" using ad AdvanceLayout_refines(1)[of s2 "c_GuildID ch" "or_zero expected" n s3] f
    by (cases lay) (auto simp: tx_simps)
  then show "spec_steps a (absdb s) (absdb s')" using st f enqueueEvents_absdb[OF e] by simp
qed

lemma detach_children_Inr:
  "detach_children ts ch s = Inr (m, s1) \<Longrightarrow>
     if c_Type ch = CHANNEL_CATEGORY then ClearGuildChannelParent (c_GuildID ch) (c_ID ch) ts s = Inr ((), s1) else s1 = s"
  by (auto simp: detach_children_def tx_simps read_simps)

lemma DeleteGuildChannel_Inr:
  assumes "DeleteGuildChannel env cid a expected s = Inr (r, s')"
  obtains ch au moved s1 u1 s2 del s3 n s4 k evs u where "store_GetGuildChannel cid s = Inr (ch, s)"
    "loadMemberAuthority (c_GuildID ch) a s = Inr (au, s)" "has au PermissionManageChannels"
    "detach_children (e_now env) ch s = Inr (moved, s1)"
    "DeleteGuildChannelPermissionOverwrites (c_ID ch) s1 = Inr (u1, s2)"
    "store_DeleteGuildChannel (c_ID ch) (e_now env) s2 = Inr (del, s3)"
    "AdvanceGuildChannelLayoutRevision (c_GuildID ch) (or_zero expected) s3 = Inr (n, s4)"
    "enqueueEvents env k evs s4 = Inr (u, s')"
  using assms that unfolding DeleteGuildChannel_def Let_def
  by (auto simp: tx_simps channel_read_simps)

lemma DeleteGuildChannel_sim:
  assumes now: "0 < e_now env"
  shows "tx_rel (sim a) (DeleteGuildChannel env cid a expected)"
proof (rule sim_step[OF safe_channel_changes(1)])
  fix s r s' assume run: "DeleteGuildChannel env cid a expected s = Inr (r, s')" and keys: "keys_ok s"
  obtain ch au moved s1 u1 s2 del s3 n s4 k evs u where g: "store_GetGuildChannel cid s = Inr (ch, s)"
    and au: "loadMemberAuthority (c_GuildID ch) a s = Inr (au, s)" "has au PermissionManageChannels"
    and dc: "detach_children (e_now env) ch s = Inr (moved, s1)"
    and d1: "DeleteGuildChannelPermissionOverwrites (c_ID ch) s1 = Inr (u1, s2)"
    and d2: "store_DeleteGuildChannel (c_ID ch) (e_now env) s2 = Inr (del, s3)"
    and ad: "AdvanceGuildChannelLayoutRevision (c_GuildID ch) (or_zero expected) s3 = Inr (n, s4)"
    and e: "enqueueEvents env k evs s4 = Inr (u, s')"
    by (rule DeleteGuildChannel_Inr[OF run])
  note ch = GetGuildChannel_refines[OF keys g]
  have s1: "absdb s1 = (absdb s)\<lparr>sp_channels := if c_Type ch = CHANNEL_CATEGORY then unparent (c_GuildID ch) cid (sp_channels (absdb s))
      else sp_channels (absdb s)\<rparr>" and k1: "keys_ok s1"
    using detach_children_Inr[OF dc] ClearGuildChannelParent_refines[OF keys, of "c_GuildID ch" "c_ID ch" "e_now env" "()" s1]
      tx_relD[OF keys_channels(6), of "c_GuildID ch" "c_ID ch" "e_now env" s "()" s1] keys ch(3)
    by (auto simp del: absdb_sel split: if_splits)
  have k2: "keys_ok s2" using tx_relD[OF keys_overwrites(2) d1] k1 by simp
  have k3: "keys_ok s3" using tx_relD[OF keys_channels(4) d2] k2 by simp
  have "absdb s' = drop_channel (c_GuildID ch) cid (chan_info_of ch) (absdb s)"
    using s1 DeleteOverwrites_refines[OF k1 d1] DeleteGuildChannel_refines(1)[OF k2 now d2] AdvanceLayout_refines(1)[OF k3 ad]
      enqueueEvents_absdb[OF e] ch(3) by (auto simp: drop_channel_def simp del: absdb_sel)
  then show "spec_step a (absdb s) (absdb s')" using spec_step.delete_channel[OF has_perms(5)[OF keys au] ch(2)] by simp
qed

lemma requested_parents_Inr:
  assumes "keys_ok s" "requested_parents gid cs items s = Inr (ps, s')" "ps cid = Some p"
  shows "\<exists>c\<in>set cs. c_ID c = cid \<and> (p = c_ParentID c \<or> parent_ok (absdb s) gid (c_Type c) p)"
  using assms(2,3)
proof (induction items arbitrary: ps)
  case (Cons item items)
  obtain id pos par where item: "item = (id, pos, par)" by (cases item)
  obtain c p' qs where c: "List.find (\<lambda>c. c_ID c = id) cs = Some c"
    and p': "(case par of None \<Rightarrow> tx_return (c_ParentID c)
              | Some p \<Rightarrow> tx_then (validateChannelParent gid (c_Type c) p) (tx_return p)) s = Inr (p', s)"
    and qs: "requested_parents gid cs items s = Inr (qs, s)" and ps: "ps = qs(id \<mapsto> p')"
    using Cons.prems(1) by (cases par) (auto simp: item tx_simps channel_read_simps split: option.splits)
  show ?case
  proof (cases "cid = id")
    case True
    have "p' = c_ParentID c \<or> parent_ok (absdb s) gid (c_Type c) p'"
      using p' validateChannelParent_ok[OF assms(1)] by (auto simp: tx_simps channel_read_simps split: option.splits)
    then show ?thesis using True ps Cons.prems(2) find_SomeD[OF c] by auto
  next
    case False
    then show ?thesis using Cons.IH[of qs] qs ps Cons.prems(2) reads_same[OF read_requested_parents Cons.prems(1)] by auto
  qed
qed (simp add: tx_simps)

subsection \<open>Overwrites\<close>

lemma validateOverwriteAppliesTo_ok:
  assumes keys: "keys_ok s" and au: "loadMemberAuthority gid a s = Inr (au, s)"
    and v: "validateOverwriteAppliesTo au gid ty tid s = Inr (u, s')"
  shows "subject_ok (absdb s) gid a ty tid"
proof (cases "ty = OVERWRITE_ROLE")
  case True
  then obtain role where r: "store_GetGuildRole gid tid s = Inr (role, s)" "r_IsDefault role \<or> canManageRole au role"
    using v by (auto simp: validateOverwriteAppliesTo_def tx_simps read_simps)
  note g = GetGuildRole_refines[OF keys r(1)]
  have "\<exists>i. sp_roles (absdb s) tid = Some i \<and> ri_guild i = gid \<and> (ri_default i \<or> controls (absdb s) gid a i)"
    using g(2,3) r(2) canManageRole_controls[OF keys au, of role] by (intro exI[of _ "role_info_of role"]) auto
  then show ?thesis using True by (simp add: subject_ok_def del: absdb_sel)
next
  case False
  then obtain b where b: "ty = OVERWRITE_MEMBER" "loadMemberAuthority gid tid s = Inr (b, s)" "canManageMember au b"
    using v by (auto simp: validateOverwriteAppliesTo_def tx_simps read_simps split: if_splits)
  then show ?thesis using loadMemberAuthority_refines(7)[OF keys b(2)] canManageMember_outranks[OF keys au b(2,3)]
    by (simp add: subject_ok_def del: absdb_sel)
qed

lemma validateOverwriteRequest_ok:
  assumes "validateOverwriteRequest cid a ty tid al dn = Inr ()"
  shows "al AND dn = 0" "and_not (al OR dn) AllChannelPermissions = 0" "bits al \<subseteq> {..<12}"
proof -
  show c: "al AND dn = 0" "and_not (al OR dn) AllChannelPermissions = 0"
    using assms by (auto simp: validateOverwriteRequest_def split: sum.splits if_splits)
  have "and_not AllChannelPermissions AllGuildPermissions = 0" by (simp add: AllGuild_val and_not_def)
  then have "bits AllChannelPermissions \<subseteq> {..<12}" unfolding and_not_zero_iff bits_AllGuild[symmetric] by blast
  moreover have "bits al \<subseteq> bits AllChannelPermissions" using c(2) unfolding and_not_zero_iff by (auto simp: bit_or_iff)
  ultimately show "bits al \<subseteq> {..<12}" by blast
qed

lemma UpsertGuildChannelPermissionOverwrite_sim: "tx_rel (sim a) (UpsertGuildChannelPermissionOverwrite env cid a ty tid al dn)"
proof (rule sim_step[OF safe_channel_changes(3)])
  fix s x s' assume run: "UpsertGuildChannelPermissionOverwrite env cid a ty tid al dn s = Inr (x, s')" and keys: "keys_ok s" and inv: "spec_inv (absdb s)"
  obtain ch au s1 u evs where v: "validateOverwriteRequest cid a ty tid al dn = Inr ()" and g: "store_GetGuildChannel cid s = Inr (ch, s)"
    and au: "loadMemberAuthority (c_GuildID ch) a s = Inr (au, s)" "has au PermissionManageChannels" "canGrantPermissions au al"
    and sub: "validateOverwriteAppliesTo au (c_GuildID ch) ty tid s = Inr ((), s)"
    and w: "store_UpsertGuildChannelPermissionOverwrite \<lparr>o_ChannelID = c_ID ch, o_GuildID = c_GuildID ch,
             o_AppliesTo = ty, o_AppliesToID = tid, o_Allow = al, o_Deny = dn, o_Revision = 0, o_CreatedAt = e_now env, o_UpdatedAt = 0\<rparr> s = Inr (x, s1)"
    and e: "enqueueEvents env 1 evs s1 = Inr (u, s')"
    using run by (auto simp: UpsertGuildChannelPermissionOverwrite_def Let_def tx_simps channel_read_simps)
  note ch = GetGuildChannel_refines[OF keys g] and v' = validateOverwriteRequest_ok[OF v]
  have og: "oi_guild y = c_GuildID ch" if "sp_overwrites (absdb s) (cid, ty, tid) = Some y" for y
    using overwrites_invD(1)[OF spec_invD(4)[OF inv] that] ch(2) by auto
  have "absdb s' = (absdb s)\<lparr>sp_overwrites := (sp_overwrites (absdb s))((cid, ty, tid) \<mapsto> \<lparr>oi_guild = c_GuildID ch, oi_allow = al, oi_deny = dn\<rparr>)\<rparr>"
    using UpsertOverwrite_refines(1)[OF keys w] ch(3) enqueueEvents_absdb[OF e] og
    by (cases "sp_overwrites (absdb s) (cid, ty, tid)") (simp_all del: absdb_sel)
  then show "spec_step a (absdb s) (absdb s')"
    using spec_step.set_overwrite[OF has_perms(5)[OF keys au(1,2)] ch(2) _ canGrant_refines[OF keys au(1,3) v'(3)] v'(1,2)
        validateOverwriteAppliesTo_ok[OF keys au(1) sub]] by simp
qed

lemma DeleteGuildChannelPermissionOverwrite_sim: "tx_rel (sim a) (DeleteGuildChannelPermissionOverwrite env cid a ty tid)"
proof (rule sim_step[OF safe_channel_changes(4)])
  fix s r s' assume run: "DeleteGuildChannelPermissionOverwrite env cid a ty tid s = Inr (r, s')" and keys: "keys_ok s"
  obtain ch au s1 u evs where g: "store_GetGuildChannel cid s = Inr (ch, s)"
    and au: "loadMemberAuthority (c_GuildID ch) a s = Inr (au, s)" "has au PermissionManageChannels"
    and nd: "\<not> isDefaultEveryoneOverwrite ty tid (c_GuildID ch)"
    and sub: "validateOverwriteAppliesTo au (c_GuildID ch) ty tid s = Inr ((), s)"
    and d: "store_DeleteGuildChannelPermissionOverwrite (c_ID ch) ty tid s = Inr (u, s1)" and e: "enqueueEvents env 1 evs s1 = Inr (r, s')"
    using run by (auto simp: DeleteGuildChannelPermissionOverwrite_def tx_simps channel_read_simps)
  note ch = GetGuildChannel_refines[OF keys g]
  show "spec_step a (absdb s) (absdb s')"
    using spec_step.delete_overwrite[OF has_perms(5)[OF keys au] ch(2) _ _ validateOverwriteAppliesTo_ok[OF keys au(1) sub]] nd ch(3)
      DeleteOverwrite_refines[OF keys d] enqueueEvents_absdb[OF e] by (simp add: isDefaultEveryoneOverwrite_def del: absdb_sel)
qed

end
