(* ===== verification/Guild_Layout.thy ===== *)
theory Guild_Layout
  imports Guild_Channels
begin

text \<open>
  The layout of a guild's channels: \<^verbatim>\<open>normalizeGuildChannelPlacements\<close> places every channel exactly once,
  never runs past its slots and keeps uncategorized channels first; after \<^verbatim>\<open>ReorderGuildChannels\<close> the
  channels are listed in that order at positions 0, 1, 2 and so on.
\<close>

text \<open>A placement of all channels: each of them once, the uncategorized ones first.\<close>

definition open_slots :: "Channel option list \<Rightarrow> nat" where
  "open_slots ordered = length (filter (\<lambda>x. x = None) ordered)"

definition in_slots :: "Channel option list \<Rightarrow> Channel multiset" where
  "in_slots ordered = mset (map the (filter (\<lambda>x. x \<noteq> None) ordered))"

lemma fill_slot:
  assumes "i < length ordered" "ordered ! i = None"
  shows "open_slots ordered = Suc (open_slots (ordered[i := Some c]))" "in_slots (ordered[i := Some c]) = add_mset c (in_slots ordered)"
proof -
  have o: "ordered = take i ordered @ None # drop (Suc i) ordered" using id_take_nth_drop[OF assms(1)] assms(2) by simp
  have u: "ordered[i := Some c] = take i ordered @ Some c # drop (Suc i) ordered" using assms by (simp add: upd_conv_take_nth_drop)
  show "open_slots ordered = Suc (open_slots (ordered[i := Some c]))" unfolding open_slots_def u by (subst o) simp
  show "in_slots (ordered[i := Some c]) = add_mset c (in_slots ordered)" unfolding in_slots_def u by (subst (3) o) simp
qed

lemma wrap32_le: "0 \<le> x \<Longrightarrow> wrap32 x \<le> x"
  using zmod_le_nonneg_dividend[of "x + 2 ^ 31" "2 ^ 32"] by (simp add: wrap32_def)

lemma place_requested_Inr:
  assumes "place_requested channels ordered positions = Inr ordered'" "\<And>e. e \<in> set positions \<Longrightarrow> 0 \<le> snd e"
  shows "length ordered' = length ordered \<and> open_slots ordered = open_slots ordered' + length positions
    \<and> (\<exists>cs. map c_ID cs = map fst positions \<and> set cs \<subseteq> set channels \<and> in_slots ordered' = in_slots ordered + mset cs)"
  using assms
proof (induction channels ordered positions rule: place_requested.induct)
  case (2 channels ordered cid pos positions)
  obtain c where pos: "pos < int (length ordered)" "0 \<le> pos" and c: "List.find (\<lambda>c. c_ID c = cid) channels = Some c"
    and free: "ordered ! nat pos = None"
    and rest: "place_requested channels (ordered[nat pos := Some c]) positions = Inr ordered'"
    using 2(2) 2(3)[of "(cid, pos)"] wrap32_le[of "int (length ordered)"] by (auto split: if_splits option.splits)
  have i: "nat pos < length ordered" using pos by simp
  note f = fill_slot[OF i free, of c]
  have ih: "length ordered' = length (ordered[nat pos := Some c]) \<and> open_slots (ordered[nat pos := Some c]) = open_slots ordered' + length positions
    \<and> (\<exists>cs. map c_ID cs = map fst positions \<and> set cs \<subseteq> set channels \<and> in_slots ordered' = in_slots (ordered[nat pos := Some c]) + mset cs)"
    by (rule "2.IH"[OF _ c _ rest]) (use 2(2,3) pos free in \<open>auto split: if_splits\<close>)
  then obtain cs where "map c_ID cs = map fst positions" "set cs \<subseteq> set channels" "in_slots ordered' = in_slots (ordered[nat pos := Some c]) + mset cs" by blast
  moreover have "c \<in> set channels" "c_ID c = cid" using find_SomeD[OF c] by auto
  ultimately show ?case using ih f by (auto intro!: exI[of _ "c # cs"])
qed auto

lemma next_free_Some:
  "next_free ordered n = Some i \<Longrightarrow> n \<le> i \<and> i < length ordered \<and> ordered ! i = None \<and> (\<forall>j. n \<le> j \<and> j < i \<longrightarrow> ordered ! j \<noteq> None)"
proof (induction ordered n rule: next_free.induct)
  case (1 ordered n)
  show ?case
  proof (cases "ordered ! n = None")
    case True
    then show ?thesis using 1(2) by (subst (asm) next_free.simps) (auto split: if_splits)
  next
    case False
    then have "n < length ordered" "next_free ordered (Suc n) = Some i" using 1(2) by (subst (asm) next_free.simps, auto split: if_splits)+
    then have "Suc n \<le> i \<and> i < length ordered \<and> ordered ! i = None \<and> (\<forall>j. Suc n \<le> j \<and> j < i \<longrightarrow> ordered ! j \<noteq> None)"
      using 1(1) False by simp
    then show ?thesis using False by (metis Suc_leD le_antisym not_less_eq_eq)
  qed
qed

lemma next_free_None: "next_free ordered n = None \<Longrightarrow> \<forall>j. n \<le> j \<and> j < length ordered \<longrightarrow> ordered ! j \<noteq> None"
proof (induction ordered n rule: next_free.induct)
  case (1 ordered n)
  show ?case
  proof (cases "length ordered \<le> n")
    case False
    then have "ordered ! n \<noteq> None" "next_free ordered (Suc n) = None" using 1(2) by (subst (asm) next_free.simps, auto split: if_splits)+
    then show ?thesis using 1(1) False by (metis Suc_leI le_neq_implies_less not_le_imp_less)
  qed auto
qed

text \<open>As many channels are left as slots are open, so the search for the next free slot never runs past the end.\<close>

lemma fill_rest_complete:
  assumes "length rest = open_slots ordered" "\<forall>j < n. j < length ordered \<longrightarrow> ordered ! j \<noteq> None"
  shows "\<exists>slots. fill_rest ordered n rest = Some slots \<and> length slots = length ordered \<and> open_slots slots = 0
    \<and> in_slots slots = in_slots ordered + mset rest"
  using assms
proof (induction rest arbitrary: ordered n)
  case (Cons c rest)
  have "filter (\<lambda>x. x = None) ordered \<noteq> []" using Cons.prems(1) by (auto simp: open_slots_def)
  then have "\<exists>x\<in>set ordered. x = None" by (auto simp: filter_empty_conv)
  then obtain j where "j < length ordered" "ordered ! j = None" by (auto simp: in_set_conv_nth)
  then obtain i where i: "next_free ordered n = Some i" using next_free_None[of ordered n] Cons.prems(2) by (metis not_None_eq not_le_imp_less)
  note nf = next_free_Some[OF i]
  have nn: "\<forall>j < i. j < length (ordered[i := Some c]) \<longrightarrow> ordered[i := Some c] ! j \<noteq> None"
    using nf Cons.prems(2) by (auto simp: nth_list_update) (metis not_le_imp_less option.distinct(1))+
  note f = fill_slot[of i ordered c]
  have "length rest = open_slots (ordered[i := Some c])" using f nf Cons.prems(1) by simp
  from Cons.IH[OF this nn] show ?case using i f nf by auto
qed (auto simp: open_slots_def)

lemma requested_rest:
  assumes d: "distinct (map c_ID cs)" and dp: "distinct (map fst positions)" and rq: "map c_ID rq = map fst positions" "set rq \<subseteq> set cs"
  shows "mset rq + mset (filter (\<lambda>c. c_ID c \<notin> fst ` set positions) cs) = mset cs"
proof -
  have ids: "fst ` set positions = c_ID ` set rq" using arg_cong[OF rq(1), of set] by simp
  have "c \<in> set rq" if "c \<in> set cs" "c_ID c \<in> c_ID ` set rq" for c
    using that rq(2) inj_on_distinct_key[OF d] by (metis image_iff subsetD)
  then have "set rq = set (filter (\<lambda>c. c_ID c \<in> fst ` set positions) cs)" using rq(2) by (auto simp: ids)
  moreover have "distinct rq" using dp rq(1) by (metis distinct_map)
  moreover have "distinct (filter (\<lambda>c. c_ID c \<in> fst ` set positions) cs)" using d by (simp add: distinct_map)
  ultimately have "mset rq = mset (filter (\<lambda>c. c_ID c \<in> fst ` set positions) cs)" by (metis set_eq_iff_mset_eq_distinct)
  then show ?thesis by (simp add: multiset_partition[symmetric])
qed

lemma placed_channels_slots:
  assumes d: "distinct (map c_ID cs)" and dp: "distinct (map fst positions)" and nn: "\<And>e. e \<in> set positions \<Longrightarrow> 0 \<le> snd e"
    and r: "place_requested cs (replicate (length cs) None) positions = Inr ordered"
  shows "\<exists>slots. fill_rest ordered 0 (filter (\<lambda>c. c_ID c \<notin> fst ` set positions) cs) = Some slots \<and> mset (map the slots) = mset cs"
proof -
  have o: "open_slots (replicate (length cs) None) = length cs" "in_slots (replicate (length cs) None) = {#}"
    by (simp_all add: open_slots_def in_slots_def)
  obtain rq where p: "length ordered = length cs" "length cs = open_slots ordered + length positions"
    and rq: "map c_ID rq = map fst positions" "set rq \<subseteq> set cs" and in_o: "in_slots ordered = mset rq"
  proof -
    have "length ordered = length (replicate (length cs) (None :: Channel option)) \<and> open_slots (replicate (length cs) None) = open_slots ordered + length positions
      \<and> (\<exists>rq. map c_ID rq = map fst positions \<and> set rq \<subseteq> set cs \<and> in_slots ordered = in_slots (replicate (length cs) None) + mset rq)"
      by (rule place_requested_Inr[OF r nn])
    then show ?thesis using that unfolding o by (elim conjE exE) simp
  qed
  note part = requested_rest[OF d dp rq]
  have "length (filter (\<lambda>c. c_ID c \<notin> fst ` set positions) cs) = open_slots ordered"
    using arg_cong[OF part, of size] arg_cong[OF rq(1), of length] p(2) by (simp add: mset_filter[symmetric] del: mset_filter)
  from fill_rest_complete[OF this, of 0] obtain slots where
    s: "fill_rest ordered 0 (filter (\<lambda>c. c_ID c \<notin> fst ` set positions) cs) = Some slots" "open_slots slots = 0"
      "in_slots slots = mset rq + mset (filter (\<lambda>c. c_ID c \<notin> fst ` set positions) cs)" unfolding in_o by blast
  have "filter (\<lambda>x. x \<noteq> None) slots = slots" using s(2) by (simp add: open_slots_def filter_empty_conv filter_id_conv)
  then have "mset (map the slots) = mset cs" using s(3) unfolding part in_slots_def by simp
  then show ?thesis using s(1) by blast
qed

lemma placed_channels_Inr:
  assumes "placed_channels cs positions parents = Inr ordered" "distinct (map c_ID cs)" "distinct (map fst positions)"
    "\<And>e. e \<in> set positions \<Longrightarrow> 0 \<le> snd e"
  shows "mset ordered = mset cs"
    "\<exists>us os. ordered = us @ os \<and> (\<forall>c\<in>set us. isUncategorizedChannel (c_Type c) (resolvedChannelParentID c parents))
       \<and> (\<forall>c\<in>set os. \<not> isUncategorizedChannel (c_Type c) (resolvedChannelParentID c parents))"
proof -
  obtain o1 where o1: "place_requested cs (replicate (length cs) None) positions = Inr o1"
    using assms(1) by (auto simp: placed_channels_def split: sum.splits)
  let ?U = "\<lambda>c. isUncategorizedChannel (c_Type c) (resolvedChannelParentID c parents)"
  obtain slots where s: "mset (map the slots) = mset cs" "ordered = filter ?U (map the slots) @ filter (\<lambda>c. \<not> ?U c) (map the slots)"
    using placed_channels_slots[OF assms(2-4) o1] assms(1) o1 by (auto simp: placed_channels_def Let_def)
  show "mset ordered = mset cs" unfolding s(2) mset_append mset_filter s(1)[symmetric] by (rule multiset_partition[symmetric])
  show "\<exists>us os. ordered = us @ os \<and> (\<forall>c\<in>set us. ?U c) \<and> (\<forall>c\<in>set os. \<not> ?U c)"
    by (rule exI[of _ "filter ?U (map the slots)"], rule exI[of _ "filter (\<lambda>c. \<not> ?U c) (map the slots)"]) (simp add: s(2))
qed

text \<open>Applying a placement: the guild's channels are then listed in its order, at positions 0, 1, 2 and so on.\<close>

lemma position_updates_lookup:
  assumes d: "distinct (map c_ID ordered)" and i: "i < length ordered"
  shows "map_of (map (\<lambda>u. (pu_ChannelID u, u)) (position_updates par ordered)) (c_ID (ordered ! i)) =
    (if c_Position (ordered ! i) = wrap32 (int i) \<and> c_ParentID (ordered ! i) = par (ordered ! i) then None
     else Some \<lparr>pu_ChannelID = c_ID (ordered ! i), pu_Position = wrap32 (int i), pu_ParentID = par (ordered ! i)\<rparr>)"
proof -
  let ?us = "position_updates par ordered" and ?c = "ordered ! i"
  have mem: "u \<in> set ?us \<longleftrightarrow> (\<exists>j<length ordered. u = \<lparr>pu_ChannelID = c_ID (ordered ! j), pu_Position = wrap32 (int j), pu_ParentID = par (ordered ! j)\<rparr>
      \<and> \<not> (c_Position (ordered ! j) = wrap32 (int j) \<and> c_ParentID (ordered ! j) = par (ordered ! j)))" for u
  proof -
    have "u \<in> set ?us \<longleftrightarrow> (\<exists>x\<in>set (enumerate 0 ordered). u = \<lparr>pu_ChannelID = c_ID (snd x), pu_Position = wrap32 (int (fst x)), pu_ParentID = par (snd x)\<rparr>
        \<and> \<not> (c_Position (snd x) = wrap32 (int (fst x)) \<and> c_ParentID (snd x) = par (snd x)))"
      by (simp only: position_updates_def set_map set_filter case_prod_unfold) blast
    then show ?thesis by (simp add: Bex_def in_set_enumerate_eq split_paired_Ex)
  qed
  have inj: "j = i" if "j < length ordered" "c_ID (ordered ! j) = c_ID ?c" for j
    using nth_eq_iff_index_eq[OF d, of j i] that i by simp
  have ids: "map pu_ChannelID ?us = map (c_ID \<circ> snd) (filter (\<lambda>(i, c). \<not> (c_Position c = wrap32 (int i) \<and> c_ParentID c = par c)) (enumerate 0 ordered))"
    by (simp add: position_updates_def case_prod_beta comp_def)
  have "map (c_ID \<circ> snd) (enumerate 0 ordered) = map c_ID ordered" by (metis map_map map_snd_enumerate)
  then have "distinct (map pu_ChannelID ?us)" unfolding ids using d distinct_map_filter[of "c_ID \<circ> snd" "enumerate 0 ordered"] by simp
  then have dist: "distinct (map fst (map (\<lambda>u. (pu_ChannelID u, u)) ?us))" by (simp add: comp_def)
  show ?thesis
  proof (cases "c_Position ?c = wrap32 (int i) \<and> c_ParentID ?c = par ?c")
    case True
    have "pu_ChannelID u \<noteq> c_ID ?c" if u: "u \<in> set ?us" for u
    proof
      assume id: "pu_ChannelID u = c_ID ?c"
      obtain j where j: "j < length ordered"
        "u = \<lparr>pu_ChannelID = c_ID (ordered ! j), pu_Position = wrap32 (int j), pu_ParentID = par (ordered ! j)\<rparr>"
        "\<not> (c_Position (ordered ! j) = wrap32 (int j) \<and> c_ParentID (ordered ! j) = par (ordered ! j))"
        using u unfolding mem by blast
      then have "j = i" using inj id by simp
      then show False using j(3) True by simp
    qed
    then have "c_ID ?c \<notin> pu_ChannelID ` set ?us" by (metis imageE)
    then have "c_ID ?c \<notin> fst ` set (map (\<lambda>u. (pu_ChannelID u, u)) ?us)" by (simp add: image_image)
    then show ?thesis using True by (simp only: map_of_eq_None_iff if_True simp_thms)
  next
    case False
    then have "\<lparr>pu_ChannelID = c_ID ?c, pu_Position = wrap32 (int i), pu_ParentID = par ?c\<rparr> \<in> set ?us" using i mem by blast
    then have "(c_ID ?c, \<lparr>pu_ChannelID = c_ID ?c, pu_Position = wrap32 (int i), pu_ParentID = par ?c\<rparr>)
        \<in> set (map (\<lambda>u. (pu_ChannelID u, u)) ?us)" unfolding set_map by (rule rev_image_eqI) simp
    then show ?thesis using False map_of_is_SomeI[OF dist] by (simp only: if_False)
  qed
qed

lemma applied_layout:
  assumes keys: "keys_ok s" and l: "store_ListGuildChannels gid s = Inr (cs, s)" and m: "mset ordered = mset cs"
    and len: "int (length cs) < 2 ^ 31" and upd: "UpdateGuildChannelPositions gid (position_updates par ordered) ts s = Inr (r, s')"
  obtains cs' where "store_ListGuildChannels gid s' = Inr (cs', s')" "map c_ID cs' = map c_ID ordered"
    "map c_Position cs' = map int [0..<length ordered]" "map c_ParentID cs' = map par ordered" "map c_Type cs' = map c_Type ordered"
proof -
  define req where "req = map_of (map (\<lambda>u. (pu_ChannelID u, u)) (position_updates par ordered))"
  define p where "p = (\<lambda>c :: Channel. c_GuildID c = gid \<and> req (c_ID c) \<noteq> None \<and> c_DeletedAt c = 0)"
  define f where "f = (\<lambda>c :: Channel. c\<lparr>c_Position := pu_Position (the (req (c_ID c))), c_ParentID := pu_ParentID (the (req (c_ID c))),
                    c_Revision := c_Revision c + 1, c_UpdatedAt := ts\<rparr>)"
  define h where "h = (\<lambda>c :: Channel. if p c then f c else c)"
  let ?L = "filter (\<lambda>c. c_GuildID c = gid \<and> c_DeletedAt c = 0) (db_channels s)"
  have cs: "cs = sort_key (\<lambda>c. (c_Position c, c_ID c)) ?L" using l by (simp add: store_ListGuildChannels_def tx_read_Inr)
  have mL: "mset ordered = mset ?L" using m cs by simp
  have len': "length ordered = length cs" using m by (metis size_mset)
  have "distinct (map c_ID ?L)" using keys_okD(4)[OF keys] by (rule distinct_map_filter)
  then have d: "distinct (map c_ID ordered)" using mset_eq_imp_distinct_iff[OF arg_cong[OF mL, of "image_mset c_ID", folded mset_map]] by simp
  have live: "c_GuildID c = gid \<and> c_DeletedAt c = 0" if "c \<in> set ordered" for c using that mset_eq_setD[OF mL] by auto
  have s': "db_channels s' = map h (db_channels s)"
    using UpdateGuildChannelPositions_state(1)[OF upd, folded req_def, folded p_def f_def] by (simp add: tbl_update_def h_def)
  have hk: "c_GuildID (h c) = c_GuildID c" "c_DeletedAt (h c) = c_DeletedAt c" "c_ID (h c) = c_ID c" "c_Type (h c) = c_Type c" for c
    by (simp_all add: h_def f_def)
  have hi: "c_Position (h (ordered ! i)) = int i \<and> c_ParentID (h (ordered ! i)) = par (ordered ! i)" if "i < length ordered" for i
  proof -
    let ?c = "ordered ! i"
    have w: "wrap32 (int i) = int i" using that len len' by simp
    have r: "req (c_ID ?c) = (if c_Position ?c = int i \<and> c_ParentID ?c = par ?c then None
        else Some \<lparr>pu_ChannelID = c_ID ?c, pu_Position = int i, pu_ParentID = par ?c\<rparr>)"
      using position_updates_lookup[OF d that, of par] unfolding req_def[symmetric] w .
    show ?thesis
    proof (cases "c_Position ?c = int i \<and> c_ParentID ?c = par ?c")
      case True
      then show ?thesis using r by (simp add: h_def p_def)
    next
      case False
      then have "req (c_ID ?c) = Some \<lparr>pu_ChannelID = c_ID ?c, pu_Position = int i, pu_ParentID = par ?c\<rparr>" using r by (simp only: if_False)
      then show ?thesis using live[OF nth_mem[OF that]] by (simp add: h_def p_def f_def)
    qed
  qed
  have pos: "map c_Position (map h ordered) = map int [0..<length ordered]" by (rule nth_equalityI) (use hi in auto)
  have srt: "sorted_wrt (\<lambda>x y. (c_Position x, c_ID x) < (c_Position y, c_ID y)) (map h ordered)"
    unfolding sorted_wrt_iff_nth_less using hi by auto
  have L': "filter (\<lambda>c. c_GuildID c = gid \<and> c_DeletedAt c = 0) (db_channels s') = map h ?L"
    unfolding s' filter_map by (simp add: comp_def hk)
  have "sort_key (\<lambda>c. (c_Position c, c_ID c)) (map h ?L) = map h ordered"
  proof (rule sort_key_inj_key_eq)
    show "mset (map h ?L) = mset (map h ordered)" using mL by simp
    show "inj_on (\<lambda>c. (c_Position c, c_ID c)) (set (map h ?L))"
    proof (rule inj_onI)
      fix x y assume "x \<in> set (map h ?L)" "y \<in> set (map h ?L)" "(c_Position x, c_ID x) = (c_Position y, c_ID y)"
      then obtain x' y' where xy: "x' \<in> set ?L" "y' \<in> set ?L" "x = h x'" "y = h y'" "c_ID x' = c_ID y'" using hk(3) by fastforce
      then have "x' = y'" using inj_on_distinct_key[OF \<open>distinct (map c_ID ?L)\<close>] by blast
      then show "x = y" using xy by simp
    qed
    show "sorted (map (\<lambda>c. (c_Position c, c_ID c)) (map h ordered))"
      using srt by (simp add: sorted_wrt_map sorted_map) (rule sorted_wrt_mono_rel, auto)
  qed
  then have "store_ListGuildChannels gid s' = Inr (map h ordered, s')" by (simp add: store_ListGuildChannels_def tx_read_def L')
  then show thesis
  proof (rule that)
    show "map c_ID (map h ordered) = map c_ID ordered" "map c_Type (map h ordered) = map c_Type ordered" by (simp_all add: hk)
    show "map c_Position (map h ordered) = map int [0..<length ordered]" by (rule pos)
    show "map c_ParentID (map h ordered) = map par ordered" by (rule nth_equalityI) (use hi in auto)
  qed
qed

section \<open>Reordering\<close>

lemma channel_positions_Inr:
  "channel_positions acc items = Inr ps \<Longrightarrow> distinct (map fst acc) \<Longrightarrow> (\<And>e. e \<in> set acc \<Longrightarrow> 0 \<le> snd e) \<Longrightarrow>
     distinct (map fst ps) \<and> (\<forall>e\<in>set ps. 0 \<le> snd e)"
proof (induction acc items arbitrary: ps rule: channel_positions.induct)
  case (2 acc cid pos par items)
  have r: "0 \<le> pos" "cid \<notin> fst ` set acc" "channel_positions (acc @ [(cid, pos)]) items = Inr ps" using 2(2) by (auto split: if_splits)
  show ?case by (rule "2.IH"[OF _ _ r(3)]) (use 2(2-4) r in \<open>auto split: if_splits\<close>)
qed auto

lemma iter_positions:
  assumes "mset (e_iter env ps) = mset ps" "distinct (map fst ps) \<and> (\<forall>e\<in>set ps. 0 \<le> snd e)"
  shows "distinct (map fst (e_iter env ps))" "\<And>e. e \<in> set (e_iter env ps) \<Longrightarrow> 0 \<le> snd e"
  using assms mset_eq_imp_distinct_iff[OF arg_cong[OF assms(1), of "image_mset fst", folded mset_map]] mset_eq_setD[OF assms(1)] by auto

lemma store_ListGuildChannels_distinct:
  "keys_ok s \<Longrightarrow> store_ListGuildChannels gid s = Inr (cs, s') \<Longrightarrow> distinct (map c_ID cs)"
  using keys_okD(4)[of s] by (auto simp: store_ListGuildChannels_def tx_read_Inr distinct_map intro: inj_on_subset)

lemma normalize_Inr:
  "normalizeGuildChannelPlacements cs ps parents = Inr us \<longleftrightarrow>
     (\<exists>ordered. placed_channels cs ps parents = Inr ordered \<and> us = position_updates (\<lambda>c. resolvedChannelParentID c parents) ordered)"
  by (auto simp: normalizeGuildChannelPlacements_def split: sum.splits)

lemma ReorderGuildChannels_Inr:
  assumes "ReorderGuildChannels env gid a items expected s = Inr ((chs, n), s')"
  obtains (same) ps au cs parents ordered where "channel_positions [] items = Inr ps"
    "loadMemberAuthority gid a s = Inr (au, s)" "has au PermissionManageChannels" "store_ListGuildChannels gid s = Inr (cs, s)"
    "requested_parents gid cs items s = Inr (parents, s)" "placed_channels cs (e_iter env ps) parents = Inr ordered"
    "position_updates (\<lambda>c. resolvedChannelParentID c parents) ordered = []" "s' = s" "chs = cs" "n = or_zero expected"
  | (moved) ps au cs parents ordered ups s1 s2 k evs u where "channel_positions [] items = Inr ps"
    "loadMemberAuthority gid a s = Inr (au, s)" "has au PermissionManageChannels" "store_ListGuildChannels gid s = Inr (cs, s)"
    "requested_parents gid cs items s = Inr (parents, s)" "placed_channels cs (e_iter env ps) parents = Inr ordered"
    "UpdateGuildChannelPositions gid (position_updates (\<lambda>c. resolvedChannelParentID c parents) ordered) (e_now env) s = Inr (ups, s1)"
    "AdvanceGuildChannelLayoutRevision gid (or_zero expected) s1 = Inr (n, s2)" "store_ListGuildChannels gid s2 = Inr (chs, s2)"
    "enqueueEvents env k evs s2 = Inr (u, s')"
proof -
  obtain ps au cs parents ordered where r: "channel_positions [] items = Inr ps"
    "loadMemberAuthority gid a s = Inr (au, s)" "has au PermissionManageChannels" "store_ListGuildChannels gid s = Inr (cs, s)"
    "requested_parents gid cs items s = Inr (parents, s)" "placed_channels cs (e_iter env ps) parents = Inr ordered"
    and rest: "apply_placements env gid (or_zero expected) cs (position_updates (\<lambda>c. resolvedChannelParentID c parents) ordered) s = Inr ((chs, n), s')"
    using assms unfolding ReorderGuildChannels_def
    by (auto simp: tx_then_Inr tx_bind_Inr tx_map_error_Inr tx_require_Inr tx_lift_Inr channel_read_simps normalize_Inr)
  show thesis
  proof (cases "position_updates (\<lambda>c. resolvedChannelParentID c parents) ordered = []")
    case True
    then show thesis using same[OF r True] rest by (simp add: apply_placements_def tx_return_Inr)
  next
    case False
    then show thesis using moved[OF r] rest by (auto simp: apply_placements_def tx_simps read_simps)
  qed
qed

lemma resolved_parent_ok:
  assumes keys: "keys_ok s" and l: "store_ListGuildChannels gid s = Inr (cs, s)" and p: "requested_parents gid cs items s = Inr (parents, s)"
    and c: "c \<in> set cs"
  shows "resolvedChannelParentID c parents = c_ParentID c \<or> parent_ok (absdb s) gid (c_Type c) (resolvedChannelParentID c parents)"
proof (cases "parents (c_ID c)")
  case (Some q)
  obtain d where d: "d \<in> set cs" "c_ID d = c_ID c" "q = c_ParentID d \<or> parent_ok (absdb s) gid (c_Type d) q"
    using requested_parents_Inr[OF keys p Some] by blast
  then have "d = c" using inj_on_distinct_key[OF store_ListGuildChannels_distinct[OF keys l]] c by blast
  then show ?thesis using d Some by (simp add: resolvedChannelParentID_def)
qed (simp add: resolvedChannelParentID_def)

lemma placed_of_request:
  assumes iter: "mset (e_iter env ps) = mset ps" and keys: "keys_ok s" and ps: "channel_positions [] items = Inr ps"
    and l: "store_ListGuildChannels gid s = Inr (cs, s)" and pl: "placed_channels cs (e_iter env ps) parents = Inr ordered"
  shows "mset ordered = mset cs"
    "\<exists>us os. ordered = us @ os \<and> (\<forall>c\<in>set us. isUncategorizedChannel (c_Type c) (resolvedChannelParentID c parents))
       \<and> (\<forall>c\<in>set os. \<not> isUncategorizedChannel (c_Type c) (resolvedChannelParentID c parents))"
proof -
  have p: "distinct (map fst ps) \<and> (\<forall>e\<in>set ps. 0 \<le> snd e)" using channel_positions_Inr[OF ps] by simp
  note pc = placed_channels_Inr[OF pl store_ListGuildChannels_distinct[OF keys l] iter_positions(1)[OF iter p] iter_positions(2)[OF iter p]]
  show "mset ordered = mset cs" by (rule pc(1))
  show "\<exists>us os. ordered = us @ os \<and> (\<forall>c\<in>set us. isUncategorizedChannel (c_Type c) (resolvedChannelParentID c parents))
       \<and> (\<forall>c\<in>set os. \<not> isUncategorizedChannel (c_Type c) (resolvedChannelParentID c parents))" by (rule pc(2))
qed

lemma ReorderGuildChannels_sim:
  assumes iter: "\<And>xs. mset (e_iter env xs) = mset xs"
  shows "tx_rel (sim a) (ReorderGuildChannels env gid a items expected)"
proof (rule simI[OF safe_channel_changes(2)])
  fix s r s' assume run: "ReorderGuildChannels env gid a items expected s = Inr (r, s')" and keys: "keys_ok s"
  obtain chs n where r: "r = (chs, n)" by (cases r)
  show "spec_steps a (absdb s) (absdb s')"
  proof (rule ReorderGuildChannels_Inr[OF run[unfolded r]], goal_cases)
    case (1 ps au cs parents ordered)
    then show ?thesis by simp
  next
    case (2 ps au cs parents ordered ups s1 s2 k evs u)
    have "spec_step a (absdb s) (absdb s1)"
    proof (rule position_updates_step[OF keys has_perms(5)[OF keys 2(2,3)] 2(4) _ 2(7)])
      fix x assume "x \<in> set (position_updates (\<lambda>c. resolvedChannelParentID c parents) ordered)"
      then obtain c where c: "c \<in> set ordered" "pu_ChannelID x = c_ID c" "pu_ParentID x = resolvedChannelParentID c parents"
        by (blast dest: position_updates_mem)
      have "c \<in> set cs" using c(1) mset_eq_setD[OF placed_of_request(1)[OF iter keys 2(1,4,6)]] by simp
      then show "\<exists>c\<in>set cs. c_ID c = pu_ChannelID x \<and> (pu_ParentID x = c_ParentID c \<or> parent_ok (absdb s) gid (c_Type c) (pu_ParentID x))"
        using resolved_parent_ok[OF keys 2(4,5)] c(2,3) by metis
    qed
    moreover have "keys_ok s1" using tx_relD[OF keys_channels(3) 2(7)] keys by simp
    ultimately show ?thesis using AdvanceLayout_refines(1)[OF _ 2(8)] enqueueEvents_absdb[OF 2(10)] by simp
  qed
qed

text \<open>After a reordering the layout is dense and uncategorized channels come first.\<close>

definition dense_layout :: "Channel list \<Rightarrow> bool" where
  "dense_layout cs \<longleftrightarrow> map c_Position cs = map int [0..<length cs] \<and>
     (\<exists>k\<le>length cs. \<forall>i<length cs. isUncategorizedChannel (c_Type (cs ! i)) (c_ParentID (cs ! i)) \<longleftrightarrow> i < k)"

lemma store_ListGuildChannels_guild: "db_channels s' = db_channels s \<Longrightarrow> store_ListGuildChannels gid s' = Inr (cs, s') \<longleftrightarrow> store_ListGuildChannels gid s = Inr (cs, s)"
  by (simp add: store_ListGuildChannels_def tx_read_def)

lemma AdvanceLayout_channels: "AdvanceGuildChannelLayoutRevision gid n s = Inr (m, s') \<Longrightarrow> db_channels s' = db_channels s"
  by (auto simp: AdvanceGuildChannelLayoutRevision_def update_guild_def tx_simps split: option.splits sum.splits prod.splits)

lemma ReorderGuildChannels_dense:
  assumes iter: "\<And>xs. mset (e_iter env xs) = mset xs" and keys: "keys_ok s" and small: "int (length (db_channels s)) < 2 ^ 31"
    and run: "ReorderGuildChannels env gid a items expected s = Inr ((chs, n), s')"
  shows "dense_layout chs \<and> store_ListGuildChannels gid s' = Inr (chs, s')"
proof -
  have dense: "dense_layout ds" if "mset ordered = mset cs" "store_ListGuildChannels gid s = Inr (cs, s)"
    "\<exists>us os. ordered = us @ os \<and> (\<forall>c\<in>set us. isUncategorizedChannel (c_Type c) (par c)) \<and> (\<forall>c\<in>set os. \<not> isUncategorizedChannel (c_Type c) (par c))"
    "map c_Position ds = map int [0..<length ordered]" "map c_ParentID ds = map par ordered" "map c_Type ds = map c_Type ordered" for ds cs ordered par
  proof -
    obtain us os where o: "ordered = us @ os" and u: "\<forall>c\<in>set us. isUncategorizedChannel (c_Type c) (par c)"
      and x: "\<forall>c\<in>set os. \<not> isUncategorizedChannel (c_Type c) (par c)" using \<open>\<exists>us os. _\<close> by blast
    have len: "length ds = length ordered" using \<open>map c_Type ds = map c_Type ordered\<close> by (metis length_map)
    have i: "isUncategorizedChannel (c_Type (ds ! i)) (c_ParentID (ds ! i)) \<longleftrightarrow> i < length us" if "i < length ds" for i
    proof -
      have "c_Type (ds ! i) = c_Type (ordered ! i)" "c_ParentID (ds ! i) = par (ordered ! i)"
        using that len \<open>map c_Type ds = _\<close> \<open>map c_ParentID ds = _\<close> by (metis nth_map)+
      then show ?thesis using o u x that len by (auto simp: nth_append)
    qed
    show ?thesis unfolding dense_layout_def using \<open>map c_Position ds = _\<close> len i o by (auto intro!: exI[of _ "length us"])
  qed
  have few: "int (length cs) < 2 ^ 31" if "store_ListGuildChannels gid s = Inr (cs, s)" for cs
  proof -
    have "length cs = length (filter (\<lambda>c. c_GuildID c = gid \<and> c_DeletedAt c = 0) (db_channels s))"
      using that by (simp add: store_ListGuildChannels_def tx_read_Inr)
    then show ?thesis using small length_filter_le[of "\<lambda>c. c_GuildID c = gid \<and> c_DeletedAt c = 0" "db_channels s"] by linarith
  qed
  show ?thesis
  proof (rule ReorderGuildChannels_Inr[OF run], goal_cases)
    case (1 ps au cs parents ordered)
    let ?par = "\<lambda>c. resolvedChannelParentID c parents"
    note pl = placed_of_request[OF iter keys 1(1,4,6)]
    have "UpdateGuildChannelPositions gid (position_updates ?par ordered) 0 s = Inr ([], s)" using 1(7) by (simp add: UpdateGuildChannelPositions_def tx_return_def)
    then obtain ds where ds: "store_ListGuildChannels gid s = Inr (ds, s)" "map c_Position ds = map int [0..<length ordered]"
      "map c_ParentID ds = map ?par ordered" "map c_Type ds = map c_Type ordered"
      by (rule applied_layout[OF keys 1(4) pl(1) few[OF 1(4)]]) blast
    then show ?thesis using dense[OF pl(1) 1(4) pl(2) ds(2-4)] 1(4,8,9) by simp
  next
    case (2 ps au cs parents ordered ups s1 s2 k evs u)
    let ?par = "\<lambda>c. resolvedChannelParentID c parents"
    note pl = placed_of_request[OF iter keys 2(1,4,6)]
    obtain ds where ds: "store_ListGuildChannels gid s1 = Inr (ds, s1)" "map c_Position ds = map int [0..<length ordered]"
      "map c_ParentID ds = map ?par ordered" "map c_Type ds = map c_Type ordered"
      by (rule applied_layout[OF keys 2(4) pl(1) few[OF 2(4)] 2(7)]) blast
    have "chs = ds" using 2(9) ds(1) store_ListGuildChannels_guild[OF AdvanceLayout_channels[OF 2(8)], of gid ds] by simp
    moreover have "store_ListGuildChannels gid s' = Inr (chs, s')"
      using store_ListGuildChannels_guild[OF core_eqD(5)[OF enqueueEvents_core[OF 2(10)]], of gid chs] 2(9) by simp
    ultimately show ?thesis using dense[OF pl(1) 2(4) pl(2) ds(2-4)] by simp
  qed
qed

end
