(* ===== verification/Guild_Roles.thy ===== *)
theory Guild_Roles
  imports Guild_Cursors "HOL-Library.Multiset"
begin

text \<open>
  The role handlers (\<^verbatim>\<open>server/roles.go\<close>). Each is the whole handler: validation, then the transaction
  with its authority checks, store calls and events. The results are the rows the response is built
  from.
\<close>

section \<open>Positions\<close>

definition nextRolePosition :: "Role list \<Rightarrow> int32" where
  "nextRolePosition roles =
     (let highest = foldl (\<lambda>h role. if r_Position role > h then r_Position role else h) 0 roles in
      if highest = MaxInt32 then MaxInt32 else highest + 1)"

function managed_position :: "int32 set \<Rightarrow> int32 \<Rightarrow> int32" where
  "managed_position used position =
     (if position \<le> 0 then 0
      else if position \<notin> used then position
      else managed_position used (position - 1))"
  by pat_completeness auto
termination
  by (relation "measure (\<lambda>(used, position). nat position)") auto

declare managed_position.simps [simp del]

definition nextManagedRolePosition :: "Role list \<Rightarrow> int32 \<Rightarrow> int32" where
  "nextManagedRolePosition roles actorHighest = managed_position (r_Position ` set roles) (wrap32 (actorHighest - 1))"

section \<open>Creating, changing and deleting a role\<close>

definition CreateGuildRole ::
  "guild_env \<Rightarrow> int64 \<Rightarrow> int64 \<Rightarrow> gostring \<Rightarrow> perms \<Rightarrow> gostring option \<Rightarrow> Role gtx" where
  "CreateGuildRole env guildID actorUserID name permissions key =
     tx_then (tx_lift (validateMemberActorRequest guildID actorUserID))
     (tx_bind (tx_lift (normalizeRoleName name)) (\<lambda>name.
     tx_then (tx_lift (validatePermissions permissions))
     (tx_then (tx_lift (validateIdempotencyKey key (KeyLength (e_Idempotency env))))
     (let requestHash = e_digest env (RoleFingerprint guildID name permissions);
          createdAt = e_now env;
          roleID = e_gen env 0
      in tx_map_error mapStoreError
        (tx_bind (loadMemberAuthority guildID actorUserID) (\<lambda>authority.
         tx_then (tx_require (has authority PermissionManageRoles) PermissionDenied)
         (tx_then (tx_require (canGrantPermissions authority permissions) PermissionDenied)
         (with_claim env actorUserID createGuildRoleOperation key requestHash roleID
            (CreateGuildRoleTTL (e_Idempotency env)) (store_GetGuildRole guildID)
           (tx_then (CheckResourceQuota (quota QuotaGuildRoles guildID (Roles (e_Limits env))))
           (tx_bind (store_ListGuildRoles guildID) (\<lambda>roles.
            let position = (if ma_IsOwner authority then nextRolePosition roles
                            else nextManagedRolePosition roles (ma_HighestRole authority)) in
            tx_then (tx_require (ma_IsOwner authority \<or> position > 0) PermissionDenied)
            (tx_bind (store_CreateGuildRole roleID guildID name permissions position createdAt) (\<lambda>role.
             tx_then (enqueueEvents env 2 [newGuildRoleCreatedEvent role (e_gen env 1)])
             (tx_return role))))))))))))))"

definition GetGuildRole :: "int64 \<Rightarrow> int64 \<Rightarrow> int64 \<Rightarrow> Role gtx" where
  "GetGuildRole guildID actorUserID roleID =
     tx_then (tx_lift (validateRoleRequest guildID actorUserID roleID))
     (tx_map_error mapStoreError
       (tx_then (GetGuildForMember guildID actorUserID) (store_GetGuildRole guildID roleID)))"

definition ListGuildRoles :: "int64 \<Rightarrow> int64 \<Rightarrow> Role list gtx" where
  "ListGuildRoles guildID actorUserID =
     tx_then (tx_lift (validateMemberActorRequest guildID actorUserID))
     (tx_map_error mapStoreError
       (tx_then (GetGuildForMember guildID actorUserID) (store_ListGuildRoles guildID)))"

definition UpdateGuildRole ::
  "guild_env \<Rightarrow> int64 \<Rightarrow> int64 \<Rightarrow> int64 \<Rightarrow> gostring option \<Rightarrow> perms option \<Rightarrow> Role gtx" where
  "UpdateGuildRole env guildID actorUserID roleID name permissions =
     tx_then (tx_lift (validateRoleRequest guildID actorUserID roleID))
     (tx_bind (tx_lift (optional normalizeRoleName name)) (\<lambda>name.
     tx_then (tx_lift (optional validatePermissions permissions))
     (tx_then (tx_require (name \<noteq> None \<or> permissions \<noteq> None) (invalidRequest ''at least one role field is required''))
     (tx_map_error mapStoreError
       (tx_bind (loadMemberAuthority guildID actorUserID) (\<lambda>authority.
        tx_then (tx_require (has authority PermissionManageRoles) PermissionDenied)
        (tx_then (tx_require (case permissions of None \<Rightarrow> True | Some p \<Rightarrow> canGrantPermissions authority p) PermissionDenied)
        (tx_bind (store_GetGuildRole guildID roleID) (\<lambda>role.
         tx_then
           (if r_IsDefault role
            then tx_require (name = None) (invalidRequest ''default role name cannot be changed'')
            else tx_require (canManageRole authority role) PermissionDenied)
         (tx_bind (store_UpdateGuildRole guildID roleID name permissions (e_now env)) (\<lambda>updated.
          tx_then (enqueueEvents env 1 [newGuildRoleUpdatedEvent updated (e_gen env 0)])
          (tx_return updated)))))))))))) "

definition DeleteGuildRole :: "guild_env \<Rightarrow> int64 \<Rightarrow> int64 \<Rightarrow> int64 \<Rightarrow> unit gtx" where
  "DeleteGuildRole env guildID actorUserID roleID =
     tx_then (tx_lift (validateRoleRequest guildID actorUserID roleID))
     (tx_map_error mapStoreError
       (tx_bind (loadMemberAuthority guildID actorUserID) (\<lambda>authority.
        tx_then (tx_require (has authority PermissionManageRoles) PermissionDenied)
        (tx_bind (store_GetGuildRole guildID roleID) (\<lambda>role.
         tx_then (tx_require (\<not> r_IsDefault role) (invalidRequest ''default role cannot be deleted''))
         (tx_then (tx_require (canManageRole authority role) PermissionDenied)
         (tx_then (DeleteGuildRoleAssignments guildID roleID)
         (tx_then (DeleteGuildChannelPermissionOverwritesForAppliesTo guildID OVERWRITE_ROLE roleID)
         (tx_bind (store_DeleteGuildRole guildID roleID (e_now env)) (\<lambda>deleted.
          enqueueEvents env 1 [newGuildRoleDeletedEvent deleted (e_gen env 0)]))))))))))"

section \<open>Reordering\<close>

text \<open>The request's items become a map from roles to positions, here its entries in request order.\<close>

fun role_positions :: "(int64 \<times> int32) list \<Rightarrow> (int64 \<times> int32) list \<Rightarrow> guild_error + (int64 \<times> int32) list" where
  "role_positions positions [] = Inr positions"
| "role_positions positions ((roleID, position) # items) =
     (if roleID \<le> 0 \<or> position \<le> 0 then Inl (invalidRequest ''role id and position must be positive'')
      else if roleID \<in> fst ` set positions then Inl (invalidRequest ''role id must be unique'')
      else if position \<in> snd ` set positions then Inl (invalidRequest ''role position must be unique'')
      else role_positions (positions @ [(roleID, position)]) items)"

text \<open>No two roles may end up at one position.\<close>

fun final_positions :: "(int64 \<times> int32) list \<Rightarrow> (int32 \<rightharpoonup> int64) \<Rightarrow> Role list \<Rightarrow> guild_error + unit" where
  "final_positions positions finalPositions [] = Inr ()"
| "final_positions positions finalPositions (role # roles) =
     (if r_IsDefault role then final_positions positions finalPositions roles
      else
        let position = (case map_of positions (r_ID role) of Some requested \<Rightarrow> requested | None \<Rightarrow> r_Position role) in
        case finalPositions position of
          Some existingRoleID \<Rightarrow>
            if existingRoleID \<noteq> r_ID role then Inl (invalidRequest ''role positions conflict with existing roles'')
            else final_positions positions (finalPositions(position \<mapsto> r_ID role)) roles
        | None \<Rightarrow> final_positions positions (finalPositions(position \<mapsto> r_ID role)) roles)"

fun check_reordered :: "memberAuthority \<Rightarrow> Role list \<Rightarrow> (int64 \<times> int32) list \<Rightarrow> guild_error + unit" where
  "check_reordered authority currentRoles [] = Inr ()"
| "check_reordered authority currentRoles ((roleID, position) # entries) =
     (case List.find (\<lambda>role. r_ID role = roleID) currentRoles of
        None \<Rightarrow> Inl NotFound
      | Some role \<Rightarrow>
          if r_IsDefault role \<or> \<not> canManageRole authority role then Inl PermissionDenied
          else if \<not> ma_IsOwner authority \<and> position \<ge> ma_HighestRole authority then Inl PermissionDenied
          else check_reordered authority currentRoles entries)"

definition ReorderGuildRoles :: "guild_env \<Rightarrow> int64 \<Rightarrow> int64 \<Rightarrow> (int64 \<times> int32) list \<Rightarrow> Role list gtx" where
  "ReorderGuildRoles env guildID actorUserID items =
     tx_then (tx_lift (validateMemberActorRequest guildID actorUserID))
     (tx_then (tx_require (items \<noteq> []) (invalidRequest ''role positions are required''))
     (tx_bind (tx_lift (role_positions [] items)) (\<lambda>positions.
     tx_map_error mapStoreError
       (tx_bind (loadMemberAuthority guildID actorUserID) (\<lambda>authority.
        tx_then (tx_require (has authority PermissionManageRoles) PermissionDenied)
        (tx_bind (store_ListGuildRoles guildID) (\<lambda>currentRoles.
         tx_then (tx_lift (final_positions positions Map.empty currentRoles))
         (let entries = e_iter env positions in
          tx_then (tx_lift (check_reordered authority currentRoles entries))
          (tx_bind (UpdateGuildRolePositions guildID (map fst entries) (map snd entries) (e_now env)) (\<lambda>reordered.
           tx_then (tx_require (length reordered = length entries) NotFound)
           (tx_bind (store_ListGuildRoles guildID) (\<lambda>roles.
            tx_then (enqueueEvents env (length reordered) (draft_events env 0 newGuildRoleUpdatedEvent reordered))
            (tx_return roles)))))))))))))"

section \<open>Assignments\<close>

definition change_member :: "int64 \<Rightarrow> memberAuthority \<Rightarrow> int64 \<Rightarrow> bool \<Rightarrow> int64 \<Rightarrow> int64 \<Rightarrow> (int64 \<times> Role list) gtx" where
  "change_member guildID actor roleID add changedAt userID =
     tx_bind (loadMemberAuthority guildID userID) (\<lambda>target.
     tx_then (tx_require (canManageMember actor target) PermissionDenied)
     (tx_then (if add then store_AddGuildMemberRole guildID userID roleID changedAt
               else store_RemoveGuildMemberRole guildID userID roleID)
     (tx_bind (store_ListGuildMemberRoles guildID userID) (\<lambda>roles.
      tx_return (userID, roles)))))"

definition changeGuildRoleMembers :: "guild_env \<Rightarrow> int64 \<Rightarrow> int64 \<Rightarrow> int64 \<Rightarrow> int64 list \<Rightarrow> bool \<Rightarrow> unit gtx" where
  "changeGuildRoleMembers env guildID actorUserID roleID userIDs add =
     (let changedAt = e_now env in
      tx_map_error mapStoreError
        (tx_bind (loadMemberAuthority guildID actorUserID) (\<lambda>actor.
         tx_then (tx_require (has actor PermissionManageRoles) PermissionDenied)
         (tx_bind (store_GetGuildRole guildID roleID) (\<lambda>role.
          tx_then (tx_require (\<not> r_IsDefault role) (invalidRequest ''default role is assigned implicitly''))
          (tx_then (tx_require (canManageRole actor role) PermissionDenied)
          (tx_then (tx_require (\<not> add \<or> canGrantPermissions actor (r_Permissions role)) PermissionDenied)
          (tx_bind (tx_forM (change_member guildID actor roleID add changedAt) userIDs) (\<lambda>updates.
           enqueueEvents env (length updates)
             (draft_events env 0 (\<lambda>(userID, roles). newGuildMemberRolesUpdatedEvent guildID userID roles changedAt) updates))))))))))"

definition changeGuildMemberRole :: "guild_env \<Rightarrow> int64 \<Rightarrow> int64 \<Rightarrow> int64 \<Rightarrow> int64 \<Rightarrow> bool \<Rightarrow> unit gtx" where
  "changeGuildMemberRole env guildID actorUserID userID roleID add =
     changeGuildRoleMembers env guildID actorUserID roleID [userID] add"

definition AddGuildMemberRole :: "guild_env \<Rightarrow> int64 \<Rightarrow> int64 \<Rightarrow> int64 \<Rightarrow> int64 \<Rightarrow> unit gtx" where
  "AddGuildMemberRole env guildID actorUserID userID roleID =
     tx_then (tx_lift (validateMemberRoleRequest guildID actorUserID userID roleID))
     (changeGuildMemberRole env guildID actorUserID userID roleID True)"

definition RemoveGuildMemberRole :: "guild_env \<Rightarrow> int64 \<Rightarrow> int64 \<Rightarrow> int64 \<Rightarrow> int64 \<Rightarrow> unit gtx" where
  "RemoveGuildMemberRole env guildID actorUserID userID roleID =
     tx_then (tx_lift (validateMemberRoleRequest guildID actorUserID userID roleID))
     (changeGuildMemberRole env guildID actorUserID userID roleID False)"

definition AddGuildRoleMembers :: "guild_env \<Rightarrow> int64 \<Rightarrow> int64 \<Rightarrow> int64 \<Rightarrow> int64 list \<Rightarrow> unit gtx" where
  "AddGuildRoleMembers env guildID actorUserID roleID userIDs =
     tx_bind (tx_lift (normalizeRoleMemberUserIDs userIDs)) (\<lambda>userIDs.
     tx_then (tx_lift (validateRoleRequest guildID actorUserID roleID))
     (changeGuildRoleMembers env guildID actorUserID roleID userIDs True))"

definition RemoveGuildRoleMembers :: "guild_env \<Rightarrow> int64 \<Rightarrow> int64 \<Rightarrow> int64 \<Rightarrow> int64 list \<Rightarrow> unit gtx" where
  "RemoveGuildRoleMembers env guildID actorUserID roleID userIDs =
     tx_bind (tx_lift (normalizeRoleMemberUserIDs userIDs)) (\<lambda>userIDs.
     tx_then (tx_lift (validateRoleRequest guildID actorUserID roleID))
     (changeGuildRoleMembers env guildID actorUserID roleID userIDs False))"

definition ListGuildMemberRoles :: "int64 \<Rightarrow> int64 \<Rightarrow> int64 \<Rightarrow> Role list gtx" where
  "ListGuildMemberRoles guildID actorUserID userID =
     tx_then (tx_lift (validateMemberRoleRequest guildID actorUserID userID 1))
     (tx_map_error mapStoreError
       (tx_then (GetGuildForMember guildID actorUserID)
       (tx_then (store_GetGuildMember guildID userID) (store_ListGuildMemberRoles guildID userID))))"

definition ListGuildRoleMembers ::
  "guild_cursors \<Rightarrow> int64 \<Rightarrow> int64 \<Rightarrow> int64 \<Rightarrow> gostring option \<Rightarrow> int32 \<Rightarrow> (GuildMember list \<times> gostring option) gtx" where
  "ListGuildRoleMembers gc guildID actorUserID roleID cursor limit =
     tx_then (tx_lift (validateRoleRequest guildID actorUserID roleID))
     (tx_bind (tx_lift (readCursor cursor)) (\<lambda>token.
     tx_bind (tx_lift (decodeGuildRoleTimeIDCursor gc token guildID roleID)) (\<lambda>(beforeJoinedAt, beforeUserID).
     tx_bind (tx_lift (normalizeLimit limit)) (\<lambda>limit.
     tx_bind (tx_map_error mapStoreError
       (tx_then (GetGuildForMember guildID actorUserID)
       (tx_then (store_GetGuildRole guildID roleID)
       (store_ListGuildRoleMembers guildID roleID beforeJoinedAt beforeUserID (limit + 1))))) (\<lambda>members.
     let (page, hasMore) = Trim members limit in
     tx_bind (tx_lift (setNextRoleMemberCursor gc hasMore page guildID roleID)) (\<lambda>next.
     tx_return (page, next)))))))"

definition GetGuildMemberPermissions :: "int64 \<Rightarrow> int64 \<Rightarrow> int64 \<Rightarrow> perms gtx" where
  "GetGuildMemberPermissions guildID actorUserID userID =
     tx_then (tx_lift (validateMemberRoleRequest guildID actorUserID userID 1))
     (tx_map_error mapStoreError
       (tx_then (GetGuildForMember guildID actorUserID)
       (tx_bind (loadMemberAuthority guildID userID) (\<lambda>authority. tx_return (ma_Permissions authority)))))"

section \<open>The handlers keep keys and outbox\<close>

lemma safe_CreateGuildRole [safe_rules]: "tx_rel safe (CreateGuildRole env gid a name p key)"
  unfolding CreateGuildRole_def Let_def by (intro handler_rules safe_rules)

lemma safe_UpdateGuildRole [safe_rules]: "tx_rel safe (UpdateGuildRole env gid a rid name p)"
  unfolding UpdateGuildRole_def by (intro handler_rules safe_rules)

lemma safe_DeleteGuildRole [safe_rules]: "tx_rel safe (DeleteGuildRole env gid a rid)"
  unfolding DeleteGuildRole_def by (intro handler_rules safe_rules)

lemma safe_ReorderGuildRoles [safe_rules]: "tx_rel safe (ReorderGuildRoles env gid a items)"
  unfolding ReorderGuildRoles_def Let_def by (intro handler_rules safe_rules)

lemma safe_change_member [safe_rules]: "tx_rel safe (change_member gid actor rid add ts uid)"
  unfolding change_member_def by (intro handler_rules safe_rules)

lemma safe_changeGuildRoleMembers [safe_rules]: "tx_rel safe (changeGuildRoleMembers env gid a rid uids add)"
  unfolding changeGuildRoleMembers_def Let_def by (intro handler_rules safe_rules)

lemma safe_assignments [safe_rules]:
  "tx_rel safe (AddGuildMemberRole env gid a uid rid)" "tx_rel safe (RemoveGuildMemberRole env gid a uid rid)"
  "tx_rel safe (AddGuildRoleMembers env gid a rid uids)" "tx_rel safe (RemoveGuildRoleMembers env gid a rid uids)"
  unfolding AddGuildMemberRole_def RemoveGuildMemberRole_def AddGuildRoleMembers_def RemoveGuildRoleMembers_def
    changeGuildMemberRole_def by (intro handler_rules safe_rules)+

section \<open>The handlers are steps of the specification\<close>

lemma DeleteGuildRole_sim:
  assumes now: "0 < e_now env"
  shows "tx_rel (sim a) (DeleteGuildRole env gid a rid)"
proof (rule sim_step[OF safe_DeleteGuildRole])
  fix s u s' assume run: "DeleteGuildRole env gid a rid s = Inr (u, s')" and keys: "keys_ok s"
  obtain au role u1 s1 u2 s2 del s3 where au: "loadMemberAuthority gid a s = Inr (au, s)" "has au PermissionManageRoles"
    and role: "store_GetGuildRole gid rid s = Inr (role, s)" "\<not> r_IsDefault role" "canManageRole au role"
    and d1: "DeleteGuildRoleAssignments gid rid s = Inr (u1, s1)"
    and d2: "DeleteGuildChannelPermissionOverwritesForAppliesTo gid OVERWRITE_ROLE rid s1 = Inr (u2, s2)"
    and d3: "store_DeleteGuildRole gid rid (e_now env) s2 = Inr (del, s3)"
    and e: "enqueueEvents env 1 [newGuildRoleDeletedEvent del (e_gen env 0)] s3 = Inr (u, s')"
    using run by (auto simp: DeleteGuildRole_def tx_simps read_simps)
  have k1: "keys_ok s1" using tx_relD[OF keys_member_roles(4) d1] keys by simp
  have k2: "keys_ok s2" using tx_relD[OF keys_overwrites(4) d2] k1 by simp
  note r = GetGuildRole_refines[OF keys role(1)]
  have "absdb s' = drop_role gid rid (absdb s)"
    using DeleteGuildRoleAssignments_refines[OF d1] DeleteOverwritesFor_refines[OF k1 d2] DeleteGuildRole_refines(1)[OF k2 now d3]
      enqueueEvents_absdb[OF e] by (simp add: drop_role_def del: absdb_sel)
  then show "spec_step a (absdb s) (absdb s')"
    using spec_step.delete_role[OF has_perms(2)[OF keys au] r(2)] r(3) role(2) canManageRole_controls[OF keys au(1) role(3)] by simp
qed

lemma managed_position_bounds: "0 < managed_position used p \<Longrightarrow> managed_position used p \<le> p \<and> managed_position used p \<notin> used"
proof (induction used p rule: managed_position.induct)
  case (1 used p)
  then show ?case by (subst (asm) (3) managed_position.simps, subst managed_position.simps, subst managed_position.simps) auto
qed

lemma nextManagedRolePosition_bounds:
  assumes "0 < nextManagedRolePosition roles h" "0 \<le> h" "h \<le> MaxInt32"
  shows "nextManagedRolePosition roles h < h" "nextManagedRolePosition roles h \<notin> r_Position ` set roles"
  using managed_position_bounds[of "r_Position ` set roles" "wrap32 (h - 1)"] assms by (simp_all add: nextManagedRolePosition_def)

lemma nextRolePosition_bounds:
  assumes "\<And>r. r \<in> set roles \<Longrightarrow> r_Position r \<le> MaxInt32"
  shows "0 < nextRolePosition roles" "nextRolePosition roles \<le> MaxInt32"
    "r \<in> set roles \<Longrightarrow> r_Position r < nextRolePosition roles \<or> nextRolePosition roles = MaxInt32"
proof -
  define m where "m = foldl (\<lambda>h role. if r_Position role > h then r_Position role else h) 0 roles"
  have "m = Max (insert 0 (r_Position ` set roles))" using foldl_max[of "\<lambda>_. True" r_Position 0 roles] by (simp add: m_def)
  then have m: "0 \<le> m" "m \<le> MaxInt32" "\<And>r. r \<in> set roles \<Longrightarrow> r_Position r \<le> m" using assms by simp_all
  have n: "nextRolePosition roles = (if m = MaxInt32 then MaxInt32 else m + 1)" by (simp add: nextRolePosition_def m_def)
  show "0 < nextRolePosition roles" "nextRolePosition roles \<le> MaxInt32" using m(1,2) by (simp_all add: n)
  show "r \<in> set roles \<Longrightarrow> r_Position r < nextRolePosition roles \<or> nextRolePosition roles = MaxInt32" using m(3)[of r] by (auto simp: n)
qed

lemma store_ListGuildRoles_live:
  assumes "keys_ok s" "store_ListGuildRoles gid s = Inr (roles, s')" "r \<in> set roles"
  shows "sp_roles (absdb s) (r_ID r) = Some (role_info_of r)" "r_GuildID r = gid" "r_DeletedAt r = 0" "r \<in> set (db_roles s)"
  using assms(2,3) roles_of_live[OF assms(1)] by (auto simp: store_ListGuildRoles_def tx_read_Inr)

lemma CreateGuildRole_sim: "tx_rel (sim a) (CreateGuildRole env gid a name p key)"
proof (rule simI[OF safe_CreateGuildRole])
  fix s r s' assume run: "CreateGuildRole env gid a name p key s = Inr (r, s')" and keys: "keys_ok s" and inv: "spec_inv (absdb s)"
  note ri = spec_invD(1)[OF inv]
  define position where "position au roles = (if ma_IsOwner au then nextRolePosition roles else nextManagedRolePosition roles (ma_HighestRole au))"
    for au :: memberAuthority and roles
  obtain nm au where p: "validatePermissions p = Inr ()" and au: "loadMemberAuthority gid a s = Inr (au, s)" "has au PermissionManageRoles"
    and grant: "canGrantPermissions au p"
    and rest: "with_claim env a createGuildRoleOperation key (e_digest env (RoleFingerprint gid nm p)) (e_gen env 0)
        (CreateGuildRoleTTL (e_Idempotency env)) (store_GetGuildRole gid)
        (tx_then (CheckResourceQuota (quota QuotaGuildRoles gid (Roles (e_Limits env))))
           (tx_bind (store_ListGuildRoles gid) (\<lambda>roles.
            tx_then (tx_require (ma_IsOwner au \<or> position au roles > 0) PermissionDenied)
            (tx_bind (store_CreateGuildRole (e_gen env 0) gid nm p (position au roles) (e_now env)) (\<lambda>role.
             tx_then (enqueueEvents env 2 [newGuildRoleCreatedEvent role (e_gen env 1)])
             (tx_return role)))))) s = Inr (r, s')"
    using run by (auto simp: CreateGuildRole_def Let_def tx_simps read_simps position_def)
  note a = loadMemberAuthority_refines[OF keys au(1)]
  show "spec_steps a (absdb s) (absdb s')"
  proof (rule with_claim_Inr[OF rest])
    fix t rid assume t: "absdb t = absdb s" "store_GetGuildRole gid rid t = Inr (r, s')"
    then show ?thesis using reads_same[OF read_store(10) t(2)] by simp
  next
    fix t assume t: "absdb t = absdb s" "keys_ok t = keys_ok s" and c: "(tx_then (CheckResourceQuota (quota QuotaGuildRoles gid (Roles (e_Limits env))))
           (tx_bind (store_ListGuildRoles gid) (\<lambda>roles.
            tx_then (tx_require (ma_IsOwner au \<or> position au roles > 0) PermissionDenied)
            (tx_bind (store_CreateGuildRole (e_gen env 0) gid nm p (position au roles) (e_now env)) (\<lambda>role.
             tx_then (enqueueEvents env 2 [newGuildRoleCreatedEvent role (e_gen env 1)])
             (tx_return role)))))) t = Inr (r, s')"
    have kt: "keys_ok t" using t keys by simp
    obtain roles s1 u where l: "store_ListGuildRoles gid t = Inr (roles, t)" and pos: "ma_IsOwner au \<or> position au roles > 0"
      and cr: "store_CreateGuildRole (e_gen env 0) gid nm p (position au roles) (e_now env) t = Inr (r, s1)"
      and e: "enqueueEvents env 2 [newGuildRoleCreatedEvent r (e_gen env 1)] s1 = Inr (u, s')"
      using c by (auto simp: tx_simps read_simps)
    note cr' = CreateGuildRole_refines[OF cr]
    have bnd: "r_Position q \<le> MaxInt32" if "q \<in> set roles" for q
      using roles_invD(7)[OF ri, of "r_ID q" "role_info_of q"] store_ListGuildRoles_live(1)[OF kt l that] t(1) by simp
    have "0 < position au roles" using pos nextRolePosition_bounds(1)[OF bnd] by (auto simp: position_def)
    moreover have "sp_owner (absdb s) gid = Some a \<or> position au roles < rank (absdb s) gid a"
      using nextManagedRolePosition_bounds(1)[of roles "ma_HighestRole au"] calculation a(3,4) rank_ge(2)[OF ri, of gid a]
        rank_le_MaxInt32[OF ri, of gid a] by (auto simp: position_def)
    moreover have "position au roles \<le> MaxInt32"
      using calculation(2) nextRolePosition_bounds(2)[OF bnd] rank_le_MaxInt32[OF ri, of gid a] a(4) by (auto simp: position_def)
    ultimately have "spec_step a (absdb s) ((absdb s)\<lparr>sp_roles := (sp_roles (absdb s))(e_gen env 0 \<mapsto>
        \<lparr>ri_guild = gid, ri_perms = p, ri_pos = position au roles, ri_default = False\<rparr>)\<rparr>)"
      using spec_step.create_role[OF has_perms(2)[OF keys au] canGrant_refines[OF keys au(1) grant validatePermissions_bits[OF p]]] cr'(7) t(1)
      by simp
    then show ?thesis using cr'(1) t(1) enqueueEvents_absdb[OF e] by simp
  qed
qed

lemma UpdateGuildRole_sim: "tx_rel (sim a) (UpdateGuildRole env gid a rid name p)"
proof (rule simI[OF safe_UpdateGuildRole])
  fix s r s' assume run: "UpdateGuildRole env gid a rid name p s = Inr (r, s')" and keys: "keys_ok s"
  obtain nm au role s1 u where p: "\<And>q. p = Some q \<Longrightarrow> validatePermissions q = Inr () \<and> canGrantPermissions au q"
    and au: "loadMemberAuthority gid a s = Inr (au, s)" "has au PermissionManageRoles"
    and role: "store_GetGuildRole gid rid s = Inr (role, s)" "r_IsDefault role \<or> canManageRole au role"
    and upd: "store_UpdateGuildRole gid rid nm p (e_now env) s = Inr (r, s1)"
    and e: "enqueueEvents env 1 [newGuildRoleUpdatedEvent r (e_gen env 0)] s1 = Inr (u, s')"
    using run by (auto simp: UpdateGuildRole_def optional_def tx_simps read_simps split: option.splits if_splits sum.splits)
  note r = GetGuildRole_refines[OF keys role(1)]
  obtain i where i: "sp_roles (absdb s) rid = Some i" "ri_guild i = gid" "absdb s1 =
      (absdb s)\<lparr>sp_roles := (sp_roles (absdb s))(rid \<mapsto> i\<lparr>ri_perms := case p of Some p \<Rightarrow> p | None \<Rightarrow> ri_perms i\<rparr>)\<rparr>"
    using UpdateGuildRole_refines(1)[OF keys upd] by blast
  have ctl: "ri_default i \<or> controls (absdb s) gid a i" using role(2) canManageRole_controls[OF keys au(1), of role] i(1) r(2) by auto
  show "spec_steps a (absdb s) (absdb s')"
  proof (cases p)
    case None
    then have "absdb s' = absdb s" using i enqueueEvents_absdb[OF e] by (simp add: map_upd_triv del: absdb_sel)
    then show ?thesis by simp
  next
    case (Some q)
    have "spec_step a (absdb s) (absdb s')"
      using spec_step.update_role[OF has_perms(2)[OF keys au] i(1,2) canGrant_refines[OF keys au(1)] ctl, of q] p[OF Some]
        validatePermissions_bits[of q] Some i(3) enqueueEvents_absdb[OF e] by (simp del: absdb_sel)
    then show ?thesis by simp
  qed
qed

subsection \<open>Reordering\<close>

lemma role_positions_Inr:
  "role_positions acc items = Inr ps \<Longrightarrow> distinct (map fst acc) \<Longrightarrow>
     distinct (map fst ps) \<and> set ps \<subseteq> set acc \<union> {i \<in> set items. 0 < snd i}"
proof (induction acc items arbitrary: ps rule: role_positions.induct)
  case (2 acc rid p items)
  then have "distinct (map fst ps) \<and> set ps \<subseteq> set (acc @ [(rid, p)]) \<union> {i \<in> set items. 0 < snd i}" "0 < p"
    by (auto split: if_splits)
  then show ?case by auto
qed simp

lemma check_reordered_Inr:
  assumes "check_reordered au roles es = Inr ()" "(rid, p) \<in> set es"
  shows "\<exists>role\<in>set roles. r_ID role = rid \<and> \<not> r_IsDefault role \<and> canManageRole au role \<and> (ma_IsOwner au \<or> p < ma_HighestRole au)"
  using assms
proof (induction es)
  case (Cons e es)
  then show ?case by (cases e) (auto split: option.splits if_splits dest!: find_SomeD)
qed simp

lemma ReorderGuildRoles_sim:
  assumes iter: "\<And>xs. mset (e_iter env xs) = mset xs" and items: "\<And>i. i \<in> set items \<Longrightarrow> snd i \<le> MaxInt32"
  shows "tx_rel (sim a) (ReorderGuildRoles env gid a items)"
proof (rule sim_step[OF safe_ReorderGuildRoles])
  fix s r s' assume run: "ReorderGuildRoles env gid a items s = Inr (r, s')" and keys: "keys_ok s"
  obtain ps au roles rs s1 u s2 where ps: "role_positions [] items = Inr ps"
    and au: "loadMemberAuthority gid a s = Inr (au, s)" "has au PermissionManageRoles"
    and l: "store_ListGuildRoles gid s = Inr (roles, s)" and chk: "check_reordered au roles (e_iter env ps) = Inr ()"
    and upd: "UpdateGuildRolePositions gid (map fst (e_iter env ps)) (map snd (e_iter env ps)) (e_now env) s = Inr (rs, s1)"
    and e: "enqueueEvents env (length rs) (draft_events env 0 newGuildRoleUpdatedEvent rs) s1 = Inr (u, s2)" and s': "s' = s2"
    using run by (auto simp: ReorderGuildRoles_def Let_def tx_simps read_simps)
  note a = loadMemberAuthority_refines[OF keys au(1)]
  define es where "es = e_iter env ps"
  have es: "set es = set ps" using iter[of ps] unfolding es_def by (rule mset_eq_setD)
  have "map_of (zip (map fst es) (map snd es)) = map_of es" by (simp add: zip_map_fst_snd)
  then have abs: "absdb s' = (absdb s)\<lparr>sp_roles := reposition gid (map_of es) (sp_roles (absdb s))\<rparr>"
    using UpdateGuildRolePositions_refines(1)[OF keys upd] enqueueEvents_absdb[OF e] s' by (simp add: es_def del: absdb_sel)
  have req: "0 < p \<and> p \<le> MaxInt32 \<and> (sp_owner (absdb s) gid = Some a \<or> p < rank (absdb s) gid a) \<and>
      (\<exists>i. sp_roles (absdb s) rid = Some i \<and> ri_guild i = gid \<and> \<not> ri_default i \<and> controls (absdb s) gid a i)"
    if "map_of es rid = Some p" for rid p
  proof -
    have m: "(rid, p) \<in> set es" using that by (rule map_of_SomeD)
    then have "0 < p \<and> p \<le> MaxInt32" using role_positions_Inr[OF ps] items[of "(rid, p)"] es by auto
    moreover obtain role where role: "role \<in> set roles" "r_ID role = rid" "\<not> r_IsDefault role" "canManageRole au role"
      "ma_IsOwner au \<or> p < ma_HighestRole au" using check_reordered_Inr[OF chk[folded es_def] m] by blast
    ultimately show ?thesis
      using a(3,4) store_ListGuildRoles_live(1,2)[OF keys l role(1)] canManageRole_controls[OF keys au(1) role(4)] by auto
  qed
  show "spec_step a (absdb s) (absdb s')"
    unfolding abs by (rule spec_step.reorder_roles[OF has_perms(2)[OF keys au] req])
qed

subsection \<open>Assignments\<close>

text \<open>While a batch is applied, the actor's own standing does not change.\<close>

definition same_standing :: "int64 \<Rightarrow> int64 \<Rightarrow> guild_spec \<Rightarrow> guild_spec \<Rightarrow> bool" where
  "same_standing g a \<sigma> \<tau> \<longleftrightarrow> \<tau> = \<sigma>\<lparr>sp_assigned := sp_assigned \<tau>\<rparr>
     \<and> (sp_owner \<sigma> g = Some a \<or> (\<forall>rid. (g, a, rid) \<in> sp_assigned \<tau> \<longleftrightarrow> (g, a, rid) \<in> sp_assigned \<sigma>))"

lemma same_standingD:
  assumes "same_standing g a \<sigma> \<tau>"
  shows "sp_owner \<tau> = sp_owner \<sigma>" "sp_members \<tau> = sp_members \<sigma>" "sp_roles \<tau> = sp_roles \<sigma>"
    "eff \<tau> g a = eff \<sigma> g a" "rank \<tau> g a = rank \<sigma> g a" "may \<tau> g a n = may \<sigma> g a n" "controls \<tau> g a i = controls \<sigma> g a i"
proof -
  have t: "\<tau> = \<sigma>\<lparr>sp_assigned := sp_assigned \<tau>\<rparr>" using assms by (simp add: same_standing_def)
  show s: "sp_owner \<tau> = sp_owner \<sigma>" "sp_members \<tau> = sp_members \<sigma>" "sp_roles \<tau> = sp_roles \<sigma>" by (subst t, simp)+
  have o: "sp_owner \<sigma> g = Some a \<or> base_bits \<tau> g a = base_bits \<sigma> g a \<and> held_positions \<tau> g a = held_positions \<sigma> g a"
    using assms s by (auto simp: same_standing_def base_bits_def held_positions_def)
  show "eff \<tau> g a = eff \<sigma> g a" "rank \<tau> g a = rank \<sigma> g a" using o s by (auto simp: eff_def rank_def)
  then show "may \<tau> g a n = may \<sigma> g a n" "controls \<tau> g a i = controls \<sigma> g a i" using s by (simp_all add: may_def controls_def)
qed

lemma change_member_step:
  assumes keys: "keys_ok s" "keys_ok t" and st: "same_standing gid a (absdb s) (absdb t)"
    and au: "loadMemberAuthority gid a s = Inr (au, s)" "has au PermissionManageRoles"
    and role: "sp_roles (absdb s) rid = Some i" "ri_guild i = gid" "\<not> ri_default i" "controls (absdb s) gid a i"
    and grant: "add \<Longrightarrow> bits (ri_perms i) \<subseteq> eff (absdb s) gid a"
    and ch: "change_member gid au rid add ts v t = Inr (x, t')"
  shows "spec_step a (absdb t) (absdb t') \<and> same_standing gid a (absdb s) (absdb t')"
proof -
  obtain b u roles where b: "loadMemberAuthority gid v t = Inr (b, t)" "canManageMember au b"
    and w: "(if add then store_AddGuildMemberRole gid v rid ts else store_RemoveGuildMemberRole gid v rid) t = Inr (u, t')"
    using ch by (auto simp: change_member_def tx_simps read_simps)
  note a = loadMemberAuthority_refines[OF keys(1) au(1)] and b' = loadMemberAuthority_refines[OF keys(2) b(1)]
  note ss = same_standingD[OF st]
  have out: "outranks (absdb t) gid a v"
    using b(2) a(3,4) b'(3,4) ss(1,5) by (auto simp: canManageMember_def outranks_def split: if_splits)
  have may: "may (absdb t) gid a MANAGE_ROLES" using has_perms(2)[OF keys(1) au] ss(6) by simp
  have t': "absdb t' = (absdb t)\<lparr>sp_assigned := if add then insert (gid, v, rid) (sp_assigned (absdb t))
      else sp_assigned (absdb t) - {(gid, v, rid)}\<rparr>"
    using w AddGuildMemberRole_refines[of gid v rid ts t u t'] RemoveGuildMemberRole_refines[of gid v rid t u t']
    by (cases add) (auto simp del: absdb_sel intro: arg_cong[where f = "\<lambda>A. (absdb t)\<lparr>sp_assigned := A\<rparr>"])
  have role': "sp_roles (absdb t) rid = Some i" "controls (absdb t) gid a i" using role ss(3,7) by simp_all
  have "sp_owner (absdb s) gid = Some a \<or> v \<noteq> a" using out ss(1) by (auto simp: outranks_def)
  then have "same_standing gid a (absdb s) (absdb t')"
    using st unfolding t' same_standing_def by (cases add) auto
  moreover have "spec_step a (absdb t) (absdb t')"
    using spec_step.assign[OF may role'(1) role(2,3) role'(2) _ b'(7) out] grant ss(4)
      spec_step.unassign[OF may role'(1) role(2,3) role'(2) b'(7) out] unfolding t' by (cases add) (simp_all del: absdb_sel)
  ultimately show ?thesis by simp
qed

lemma change_members_steps:
  assumes keys: "keys_ok s" and au: "loadMemberAuthority gid a s = Inr (au, s)" "has au PermissionManageRoles"
    and role: "sp_roles (absdb s) rid = Some i" "ri_guild i = gid" "\<not> ri_default i" "controls (absdb s) gid a i"
    and grant: "add \<Longrightarrow> bits (ri_perms i) \<subseteq> eff (absdb s) gid a"
    and ch: "tx_forM (change_member gid au rid add ts) vs t = Inr (xs, t')" and kt: "keys_ok t"
    and st: "same_standing gid a (absdb s) (absdb t)"
  shows "spec_steps a (absdb t) (absdb t')"
  using ch kt st
proof (induction vs arbitrary: t xs)
  case (Cons v vs)
  obtain x t1 ys where c: "change_member gid au rid add ts v t = Inr (x, t1)" and r: "tx_forM (change_member gid au rid add ts) vs t1 = Inr (ys, t')"
    using Cons.prems(1) by (auto simp: tx_simps)
  have k1: "keys_ok t1" using tx_relD[OF safe_change_member c] Cons.prems(2) by (simp add: safe_def)
  note st1 = change_member_step[OF keys Cons.prems(2,3) au role grant c]
  show ?case using Cons.IH[OF r k1] st1 by (meson converse_rtranclp_into_rtranclp)
qed (simp add: tx_simps)

lemma changeGuildRoleMembers_sim: "tx_rel (sim a) (changeGuildRoleMembers env gid a rid uids add)"
proof (rule simI[OF safe_changeGuildRoleMembers])
  fix s r s' assume run: "changeGuildRoleMembers env gid a rid uids add s = Inr (r, s')" and keys: "keys_ok s" and inv: "spec_inv (absdb s)"
  obtain au role ups s1 evs where au: "loadMemberAuthority gid a s = Inr (au, s)" "has au PermissionManageRoles"
    and role: "store_GetGuildRole gid rid s = Inr (role, s)" "\<not> r_IsDefault role" "canManageRole au role"
    and grant: "add \<longrightarrow> canGrantPermissions au (r_Permissions role)"
    and ch: "tx_forM (change_member gid au rid add (e_now env)) uids s = Inr (ups, s1)"
    and e: "enqueueEvents env (length ups) evs s1 = Inr (r, s')"
    using run by (auto simp: changeGuildRoleMembers_def Let_def tx_simps read_simps)
  note g = GetGuildRole_refines[OF keys role(1)]
  have b: "bits (r_Permissions role) \<subseteq> {..<12}" using roles_invD(2)[OF spec_invD(1)[OF inv] g(2)] by simp
  have "spec_steps a (absdb s) (absdb s1)"
    by (rule change_members_steps[OF keys au g(2) _ _ canManageRole_controls[OF keys au(1) role(3)] _ ch keys])
      (use g(3) role(2) grant canGrant_refines[OF keys au(1) _ b] in \<open>auto simp: same_standing_def\<close>)
  then show "spec_steps a (absdb s) (absdb s')" using enqueueEvents_absdb[OF e] by simp
qed

lemma assignments_sim:
  "tx_rel (sim a) (AddGuildMemberRole env gid a uid rid)" "tx_rel (sim a) (RemoveGuildMemberRole env gid a uid rid)"
  "tx_rel (sim a) (AddGuildRoleMembers env gid a rid uids)" "tx_rel (sim a) (RemoveGuildRoleMembers env gid a rid uids)"
  unfolding AddGuildMemberRole_def RemoveGuildMemberRole_def AddGuildRoleMembers_def RemoveGuildRoleMembers_def
    changeGuildMemberRole_def by (intro sim.rel_rules changeGuildRoleMembers_sim)+

end
