(* ===== verification/Guild_Members.thy ===== *)
theory Guild_Members
  imports Guild_Cursors
begin

text \<open>
  The handlers for members and bans (\<^verbatim>\<open>server/members.go\<close>, \<^verbatim>\<open>server/bans.go\<close>): joining through an
  actor, nicknames, kicking, leaving, transfer of ownership, bans, and the paged lists. Reads that a
  handler makes before its transaction see an earlier database \<open>pre\<close>.
\<close>

section \<open>Members\<close>

definition FilterUsersWithCommonGuild :: "int64 \<Rightarrow> int64 list \<Rightarrow> int64 list gtx" where
  "FilterUsersWithCommonGuild userID targets =
     tx_then (tx_require (userID > 0) (invalidRequest ''user id is required''))
     (let targetUserIDs = remdups_adj (sort targets) in
      if targetUserIDs = [] then tx_return []
      else
        tx_then (tx_require (length targetUserIDs \<le> 100) (invalidRequest ''too many target users''))
        (tx_then (tx_require (\<forall>targetUserID\<in>set targetUserIDs. targetUserID > 0) (invalidRequest ''target user id is required''))
        (tx_map_error mapStoreError (ListUsersWithCommonGuild userID targetUserIDs))))"

text \<open>\<^verbatim>\<open>if _, err := m; err == nil { return err' } else if !errors.Is(err, sql.ErrNoRows) { return err }\<close>.\<close>

definition tx_absent :: "'a gtx \<Rightarrow> guild_error \<Rightarrow> unit gtx" where
  "tx_absent m found = tx_bind (tx_try m) (\<lambda>r. case r of
       Inr _ \<Rightarrow> tx_fail found
     | Inl e \<Rightarrow> if e = ErrNoRows then tx_return () else tx_fail e)"

definition guildMemberProfileFromProto :: "int64 \<Rightarrow> gostring \<Rightarrow> UserProfile option \<Rightarrow> GuildMemberProfile" where
  "guildMemberProfileFromProto guildID nickname profile =
     \<lparr>p_GuildID = guildID,
      p_UserID = (case profile of None \<Rightarrow> 0 | Some p \<Rightarrow> up_UserID p),
      p_Username = (case profile of None \<Rightarrow> [] | Some p \<Rightarrow> up_Username p),
      p_Name = (case profile of None \<Rightarrow> [] | Some p \<Rightarrow> up_Name p),
      p_Nickname = nickname, p_UsernameSearch = [], p_NameSearch = [], p_NicknameSearch = [],
      p_AvatarAssetID = (case profile of None \<Rightarrow> 0 | Some p \<Rightarrow> up_AvatarAssetID p),
      p_ProfileUpdatedAt = (case profile of None \<Rightarrow> 0 | Some p \<Rightarrow> up_UpdatedAt p)\<rparr>"

definition AddGuildMember :: "guild_env \<Rightarrow> guild_db \<Rightarrow> int64 \<Rightarrow> int64 \<Rightarrow> int64 \<Rightarrow> GuildMember gtx" where
  "AddGuildMember env pre guildID actorUserID userID =
     tx_then (tx_lift (validateMemberActorRequest guildID actorUserID))
     (tx_then (tx_require (userID > 0) (invalidRequest ''user id is required''))
     (tx_bind (tx_map_error mapStoreError (tx_before pre (loadMemberAuthority guildID actorUserID))) (\<lambda>authority.
      tx_then (tx_require (has authority PermissionManageMembers) PermissionDenied)
      (tx_bind (tx_lift (e_GetUser env userID)) (\<lambda>user.
      tx_then (tx_require (user = userID) NotFound)
      (tx_bind (tx_lift (getEventUserProfiles env [userID])) (\<lambda>profiles.
      let joinedAt = e_now env in
      tx_map_error mapStoreError
        (tx_bind (loadMemberAuthority guildID actorUserID) (\<lambda>current.
         tx_then (tx_require (has current PermissionManageMembers) PermissionDenied)
         (tx_then (tx_absent (GetGuildBan guildID userID) ErrUserBanned)
         (tx_then (tx_absent (store_GetGuildMember guildID userID) ErrMemberAlreadyExists)
         (tx_then (CheckResourceQuota ((quota QuotaJoinedGuilds userID (JoinedGuilds (e_Limits env)))\<lparr>q_TargetID := guildID\<rparr>))
         (tx_bind (CreateGuildMember guildID userID joinedAt) (\<lambda>member.
          tx_then (UpsertGuildMemberProfile env (guildMemberProfileFromProto guildID (m_Nickname member) (profiles userID)))
          (tx_then (enqueueEvents env 1 [newGuildMemberJoinedEvent member (profiles (m_UserID member)) (e_gen env 0)])
          (tx_return member))))))))))))))))"

definition GetGuildMember :: "int64 \<Rightarrow> int64 \<Rightarrow> int64 \<Rightarrow> GuildMember gtx" where
  "GetGuildMember guildID actorUserID userID =
     tx_then (tx_lift (validateMemberActorRequest guildID actorUserID))
     (tx_then (tx_require (userID > 0) (invalidRequest ''user id is required''))
     (tx_map_error mapStoreError
       (tx_then (GetGuildForMember guildID actorUserID) (store_GetGuildMember guildID userID))))"

definition ListGuildMembers ::
  "guild_cursors \<Rightarrow> int64 \<Rightarrow> int64 \<Rightarrow> gostring option \<Rightarrow> int32 \<Rightarrow> (GuildMember list \<times> gostring option) gtx" where
  "ListGuildMembers gc guildID actorUserID cursor limit =
     tx_then (tx_lift (validateMemberActorRequest guildID actorUserID))
     (tx_bind (tx_lift (readCursor cursor)) (\<lambda>token.
     tx_bind (tx_lift (decodeGuildTimeIDCursor gc KindGuildMembers token guildID)) (\<lambda>(beforeJoinedAt, beforeUserID).
     tx_bind (tx_lift (normalizeLimit limit)) (\<lambda>limit.
     tx_then (tx_map_error mapStoreError (GetGuildForMember guildID actorUserID))
     (tx_bind (store_ListGuildMembers guildID beforeJoinedAt beforeUserID (limit + 1)) (\<lambda>members.
     let (page, hasMore) = Trim members limit in
     tx_bind (tx_lift (setNextMemberCursor gc KindGuildMembers hasMore page guildID)) (\<lambda>next.
     tx_return (page, next))))))))"

definition UpdateGuildMember :: "guild_env \<Rightarrow> int64 \<Rightarrow> int64 \<Rightarrow> gostring \<Rightarrow> GuildMember gtx" where
  "UpdateGuildMember env guildID actorUserID nickname =
     tx_then (tx_lift (validateMemberActorRequest guildID actorUserID))
     (tx_bind (tx_lift (normalizeNickname nickname)) (\<lambda>nickname.
     tx_bind (tx_lift (getEventUserProfiles env [actorUserID])) (\<lambda>profiles.
     tx_map_error mapStoreError
       (tx_then (GetGuildForMember guildID actorUserID)
       (tx_bind (UpdateGuildMemberNickname env guildID actorUserID nickname) (\<lambda>member.
        tx_then (UpdateGuildMemberProfileNickname env guildID actorUserID (m_Nickname member))
        (tx_then (enqueueEvents env 1 [newGuildMemberUpdatedEvent member (profiles (m_UserID member)) (e_gen env 0)])
        (tx_return member))))))))"

definition KickGuildMember :: "guild_env \<Rightarrow> int64 \<Rightarrow> int64 \<Rightarrow> int64 \<Rightarrow> unit gtx" where
  "KickGuildMember env guildID actorUserID userID =
     tx_then (tx_lift (validateMemberActorRequest guildID actorUserID))
     (tx_then (tx_require (userID > 0) (invalidRequest ''user id is required''))
     (let removedAt = e_now env in
      tx_map_error mapStoreError
        (tx_bind (loadMemberAuthority guildID actorUserID) (\<lambda>actor.
         tx_then (tx_require (has actor PermissionKickMembers) PermissionDenied)
         (tx_bind (loadMemberAuthority guildID userID) (\<lambda>target.
          tx_then (tx_require (\<not> ma_IsOwner target) (invalidRequest ''guild owner cannot be kicked''))
          (tx_then (tx_require (canManageMember actor target) PermissionDenied)
          (tx_then (DeleteGuildMemberRoleAssignments guildID userID)
          (tx_then (DeleteGuildChannelPermissionOverwritesForAppliesTo guildID OVERWRITE_MEMBER userID)
          (tx_bind (RemoveGuildMember guildID userID removedAt) (\<lambda>removed.
           tx_then (DeleteGuildMemberProfile guildID userID)
           (enqueueEvents env 1 [newGuildMemberRemovedEvent removed (e_gen env 0)])))))))))))) "

definition LeaveGuild :: "guild_env \<Rightarrow> int64 \<Rightarrow> int64 \<Rightarrow> unit gtx" where
  "LeaveGuild env guildID userID =
     tx_then (tx_require (guildID > 0) (invalidRequest ''guild id is required''))
     (tx_then (tx_require (userID > 0) (invalidRequest ''user id is required''))
     (let removedAt = e_now env in
      tx_map_error mapStoreError
        (tx_bind (GetGuildForMember guildID userID) (\<lambda>guild.
         tx_then (tx_require (g_OwnerID guild \<noteq> userID)
            (invalidRequest ''guild owner must transfer ownership before leaving''))
         (tx_then (DeleteGuildMemberRoleAssignments guildID userID)
         (tx_then (DeleteGuildChannelPermissionOverwritesForAppliesTo guildID OVERWRITE_MEMBER userID)
         (tx_bind (RemoveGuildMember guildID userID removedAt) (\<lambda>removed.
          tx_then (DeleteGuildMemberProfile guildID userID)
          (enqueueEvents env 1 [newGuildMemberRemovedEvent removed (e_gen env 0)]))))))))) "

definition TransferGuildOwnership :: "guild_env \<Rightarrow> int64 \<Rightarrow> int64 \<Rightarrow> int64 \<Rightarrow> Guild gtx" where
  "TransferGuildOwnership env guildID actorUserID newOwnerID =
     tx_then (tx_lift (validateMemberActorRequest guildID actorUserID))
     (tx_then (tx_require (newOwnerID > 0) (invalidRequest ''new owner id is required''))
     (tx_then (tx_require (newOwnerID \<noteq> actorUserID) (invalidRequest ''new owner must differ from current owner''))
     (tx_map_error mapStoreError
       (tx_bind (GetGuildForMember guildID actorUserID) (\<lambda>guild.
        tx_then (tx_require (g_OwnerID guild = actorUserID) PermissionDenied)
        (tx_then (store_GetGuildMember guildID newOwnerID)
        (tx_then (CheckResourceQuota (quota QuotaOwnedGuilds newOwnerID (OwnedGuilds (e_Limits env))))
        (tx_bind (store_TransferGuildOwnership env guildID actorUserID newOwnerID) (\<lambda>updated.
         tx_then (enqueueEvents env 1 [newGuildUpdatedEvent updated (e_gen env 0)])
         (tx_return updated)))))))))) "

section \<open>Bans\<close>

text \<open>The switch on whether the banned user is a member: a member loses its roles, overwrites and membership.\<close>

definition remove_banned :: "int64 \<Rightarrow> int64 \<Rightarrow> int64 \<Rightarrow> memberAuthority \<Rightarrow> guild_error + memberAuthority \<Rightarrow> unit gtx" where
  "remove_banned guildID userID createdAt actor result = (case result of
       Inr target \<Rightarrow>
         tx_then (tx_require (canManageMember actor target) PermissionDenied)
         (tx_then (DeleteGuildMemberRoleAssignments guildID userID)
         (tx_then (DeleteGuildChannelPermissionOverwritesForAppliesTo guildID OVERWRITE_MEMBER userID)
         (tx_then (RemoveGuildMember guildID userID createdAt) (tx_return ()))))
     | Inl targetErr \<Rightarrow> tx_require (targetErr = ErrNoRows) targetErr)"

definition BanGuildMember :: "guild_env \<Rightarrow> guild_db \<Rightarrow> int64 \<Rightarrow> int64 \<Rightarrow> int64 \<Rightarrow> gostring \<Rightarrow> GuildBan gtx" where
  "BanGuildMember env pre guildID actorUserID userID reason =
     tx_then (tx_lift (validateMemberActorRequest guildID actorUserID))
     (tx_then (tx_require (userID > 0) (invalidRequest ''user id is required''))
     (tx_then (tx_require (userID \<noteq> actorUserID) (invalidRequest ''actor cannot ban themselves''))
     (let reason = trim_space reason in
      tx_then (tx_require (length reason \<le> maxBanReasonRunes) (invalidRequest ''ban reason is too long''))
      (tx_bind (tx_map_error mapStoreError (tx_before pre (loadMemberAuthority guildID actorUserID))) (\<lambda>authority.
       tx_then (tx_require (has authority PermissionBanMembers) PermissionDenied)
       (tx_bind (tx_lift (e_GetUser env userID)) (\<lambda>user.
       tx_then (tx_require (user = userID) NotFound)
       (tx_bind (tx_lift (getEventUserProfiles env [userID, actorUserID])) (\<lambda>profiles.
       let createdAt = e_now env in
       tx_map_error mapStoreError
         (tx_bind (loadMemberAuthority guildID actorUserID) (\<lambda>actor.
          tx_then (tx_require (has actor PermissionBanMembers) PermissionDenied)
          (tx_then (tx_require (g_OwnerID (ma_Guild actor) \<noteq> userID) (invalidRequest ''guild owner cannot be banned''))
          (tx_bind (tx_try (loadMemberAuthority guildID userID)) (\<lambda>result.
           tx_then (remove_banned guildID userID createdAt actor result)
           (tx_then (DeleteGuildMemberProfile guildID userID)
           (tx_bind (UpsertGuildBan \<lparr>b_GuildID = guildID, b_UserID = userID, b_ActorUserID = actorUserID,
                b_Reason = reason, b_CreatedAt = createdAt\<rparr>) (\<lambda>ban.
            tx_then (enqueueEvents env 1
              [newGuildMemberBannedEvent ban (profiles (b_UserID ban)) (profiles (b_ActorUserID ban)) (e_gen env 0)])
            (tx_return ban))))))))))))))))))"

definition UnbanGuildMember :: "guild_env \<Rightarrow> int64 \<Rightarrow> int64 \<Rightarrow> int64 \<Rightarrow> unit gtx" where
  "UnbanGuildMember env guildID actorUserID userID =
     tx_then (tx_lift (validateMemberActorRequest guildID actorUserID))
     (tx_then (tx_require (userID > 0) (invalidRequest ''user id is required''))
     (tx_bind (tx_lift (getEventUserProfiles env [userID])) (\<lambda>profiles.
     tx_map_error mapStoreError
       (tx_bind (loadMemberAuthority guildID actorUserID) (\<lambda>actor.
        tx_then (tx_require (has actor PermissionBanMembers) PermissionDenied)
        (tx_then (DeleteGuildBan guildID userID)
        (enqueueEvents env 1 [newGuildMemberUnbannedEvent guildID userID (e_now env) (profiles userID) (e_gen env 0)])))))))"

definition ListGuildBans ::
  "guild_cursors \<Rightarrow> int64 \<Rightarrow> int64 \<Rightarrow> gostring option \<Rightarrow> int32 \<Rightarrow> (GuildBan list \<times> gostring option) gtx" where
  "ListGuildBans gc guildID actorUserID cursor limit =
     tx_then (tx_lift (validateMemberActorRequest guildID actorUserID))
     (tx_bind (tx_lift (readCursor cursor)) (\<lambda>token.
     tx_bind (tx_lift (decodeGuildTimeIDCursor gc KindGuildBans token guildID)) (\<lambda>(beforeCreatedAt, beforeUserID).
     tx_bind (tx_lift (normalizeLimit limit)) (\<lambda>limit.
     tx_bind (tx_map_error mapStoreError (loadMemberAuthority guildID actorUserID)) (\<lambda>authority.
     tx_then (tx_require (has authority PermissionBanMembers) PermissionDenied)
     (tx_bind (tx_map_error mapStoreError (store_ListGuildBans guildID beforeCreatedAt beforeUserID (limit + 1))) (\<lambda>bans.
     let (page, hasMore) = Trim bans limit in
     tx_bind (tx_lift (setNextBanCursor gc hasMore page guildID)) (\<lambda>next.
     tx_return (page, next)))))))))"

section \<open>The handlers keep keys and outbox\<close>

lemma tx_absent_Inr [tx_simps]: "tx_absent m found s = Inr (u, s') \<longleftrightarrow> m s = Inl ErrNoRows \<and> s' = s"
  by (auto simp: tx_absent_def tx_bind_def tx_try_def tx_fail_def tx_return_def split: sum.splits if_splits)

lemma read_absent [read_rules]: "tx_rel (=) (tx_absent m found)"
  by (auto simp: tx_rel_def tx_simps)

lemma safe_absent [safe_rules]: "tx_rel safe (tx_absent m found)"
  by (rule safe_read[OF read_absent])

lemma safe_sum: "(\<And>e. tx_rel safe (f e)) \<Longrightarrow> (\<And>x. tx_rel safe (g x)) \<Longrightarrow> tx_rel safe (case r of Inl e \<Rightarrow> f e | Inr x \<Rightarrow> g x)"
  by (cases r) auto

lemma safe_remove_banned [safe_rules]: "tx_rel safe (remove_banned gid uid ts actor r)"
  unfolding remove_banned_def by (intro safe_sum handler_rules safe_rules)

lemma safe_AddGuildMember [safe_rules]: "tx_rel safe (AddGuildMember env pre gid a uid)"
  unfolding AddGuildMember_def Let_def by (intro handler_rules safe_rules)

lemma safe_members [safe_rules]:
  "tx_rel safe (UpdateGuildMember env gid a nick)" "tx_rel safe (KickGuildMember env gid a uid)"
  "tx_rel safe (LeaveGuild env gid a)" "tx_rel safe (TransferGuildOwnership env gid a uid)"
  unfolding UpdateGuildMember_def KickGuildMember_def LeaveGuild_def TransferGuildOwnership_def Let_def
  by (intro handler_rules safe_rules)+

lemma safe_bans [safe_rules]:
  "tx_rel safe (BanGuildMember env pre gid a uid reason)" "tx_rel safe (UnbanGuildMember env gid a uid)"
  unfolding BanGuildMember_def UnbanGuildMember_def Let_def by (intro handler_rules safe_sum safe_rules)+

section \<open>The handlers are steps of the specification\<close>

lemma profile_absdb:
  "UpsertGuildMemberProfile env p s = Inr (u, s') \<Longrightarrow> absdb s' = absdb s"
  "UpdateGuildMemberProfileNickname env gid uid nick s = Inr (u, s') \<Longrightarrow> absdb s' = absdb s"
  "DeleteGuildMemberProfile gid uid s = Inr (u, s') \<Longrightarrow> absdb s' = absdb s"
  by (rule core_eqD(9)[OF tx_relD[OF core_profiles(1)]] core_eqD(9)[OF tx_relD[OF core_profiles(4)]]
      core_eqD(9)[OF tx_relD[OF core_profiles(5)]], assumption)+

lemma AddGuildMember_sim: "tx_rel (sim a) (AddGuildMember env pre gid a uid)"
proof (rule sim_step[OF safe_AddGuildMember])
  fix s m s' assume run: "AddGuildMember env pre gid a uid s = Inr (m, s')" and keys: "keys_ok s"
  obtain au u1 s1 p s2 evs where au: "loadMemberAuthority gid a s = Inr (au, s)" "has au PermissionManageMembers"
    and new: "store_GetGuildMember gid uid s = Inl ErrNoRows" and c: "CreateGuildMember gid uid (e_now env) s = Inr (m, s1)"
    and p: "UpsertGuildMemberProfile env p s1 = Inr (u1, s2)" and e: "enqueueEvents env 1 evs s2 = Inr ((), s')"
    using run by (auto simp: AddGuildMember_def Let_def tx_simps read_simps)
  show "spec_step a (absdb s) (absdb s')"
    using spec_step.add_member[OF has_perms(3)[OF keys au]] CreateGuildMember_refines(1,2)[OF c] GetGuildMember_Inl[OF new]
      profile_absdb(1)[OF p] enqueueEvents_absdb[OF e] by (simp del: absdb_sel)
qed

lemma UpdateGuildMember_sim: "tx_rel (sim a) (UpdateGuildMember env gid a nick)"
proof (rule simI[OF safe_members(1)])
  fix s m s' assume run: "UpdateGuildMember env gid a nick s = Inr (m, s')"
  obtain nk s1 u1 s2 evs where c: "UpdateGuildMemberNickname env gid a nk s = Inr (m, s1)"
    and p: "UpdateGuildMemberProfileNickname env gid a (m_Nickname m) s1 = Inr (u1, s2)" and e: "enqueueEvents env 1 evs s2 = Inr ((), s')"
    using run by (auto simp: UpdateGuildMember_def tx_simps read_simps)
  show "spec_steps a (absdb s) (absdb s')"
    using UpdateGuildMemberNickname_refines(1)[OF c] profile_absdb(2)[OF p] enqueueEvents_absdb[OF e] by simp
qed

text \<open>Kicking, leaving and banning remove a member in the same way.\<close>

lemma remove_member_refines:
  assumes keys: "keys_ok s" and now: "0 < ts" and d1: "DeleteGuildMemberRoleAssignments gid uid s = Inr (u1, s1)"
    and d2: "DeleteGuildChannelPermissionOverwritesForAppliesTo gid OVERWRITE_MEMBER uid s1 = Inr (u2, s2)"
    and r: "RemoveGuildMember gid uid ts s2 = Inr (m, s3)"
  shows "absdb s3 = remove_member gid uid (absdb s)" "(gid, uid) \<in> sp_members (absdb s)"
proof -
  have k1: "keys_ok s1" using tx_relD[OF keys_member_roles(3) d1] keys by simp
  note a = DeleteGuildMemberRoleAssignments_refines[OF d1] DeleteOverwritesFor_refines[OF k1 d2] RemoveGuildMember_refines(1,2)[OF now r]
  show "absdb s3 = remove_member gid uid (absdb s)" using a by (simp add: remove_member_def del: absdb_sel)
  show "(gid, uid) \<in> sp_members (absdb s)" using a by (simp del: absdb_sel)
qed

lemma KickGuildMember_sim:
  assumes now: "0 < e_now env"
  shows "tx_rel (sim a) (KickGuildMember env gid a uid)"
proof (rule sim_step[OF safe_members(2)])
  fix s u s' assume run: "KickGuildMember env gid a uid s = Inr (u, s')" and keys: "keys_ok s"
  obtain au b u1 s1 u2 s2 m s3 u3 s4 where au: "loadMemberAuthority gid a s = Inr (au, s)" "has au PermissionKickMembers"
    and b: "loadMemberAuthority gid uid s = Inr (b, s)" "\<not> ma_IsOwner b" "canManageMember au b"
    and d: "DeleteGuildMemberRoleAssignments gid uid s = Inr (u1, s1)"
      "DeleteGuildChannelPermissionOverwritesForAppliesTo gid OVERWRITE_MEMBER uid s1 = Inr (u2, s2)"
      "RemoveGuildMember gid uid (e_now env) s2 = Inr (m, s3)"
    and p: "DeleteGuildMemberProfile gid uid s3 = Inr (u3, s4)"
    and e: "enqueueEvents env 1 [newGuildMemberRemovedEvent m (e_gen env 0)] s4 = Inr (u, s')"
    using run by (auto simp: KickGuildMember_def Let_def tx_simps read_simps)
  note r = remove_member_refines[OF keys now d] and b' = loadMemberAuthority_refines[OF keys b(1)]
  show "spec_step a (absdb s) (absdb s')"
    using spec_step.kick[OF has_perms(4)[OF keys au] r(2) _ canManageMember_outranks[OF keys au(1) b(1,3)]] b(2) b'(4) r(1)
      profile_absdb(3)[OF p] enqueueEvents_absdb[OF e] by (simp del: absdb_sel)
qed

lemma LeaveGuild_sim:
  assumes now: "0 < e_now env"
  shows "tx_rel (sim a) (LeaveGuild env gid a)"
proof (rule sim_step[OF safe_members(3)])
  fix s u s' assume run: "LeaveGuild env gid a s = Inr (u, s')" and keys: "keys_ok s"
  obtain g u1 s1 u2 s2 m s3 u3 s4 where g: "GetGuildForMember gid a s = Inr (g, s)" "g_OwnerID g \<noteq> a"
    and d: "DeleteGuildMemberRoleAssignments gid a s = Inr (u1, s1)"
      "DeleteGuildChannelPermissionOverwritesForAppliesTo gid OVERWRITE_MEMBER a s1 = Inr (u2, s2)"
      "RemoveGuildMember gid a (e_now env) s2 = Inr (m, s3)"
    and p: "DeleteGuildMemberProfile gid a s3 = Inr (u3, s4)"
    and e: "enqueueEvents env 1 [newGuildMemberRemovedEvent m (e_gen env 0)] s4 = Inr (u, s')"
    using run by (auto simp: LeaveGuild_def Let_def tx_simps read_simps)
  note r = remove_member_refines[OF keys now d] and g' = GetGuildForMember_refines[OF keys g(1)]
  show "spec_step a (absdb s) (absdb s')"
    using spec_step.leave[OF r(2)] g'(2) g(2) r(1) profile_absdb(3)[OF p] enqueueEvents_absdb[OF e] by (simp del: absdb_sel)
qed

lemma TransferGuildOwnership_sim: "tx_rel (sim a) (TransferGuildOwnership env gid a uid)"
proof (rule sim_step[OF safe_members(4)])
  fix s g' s' assume run: "TransferGuildOwnership env gid a uid s = Inr (g', s')" and keys: "keys_ok s"
  obtain m s1 u where m: "store_GetGuildMember gid uid s = Inr (m, s)"
    and t: "store_TransferGuildOwnership env gid a uid s = Inr (g', s1)" and e: "enqueueEvents env 1 [newGuildUpdatedEvent g' (e_gen env 0)] s1 = Inr (u, s')"
    using run by (auto simp: TransferGuildOwnership_def tx_simps read_simps)
  show "spec_step a (absdb s) (absdb s')"
    using spec_step.transfer[OF TransferGuildOwnership_refines(2)[OF keys t]] GetGuildMember_Inr[OF m]
      TransferGuildOwnership_refines(1)[OF keys t] enqueueEvents_absdb[OF e] by (simp del: absdb_sel)
qed

lemma BanGuildMember_sim:
  assumes now: "0 < e_now env"
  shows "tx_rel (sim a) (BanGuildMember env pre gid a uid reason)"
proof (rule sim_step[OF safe_bans(1)])
  fix s b s' assume run: "BanGuildMember env pre gid a uid reason s = Inr (b, s')" and keys: "keys_ok s" and inv: "spec_inv (absdb s)"
  obtain au r u1 s1 u2 s2 s3 evs u3 where au: "loadMemberAuthority gid a s = Inr (au, s)" "has au PermissionBanMembers"
    and ne: "uid \<noteq> a" and no: "g_OwnerID (ma_Guild au) \<noteq> uid"
    and r: "tx_try (loadMemberAuthority gid uid) s = Inr (r, s)"
    and c: "remove_banned gid uid (e_now env) au r s = Inr (u1, s1)"
    and p: "DeleteGuildMemberProfile gid uid s1 = Inr (u2, s2)"
    and ub: "UpsertGuildBan \<lparr>b_GuildID = gid, b_UserID = uid, b_ActorUserID = a, b_Reason = trim_space reason, b_CreatedAt = e_now env\<rparr> s2 = Inr (b, s3)"
    and e: "enqueueEvents env 1 evs s3 = Inr (u3, s')"
    using run unfolding BanGuildMember_def Let_def
    by (simp add: tx_then_Inr tx_bind_Inr tx_map_error_Inr tx_require_Inr tx_lift_Inr tx_return_Inr tx_before_Inr read_simps
        reads.rel_try[OF read_loadMemberAuthority, THEN read_norm]) metis
  have "((gid, uid) \<in> sp_members (absdb s) \<longrightarrow> outranks (absdb s) gid a uid) \<and>
      absdb s1 = (if (gid, uid) \<in> sp_members (absdb s) then remove_member gid uid (absdb s) else absdb s)"
  proof (cases r)
    case (Inl x)
    then have l: "loadMemberAuthority gid uid s = Inl x" and s1: "s1 = s" using r c by (auto simp: remove_banned_def tx_simps)
    have "sp_owner (absdb s) gid \<noteq> None" using loadMemberAuthority_refines(6)[OF keys au(1)] by simp
    then have "(gid, uid) \<notin> sp_members (absdb s)" using loadMemberAuthority_Inl[OF keys l] by (elim conjE disjE) (simp_all del: absdb_sel)
    then show ?thesis using s1 by simp
  next
    case (Inr t)
    then have l: "loadMemberAuthority gid uid s = Inr (t, s)" using r by (auto simp: tx_simps)
    obtain v1 t1 v2 t2 m where m: "canManageMember au t" "DeleteGuildMemberRoleAssignments gid uid s = Inr (v1, t1)"
      "DeleteGuildChannelPermissionOverwritesForAppliesTo gid OVERWRITE_MEMBER uid t1 = Inr (v2, t2)"
      "RemoveGuildMember gid uid (e_now env) t2 = Inr (m, s1)"
      using c Inr by (auto simp: remove_banned_def tx_simps)
    note rm = remove_member_refines[OF keys now m(2-4)]
    show ?thesis using rm canManageMember_outranks[OF keys au(1) l m(1)] by (simp del: absdb_sel)
  qed
  moreover have "sp_owner (absdb s) gid \<noteq> Some uid" using loadMemberAuthority_refines(6)[OF keys au(1)] no by simp
  moreover have "sp_banned (absdb s1) = sp_banned (absdb s)" using calculation(1) by (simp add: remove_member_def del: absdb_sel split: if_splits)
  ultimately show "spec_step a (absdb s) (absdb s')"
    using spec_step.ban[OF has_perms(6)[OF keys au] ne[symmetric], of "absdb s1"] UpsertGuildBan_refines(1)[OF ub] profile_absdb(3)[OF p]
      enqueueEvents_absdb[OF e] by (simp del: absdb_sel)
qed

lemma UnbanGuildMember_sim: "tx_rel (sim a) (UnbanGuildMember env gid a uid)"
proof (rule sim_step[OF safe_bans(2)])
  fix s u s' assume run: "UnbanGuildMember env gid a uid s = Inr (u, s')" and keys: "keys_ok s"
  obtain au u1 s1 evs where au: "loadMemberAuthority gid a s = Inr (au, s)" "has au PermissionBanMembers"
    and d: "DeleteGuildBan gid uid s = Inr (u1, s1)" and e: "enqueueEvents env 1 evs s1 = Inr (u, s')"
    using run by (auto simp: UnbanGuildMember_def tx_simps read_simps)
  show "spec_step a (absdb s) (absdb s')"
    using spec_step.unban[OF has_perms(6)[OF keys au], of uid] DeleteGuildBan_refines(1)[OF d] enqueueEvents_absdb[OF e] by (simp del: absdb_sel)
qed

end
