(* ===== verification/Guild_Lifecycle.thy ===== *)
theory Guild_Lifecycle
  imports Guild_Members Guild_Channels
begin

text \<open>
  Guilds and how one gets into them (\<^verbatim>\<open>server/guilds.go\<close>, \<^verbatim>\<open>server/invites.go\<close>,
  \<^verbatim>\<open>server/icon_uploads.go\<close>): creation with the default role and channels, metadata, deletion, invites,
  and icon uploads through the media service.
\<close>

section \<open>Creating a guild\<close>

definition guildMemberProfilePlaceholder :: "int64 \<Rightarrow> int64 \<Rightarrow> gostring \<Rightarrow> GuildMemberProfile" where
  "guildMemberProfilePlaceholder guildID userID nickname =
     \<lparr>p_GuildID = guildID, p_UserID = userID, p_Username = [], p_Name = [], p_Nickname = nickname, p_UsernameSearch = [],
      p_NameSearch = [], p_NicknameSearch = [], p_AvatarAssetID = 0, p_ProfileUpdatedAt = 0\<rparr>"

definition default_channels :: "guild_env \<Rightarrow> (int64 \<times> gostring \<times> int32 \<times> int64) list" where
  "default_channels env =
     (let textCategoryID = e_gen env 1; voiceCategoryID = e_gen env 2 in
      [(textCategoryID, str ''Text Channels'', CHANNEL_CATEGORY, 0),
       (e_gen env 3, str ''general'', CHANNEL_TEXT, textCategoryID),
       (voiceCategoryID, str ''Voice Channels'', CHANNEL_CATEGORY, 0),
       (e_gen env 4, str ''General'', CHANNEL_VOICE, voiceCategoryID)])"

definition create_default_channel ::
  "guild_env \<Rightarrow> int64 \<Rightarrow> int64 \<Rightarrow> nat \<times> int64 \<times> gostring \<times> int32 \<times> int64 \<Rightarrow> unit gtx" where
  "create_default_channel env guildID createdAt = (\<lambda>(position, channelID, name, channelType, parentID).
     tx_then (CheckResourceQuota (quota QuotaGuildChannels guildID (Channels (e_Limits env))))
     (tx_then (store_CreateGuildChannel channelID guildID name channelType (wrap32 (int position)) [] parentID createdAt)
     (tx_then (upsertDefaultEveryoneOverwrite channelID guildID createdAt (Overwrites (e_Limits env)))
     (tx_return ()))))"

definition createDefaultChannels :: "guild_env \<Rightarrow> int64 \<Rightarrow> int64 \<Rightarrow> unit gtx" where
  "createDefaultChannels env guildID createdAt =
     tx_then (tx_forM (create_default_channel env guildID createdAt) (enumerate 0 (default_channels env))) (tx_return ())"

text \<open>The result of the transaction says whether the guild is new. The projected profile is written after it, best effort.\<close>

definition new_guild :: "guild_env \<Rightarrow> int64 \<Rightarrow> int64 \<Rightarrow> gostring \<Rightarrow> Guild gtx" where
  "new_guild env guildID ownerID name =
     (let createdAt = e_now env in
      tx_then (CheckResourceQuota (quota QuotaOwnedGuilds ownerID (OwnedGuilds (e_Limits env))))
      (tx_then (CheckResourceQuota ((quota QuotaJoinedGuilds ownerID (JoinedGuilds (e_Limits env)))\<lparr>q_TargetID := guildID\<rparr>))
      (tx_bind (store_CreateGuild guildID ownerID name createdAt) (\<lambda>created.
       tx_bind (CreateGuildMember guildID ownerID createdAt) (\<lambda>member.
       tx_then (UpsertGuildMemberProfile env (guildMemberProfilePlaceholder guildID (m_UserID member) (m_Nickname member)))
       (tx_then (CreateDefaultRole guildID createdAt)
       (tx_then (createDefaultChannels env guildID createdAt)
       (tx_then (enqueueEvents env 6 [newGuildCreatedEvent created (e_gen env 5)])
       (tx_return created)))))))))"

definition hydrate_owner_profile :: "guild_env \<Rightarrow> int64 \<Rightarrow> Guild \<Rightarrow> unit gtx" where
  "hydrate_owner_profile env ownerID created =
     (case getEventUserProfiles env [ownerID] of
        Inl _ \<Rightarrow> tx_return ()
      | Inr profiles \<Rightarrow>
          tx_then (tx_try (UpdateGuildMemberProfilesByUser env (guildMemberProfileFromProto (g_ID created) [] (profiles ownerID))))
          (tx_return ()))"

definition CreateGuild :: "guild_env \<Rightarrow> int64 \<Rightarrow> gostring \<Rightarrow> gostring option \<Rightarrow> Guild gtx" where
  "CreateGuild env ownerID name key =
     tx_then (tx_require (ownerID > 0) (invalidRequest ''owner id is required''))
     (tx_bind (tx_lift (normalizeGuildName name)) (\<lambda>name.
     tx_then (tx_lift (validateIdempotencyKey key (KeyLength (e_Idempotency env))))
     (let guildID = e_gen env 0;
          requestHash = e_digest env (GuildFingerprint name)
      in tx_bind (tx_map_error mapStoreError
        (with_claim env ownerID createGuildOperation key requestHash guildID (CreateGuildTTL (e_Idempotency env))
          (\<lambda>resourceID. tx_bind (store_GetGuild resourceID) (\<lambda>guild. tx_return (guild, False)))
          (tx_bind (new_guild env guildID ownerID name) (\<lambda>created. tx_return (created, True))))) (\<lambda>(created, createdNewGuild).
      tx_then (if createdNewGuild then hydrate_owner_profile env ownerID created else tx_return ())
      (tx_return created)))))"

definition GetGuild :: "int64 \<Rightarrow> int64 \<Rightarrow> Guild gtx" where
  "GetGuild guildID userID =
     tx_then (tx_require (guildID > 0) (invalidRequest ''guild id is required''))
     (tx_then (tx_require (userID > 0) (invalidRequest ''user id is required''))
     (tx_map_error mapStoreError (GetGuildForMember guildID userID)))"

definition ListUserGuilds :: "guild_cursors \<Rightarrow> int64 \<Rightarrow> gostring option \<Rightarrow> int32 \<Rightarrow> (Guild list \<times> gostring option) gtx" where
  "ListUserGuilds gc userID cursor limit =
     tx_then (tx_require (userID > 0) (invalidRequest ''user id is required''))
     (tx_bind (tx_lift (readCursor cursor)) (\<lambda>token.
     tx_bind (tx_lift (decodeUserGuildsCursor gc token userID)) (\<lambda>beforeID.
     tx_bind (tx_lift (normalizeLimit limit)) (\<lambda>limit.
     tx_bind (store_ListUserGuilds userID beforeID (limit + 1)) (\<lambda>guilds.
     let (page, hasMore) = Trim guilds limit in
     tx_bind (tx_lift (setNextUserGuildsCursor gc hasMore page userID)) (\<lambda>next.
     tx_return (page, next)))))))"

definition UpdateGuild :: "guild_env \<Rightarrow> int64 \<Rightarrow> int64 \<Rightarrow> gostring option \<Rightarrow> gostring option \<Rightarrow> Guild gtx" where
  "UpdateGuild env guildID actorUserID name description =
     tx_then (tx_require (guildID > 0) (invalidRequest ''guild id is required''))
     (tx_then (tx_require (actorUserID > 0) (invalidRequest ''actor user id is required''))
     (tx_then (tx_require (name \<noteq> None \<or> description \<noteq> None) (invalidRequest ''at least one field must be updated''))
     (tx_bind (tx_lift (optional normalizeGuildName name)) (\<lambda>name.
     tx_bind (tx_lift (optional normalizeGuildDescription description)) (\<lambda>description.
     tx_map_error mapStoreError
       (tx_bind (loadMemberAuthority guildID actorUserID) (\<lambda>authority.
        tx_then (tx_require (has authority PermissionManageGuild) PermissionDenied)
        (tx_bind (store_UpdateGuild env guildID name description) (\<lambda>updated.
         tx_then (enqueueEvents env 1 [newGuildUpdatedEvent updated (e_gen env 0)])
         (tx_return updated))))))))))"

definition DeleteGuild :: "guild_env \<Rightarrow> int64 \<Rightarrow> int64 \<Rightarrow> unit gtx" where
  "DeleteGuild env guildID actorUserID =
     tx_then (tx_require (guildID > 0) (invalidRequest ''guild id is required''))
     (tx_then (tx_require (actorUserID > 0) (invalidRequest ''actor user id is required''))
     (let deletedAt = e_now env in
      tx_map_error mapStoreError
        (tx_bind (GetGuildForMember guildID actorUserID) (\<lambda>guild.
         tx_then (tx_require (g_OwnerID guild = actorUserID) PermissionDenied)
         (tx_bind (store_DeleteGuild guildID deletedAt) (\<lambda>deleted.
          tx_then (DeleteGuildMembers guildID deletedAt)
          (tx_then (DeleteGuildMemberProfiles guildID)
          (tx_then (DeleteAllGuildRoleAssignments guildID)
          (tx_then (DeleteAllGuildChannelPermissionOverwrites guildID)
          (tx_then (DeleteGuildChannels guildID deletedAt)
          (tx_then (DeleteGuildBans guildID)
          (tx_then (DeleteGuildInvites guildID)
          (tx_then (DeleteGuildRoles guildID deletedAt)
          (enqueueEvents env 1 [newGuildDeletedEvent deleted (e_gen env 0)]))))))))))))))"

section \<open>Invites\<close>

abbreviation (input) maxInviteMaxUses :: int where "maxInviteMaxUses \<equiv> 10000"
abbreviation (input) inviteCodeLength :: nat where "inviteCodeLength \<equiv> 10"
abbreviation (input) maxInviteCodeAttempts :: nat where "maxInviteCodeAttempts \<equiv> 3"

definition inviteCodeAlphabet :: gostring where
  "inviteCodeAlphabet = str ''abcdefghijklmnopqrstuvwxyzABCDEFGHIJKLMNOPQRSTUVWXYZ0123456789''"

text \<open>\<^verbatim>\<open>rand.Int\<close> draws an index below the size of the alphabet; \<open>random i\<close> is what the source yields for place \<open>i\<close>.\<close>

definition newInviteCode :: "(nat \<Rightarrow> nat) \<Rightarrow> gostring" where
  "newInviteCode random =
     map (\<lambda>i. inviteCodeAlphabet ! (random i mod length inviteCodeAlphabet)) [0..<inviteCodeLength]"

definition inviteUsable :: "GuildInvite \<Rightarrow> int64 \<Rightarrow> bool" where
  "inviteUsable invite now =
     (if i_ExpiresAt invite \<noteq> 0 \<and> i_ExpiresAt invite \<le> now then False
      else if i_MaxUses invite \<noteq> 0 \<and> i_Uses invite \<ge> i_MaxUses invite then False
      else True)"

definition normalizeInviteCode :: "gostring \<Rightarrow> guild_error + gostring" where
  "normalizeInviteCode code =
     (let code = trim_space code in if code = [] then Inl (invalidRequest ''invite code is required'') else Inr code)"

text \<open>\<^verbatim>\<open>if errors.Is(err, sql.ErrNoRows) { return inviteNotFound() }\<close>.\<close>

definition or_invite_not_found :: "'a gtx \<Rightarrow> 'a gtx" where
  "or_invite_not_found m = tx_map_error (\<lambda>e. if e = ErrNoRows then InviteNotFound else e) m"

text \<open>One attempt with its own code and identifier, and the loop around it.\<close>

definition create_invite_attempt ::
  "guild_env \<Rightarrow> int64 \<Rightarrow> int64 \<Rightarrow> int32 \<Rightarrow> int64 \<Rightarrow> gostring option \<Rightarrow> nat \<Rightarrow> GuildInvite gtx" where
  "create_invite_attempt env guildID actorUserID maxUses expiresInMs key attempt =
     (let createdAt = e_now env;
          expiresAt = (if expiresInMs > 0 then wrap64 (createdAt + expiresInMs) else 0);
          requestHash = e_digest env (InviteFingerprint guildID maxUses expiresInMs);
          code = newInviteCode (e_rand env attempt);
          inviteID = e_gen env (attempt - 1)
      in tx_bind (loadMemberAuthority guildID actorUserID) (\<lambda>authority.
         tx_then (tx_require (has authority PermissionCreateInvite) PermissionDenied)
         (with_claim env actorUserID createGuildInviteOperation key requestHash inviteID
            (CreateGuildInviteTTL (e_Idempotency env)) GetGuildInviteByID
            (tx_then (CheckResourceQuota ((quota QuotaActiveInvites guildID (ActiveInvites (e_Limits env)))\<lparr>q_Now := createdAt\<rparr>))
            (store_CreateGuildInvite \<lparr>i_ID = inviteID, i_Code = code, i_GuildID = guildID, i_CreatorUserID = actorUserID,
               i_MaxUses = maxUses, i_Uses = 0, i_ExpiresAt = expiresAt, i_CreatedAt = createdAt\<rparr>)))))"

function invite_attempts :: "(nat \<Rightarrow> GuildInvite gtx) \<Rightarrow> nat \<Rightarrow> GuildInvite gtx" where
  "invite_attempts body attempt = (\<lambda>s.
     case body attempt s of
       Inr r \<Rightarrow> Inr r
     | Inl e \<Rightarrow>
         if e \<noteq> UniqueViolation \<or> attempt \<ge> maxInviteCodeAttempts then Inl (mapStoreError e)
         else invite_attempts body (Suc attempt) s)"
  by pat_completeness auto
termination
  by (relation "measure (\<lambda>(body, attempt). maxInviteCodeAttempts - attempt)") auto

declare invite_attempts.simps [simp del]

definition CreateGuildInvite ::
  "guild_env \<Rightarrow> int64 \<Rightarrow> int64 \<Rightarrow> int32 \<Rightarrow> int64 \<Rightarrow> gostring option \<Rightarrow> GuildInvite gtx" where
  "CreateGuildInvite env guildID actorUserID maxUses expiresInMs key =
     tx_then (tx_lift (validateMemberActorRequest guildID actorUserID))
     (tx_then (tx_require (\<not> (maxUses < 0 \<or> maxUses > maxInviteMaxUses)) (invalidRequest ''max uses is out of range''))
     (tx_then (tx_require (\<not> expiresInMs < 0) (invalidRequest ''expires in must not be negative''))
     (tx_then (tx_lift (validateIdempotencyKey key (KeyLength (e_Idempotency env))))
     (invite_attempts (create_invite_attempt env guildID actorUserID maxUses expiresInMs key) 1))))"

record GuildInvitePreview =
  pv_Code :: gostring
  pv_GuildID :: int64
  pv_GuildName :: gostring
  pv_GuildDescription :: gostring
  pv_GuildIconAssetID :: int64
  pv_MemberCount :: int64
  pv_ExpiresAt :: int64

definition GetGuildInvite :: "guild_env \<Rightarrow> gostring \<Rightarrow> GuildInvitePreview gtx" where
  "GetGuildInvite env code =
     tx_bind (tx_lift (normalizeInviteCode code)) (\<lambda>code.
     tx_bind (or_invite_not_found (store_GetGuildInvite code)) (\<lambda>invite.
     tx_then (tx_require (inviteUsable invite (e_now env)) InviteNotFound)
     (tx_bind (or_invite_not_found (store_GetGuild (i_GuildID invite))) (\<lambda>guild.
     tx_bind (CountGuildMembers (i_GuildID invite)) (\<lambda>memberCount.
     tx_return \<lparr>pv_Code = i_Code invite, pv_GuildID = g_ID guild, pv_GuildName = g_Name guild,
       pv_GuildDescription = g_Description guild, pv_GuildIconAssetID = g_IconAssetID guild,
       pv_MemberCount = memberCount, pv_ExpiresAt = i_ExpiresAt invite\<rparr>)))))"

definition ListGuildInvites ::
  "guild_cursors \<Rightarrow> int64 \<Rightarrow> int64 \<Rightarrow> gostring option \<Rightarrow> int32 \<Rightarrow> (GuildInvite list \<times> gostring option) gtx" where
  "ListGuildInvites gc guildID actorUserID cursor limit =
     tx_then (tx_lift (validateMemberActorRequest guildID actorUserID))
     (tx_bind (tx_lift (readCursor cursor)) (\<lambda>token.
     tx_bind (tx_lift (decodeGuildIDCursor gc KindGuildInvites token guildID)) (\<lambda>beforeID.
     tx_bind (tx_lift (normalizeLimit limit)) (\<lambda>limit.
     tx_bind (tx_map_error mapStoreError (loadMemberAuthority guildID actorUserID)) (\<lambda>authority.
     tx_then (tx_require (has authority PermissionManageGuild) PermissionDenied)
     (tx_bind (tx_map_error mapStoreError (store_ListGuildInvites guildID beforeID (limit + 1))) (\<lambda>invites.
     let (page, hasMore) = Trim invites limit in
     tx_bind (tx_lift (setNextGuildIDCursor gc KindGuildInvites hasMore page guildID i_ID)) (\<lambda>next.
     tx_return (page, next)))))))))"

definition DeleteGuildInvite :: "gostring \<Rightarrow> int64 \<Rightarrow> unit gtx" where
  "DeleteGuildInvite code actorUserID =
     tx_bind (tx_lift (normalizeInviteCode code)) (\<lambda>code.
     tx_then (tx_require (actorUserID > 0) (invalidRequest ''actor user id is required''))
     (tx_map_error mapStoreError
       (tx_bind (or_invite_not_found (store_GetGuildInvite code)) (\<lambda>invite.
        tx_bind (loadMemberAuthority (i_GuildID invite) actorUserID) (\<lambda>authority.
        tx_then (tx_require (i_CreatorUserID invite = actorUserID \<or> has authority PermissionManageGuild) PermissionDenied)
        (store_DeleteGuildInvite code))))))"

definition JoinGuildByInvite :: "guild_env \<Rightarrow> gostring \<Rightarrow> int64 \<Rightarrow> (Guild \<times> GuildMember) gtx" where
  "JoinGuildByInvite env code userID =
     tx_bind (tx_lift (normalizeInviteCode code)) (\<lambda>code.
     tx_then (tx_require (userID > 0) (invalidRequest ''user id is required''))
     (tx_bind (tx_lift (getEventUserProfiles env [userID])) (\<lambda>profiles.
     let joinedAt = e_now env in
     tx_map_error mapStoreError
       (tx_bind (or_invite_not_found (store_GetGuildInvite code)) (\<lambda>preview.
        tx_then (tx_require (inviteUsable preview joinedAt) InviteNotFound)
        (tx_then (tx_absent (store_GetGuildMember (i_GuildID preview) userID) ErrMemberAlreadyExists)
        (tx_then (CheckResourceQuota ((quota QuotaJoinedGuilds userID (JoinedGuilds (e_Limits env)))\<lparr>q_TargetID := i_GuildID preview\<rparr>))
        (tx_bind (or_invite_not_found (ConsumeGuildInvite code joinedAt)) (\<lambda>invite.
        tx_bind (or_invite_not_found (store_GetGuild (i_GuildID invite))) (\<lambda>guild.
        tx_then (tx_absent (GetGuildBan (i_GuildID invite) userID) ErrUserBanned)
        (tx_bind (CreateGuildMember (i_GuildID invite) userID joinedAt) (\<lambda>member.
         tx_then (UpsertGuildMemberProfile env (guildMemberProfileFromProto (i_GuildID invite) (m_Nickname member) (profiles userID)))
         (tx_then (enqueueEvents env 1 [newGuildMemberJoinedEvent member (profiles (m_UserID member)) (e_gen env 0)])
         (tx_return (guild, member)))))))))))))))"

section \<open>Icon uploads\<close>

definition requireManageGuild :: "int64 \<Rightarrow> int64 \<Rightarrow> unit gtx" where
  "requireManageGuild guildID actorUserID =
     tx_then (tx_require (guildID > 0) (invalidRequest ''guild id is required''))
     (tx_then (tx_require (actorUserID > 0) (invalidRequest ''actor user id is required''))
     (tx_bind (loadMemberAuthority guildID actorUserID) (\<lambda>authority.
      tx_require (has authority PermissionManageGuild) PermissionDenied)))"

definition getGuildIconUpload :: "guild_env \<Rightarrow> int64 \<Rightarrow> int64 \<Rightarrow> int64 \<Rightarrow> Asset gtx" where
  "getGuildIconUpload env guildID actorUserID uploadID =
     tx_then (tx_require (uploadID > 0) (invalidRequest ''upload id is required''))
     (tx_bind (tx_lift (e_GetAsset env uploadID)) (\<lambda>asset.
      tx_then (tx_require (as_Kind asset = ASSET_KIND_GUILD_ICON \<and> as_CreatedByUserID asset = actorUserID \<and> as_SubjectID asset = guildID)
        NotGuildIconUpload)
      (tx_return asset)))"

definition CreateGuildIconUpload ::
  "guild_env \<Rightarrow> int64 \<Rightarrow> int64 \<Rightarrow> int64 \<Rightarrow> gostring \<Rightarrow> gostring option \<Rightarrow> CreateUploadResponse gtx" where
  "CreateGuildIconUpload env guildID actorUserID expectedSize contentType key =
     tx_then (requireManageGuild guildID actorUserID)
     (tx_lift (e_CreateUpload env \<lparr>cu_ActorUserID = actorUserID, cu_ExpectedSize = expectedSize, cu_ContentType = contentType,
        cu_GuildIconGuildID = guildID, cu_IdempotencyKey = key\<rparr>))"

definition CompleteGuildIconUpload :: "guild_env \<Rightarrow> int64 \<Rightarrow> int64 \<Rightarrow> int64 \<Rightarrow> Guild gtx" where
  "CompleteGuildIconUpload env guildID actorUserID uploadID =
     tx_bind (getGuildIconUpload env guildID actorUserID uploadID) (\<lambda>asset.
     tx_bind (tx_lift (e_CompleteUpload env actorUserID uploadID)) (\<lambda>assetID.
     tx_then (tx_require (assetID = as_ID asset) (Internal (str ''media returned an unexpected asset id'')))
     (tx_map_error mapStoreError
       (tx_bind (loadMemberAuthority guildID actorUserID) (\<lambda>authority.
        tx_then (tx_require (has authority PermissionManageGuild) PermissionDenied)
        (tx_bind (UpdateGuildIcon env guildID assetID) (\<lambda>updated.
         tx_then (enqueueEvents env 1 [newGuildUpdatedEvent updated (e_gen env 0)])
         (tx_return updated))))))))"

definition AbortGuildIconUpload :: "guild_env \<Rightarrow> int64 \<Rightarrow> int64 \<Rightarrow> int64 \<Rightarrow> unit gtx" where
  "AbortGuildIconUpload env guildID actorUserID uploadID =
     tx_then (requireManageGuild guildID actorUserID)
     (tx_then (getGuildIconUpload env guildID actorUserID uploadID)
     (tx_lift (e_AbortUpload env actorUserID uploadID)))"

section \<open>Safety\<close>

lemma safe_createDefaultChannels: "tx_rel safe (createDefaultChannels env gid ts)"
  unfolding createDefaultChannels_def create_default_channel_def
  by (intro handler_rules safe_rules safe_upsertDefaultEveryoneOverwrite)

lemma safe_new_guild: "tx_rel safe (new_guild env gid owner name)"
  unfolding new_guild_def Let_def by (intro handler_rules safe_rules safe_createDefaultChannels)

lemma safe_hydrate_owner_profile: "tx_rel safe (hydrate_owner_profile env owner g)"
  unfolding hydrate_owner_profile_def by (intro safe_sum handler_rules safe_rules)

lemma safe_CreateGuild: "tx_rel safe (CreateGuild env owner name key)"
  unfolding CreateGuild_def Let_def by (intro handler_rules safe_rules safe_new_guild safe_hydrate_owner_profile)

lemma safe_UpdateGuild: "tx_rel safe (UpdateGuild env gid a nm desc)"
  unfolding UpdateGuild_def by (intro handler_rules safe_rules)

lemma safe_DeleteGuild: "tx_rel safe (DeleteGuild env gid a)"
  unfolding DeleteGuild_def Let_def by (intro handler_rules safe_rules)

lemma rel_invite_attempts:
  assumes "\<And>n. tx_rel R (body n)"
  shows "tx_rel R (invite_attempts body n)"
  using assms
proof (induction "3 - n" arbitrary: n rule: less_induct)
  case less
  have "n < 3 \<Longrightarrow> tx_rel R (invite_attempts body (Suc n))" using less by auto
  then show ?case using less.prems[of n] unfolding tx_rel_def
    by (subst invite_attempts.simps) (auto simp: not_le split: sum.splits if_splits)
qed

lemma safe_invites:
  "tx_rel safe (CreateGuildInvite env gid a uses ms key)" "tx_rel safe (DeleteGuildInvite code a)"
  "tx_rel safe (JoinGuildByInvite env code a)"
  unfolding CreateGuildInvite_def DeleteGuildInvite_def JoinGuildByInvite_def or_invite_not_found_def Let_def create_invite_attempt_def
  by (intro handler_rules safe_rules rel_invite_attempts)+

lemma safe_CompleteGuildIconUpload: "tx_rel safe (CompleteGuildIconUpload env gid a up)"
  unfolding CompleteGuildIconUpload_def getGuildIconUpload_def by (intro handler_rules safe_rules)

section \<open>Simulation\<close>

lemma sim_with_claim:
  "(\<And>rid. tx_rel (sim a) (existing rid)) \<Longrightarrow> tx_rel (sim a) create \<Longrightarrow>
     tx_rel (sim a) (with_claim env actor operation key requestHash resourceID ttl existing create)"
  unfolding with_claim_def by (cases key) (auto intro!: sim.rel_rules sim_core[OF core_idempotency])

lemma owner_may: "sp_owner \<sigma> g = Some a \<Longrightarrow> (g, a) \<in> sp_members \<sigma> \<Longrightarrow> n < 12 \<Longrightarrow> may \<sigma> g a n"
  by (simp add: may_def eff_def)

text \<open>The owner adds one of the default channels.\<close>

lemma create_default_channel_step:
  assumes keys: "keys_ok s" and inv: "spec_inv (absdb s)" and own: "sp_owner (absdb s) gid = Some a"
    and ty: "ty \<in> {1, 2, 3}" and par: "parent_ok (absdb s) gid ty par"
    and run: "create_default_channel env gid ts (k, cid, name, ty, par) s = Inr (u, s')"
  shows "spec_steps a (absdb s) (absdb s')" "keys_ok s'" "spec_inv (absdb s')" "sp_owner (absdb s') gid = Some a"
    "sp_channels (absdb s') cid = Some \<lparr>ci_guild = gid, ci_type = ty, ci_parent = par\<rparr>"
proof -
  obtain ch s1 x where c: "store_CreateGuildChannel cid gid name ty (wrap32 (int k)) [] par ts s = Inr (ch, s1)"
    and w: "upsertDefaultEveryoneOverwrite cid gid ts (Overwrites (e_Limits env)) s1 = Inr (x, s')"
    using run by (auto simp: create_default_channel_def tx_simps read_simps)
  note c' = CreateGuildChannel_refines[OF c]
  have "(gid, a) \<in> sp_members (absdb s)" using inv own by (auto simp: spec_inv_def members_inv_def simp del: absdb_sel)
  then have step: "spec_step a (absdb s) (absdb s')"
    using create_channel_step[OF keys inv owner_may[OF own] ty par c] w c'(2,3) by simp
  then show "spec_steps a (absdb s) (absdb s')" by blast
  then show "spec_inv (absdb s')" using spec_steps_inv inv by blast
  have k1: "keys_ok s1" using tx_relD[OF keys_channels(1) c] keys by simp
  then show "keys_ok s'" using tx_relD[OF safe_upsertDefaultEveryoneOverwrite w] by (simp add: safe_def)
  have eq: "sp_owner (absdb s') = sp_owner (absdb s1)" "sp_channels (absdb s') = sp_channels (absdb s1)"
    using w UpsertOverwrite_refines(1)[OF k1]
    by (auto simp: upsertDefaultEveryoneOverwrite_def tx_simps read_simps simp del: absdb_sel)
  show "sp_owner (absdb s') gid = Some a" "sp_channels (absdb s') cid = Some \<lparr>ci_guild = gid, ci_type = ty, ci_parent = par\<rparr>"
    using eq c'(1) own by (simp_all del: absdb_sel)
qed

lemma createDefaultChannels_steps:
  assumes keys: "keys_ok s" and inv: "spec_inv (absdb s)" and own: "sp_owner (absdb s) gid = Some a"
    and run: "createDefaultChannels env gid ts s = Inr (u, s')"
  shows "spec_steps a (absdb s) (absdb s')"
proof -
  let ?c = "create_default_channel env gid ts"
  obtain s1 s2 s3 where 1: "?c (0, e_gen env 1, str ''Text Channels'', CHANNEL_CATEGORY, 0) s = Inr ((), s1)"
    and 2: "?c (1, e_gen env 3, str ''general'', CHANNEL_TEXT, e_gen env 1) s1 = Inr ((), s2)"
    and 3: "?c (2, e_gen env 2, str ''Voice Channels'', CHANNEL_CATEGORY, 0) s2 = Inr ((), s3)"
    and 4: "?c (3, e_gen env 4, str ''General'', CHANNEL_VOICE, e_gen env 2) s3 = Inr ((), s')"
    using run by (auto simp: createDefaultChannels_def default_channels_def Let_def tx_simps numeral_2_eq_2 numeral_3_eq_3)
  have ty: "CHANNEL_CATEGORY \<in> {1, 2, 3 :: int32}" "CHANNEL_TEXT \<in> {1, 2, 3 :: int32}" "CHANNEL_VOICE \<in> {1, 2, 3 :: int32}" by auto
  have root: "parent_ok \<sigma> gid t 0" for \<sigma> t by (simp add: parent_ok_def)
  note r1 = create_default_channel_step[OF keys inv own ty(1) root 1]
  have p2: "parent_ok (absdb s1) gid CHANNEL_TEXT (e_gen env 1)" using r1(5) by (simp add: parent_ok_def del: absdb_sel)
  note r2 = create_default_channel_step[OF r1(2,3,4) ty(2) p2 2]
  note r3 = create_default_channel_step[OF r2(2,3,4) ty(1) root 3]
  have p4: "parent_ok (absdb s3) gid CHANNEL_VOICE (e_gen env 2)" using r3(5) by (simp add: parent_ok_def del: absdb_sel)
  note r4 = create_default_channel_step[OF r3(2,3,4) ty(3) p4 4]
  show ?thesis using r1(1) r2(1) r3(1) r4(1) by (meson rtranclp_trans)
qed

lemma sim_new_guild: "tx_rel (sim a) (new_guild env gid a name)"
proof (rule simI[OF safe_new_guild])
  fix s g s' assume run: "new_guild env gid a name s = Inr (g, s')" and keys: "keys_ok s" and inv: "spec_inv (absdb s)"
  obtain s1 m s2 p u3 s3 u4 s4 u5 s5 evs u where g: "store_CreateGuild gid a name (e_now env) s = Inr (g, s1)"
    and m: "CreateGuildMember gid a (e_now env) s1 = Inr (m, s2)" and p: "UpsertGuildMemberProfile env p s2 = Inr (u3, s3)"
    and r: "CreateDefaultRole gid (e_now env) s3 = Inr (u4, s4)" and c: "createDefaultChannels env gid (e_now env) s4 = Inr (u5, s5)"
    and e: "enqueueEvents env 6 evs s5 = Inr (u, s')"
    using run by (auto simp: new_guild_def Let_def tx_simps read_simps)
  note eqs = CreateGuild_refines(1)[OF g] CreateGuildMember_refines(1)[OF m] profile_absdb(1)[OF p] CreateDefaultRole_refines(1)[OF r]
  have "spec_step a (absdb s) (absdb s4)"
    using spec_step.create_guild[of "absdb s" gid a] CreateGuild_refines(4)[OF g] CreateGuildMember_refines(2)[OF m]
      CreateDefaultRole_refines(2)[OF r] eqs by (simp del: absdb_sel)
  then have st: "spec_steps a (absdb s) (absdb s4)" by blast
  have k4: "keys_ok s4"
    using tx_relD[OF safe_store(1) g] tx_relD[OF safe_store(7) m] tx_relD[OF safe_others(5) p] tx_relD[OF safe_roles(1) r] keys
    by (simp add: safe_def)
  have "sp_owner (absdb s4) gid = Some a" using eqs by (simp del: absdb_sel)
  then have "spec_steps a (absdb s4) (absdb s5)" using createDefaultChannels_steps[OF k4 _ _ c] spec_steps_inv[OF st inv] by blast
  then show "spec_steps a (absdb s) (absdb s')" using st enqueueEvents_absdb[OF e] by (simp add: rtranclp_trans)
qed

lemma CreateGuild_sim: "tx_rel (sim a) (CreateGuild env a name key)"
  unfolding CreateGuild_def Let_def hydrate_owner_profile_def
  by (auto intro!: sim.rel_rules sim_with_claim sim_new_guild sim_core[OF core_profiles(2)] sim_read[OF read_store(2)] split: sum.split)

lemma UpdateGuild_sim: "tx_rel (sim a) (UpdateGuild env gid a nm desc)"
proof (rule simI[OF safe_UpdateGuild])
  fix s g s' assume run: "UpdateGuild env gid a nm desc s = Inr (g, s')" and keys: "keys_ok s"
  obtain nm' desc' s1 u evs where g: "store_UpdateGuild env gid nm' desc' s = Inr (g, s1)" and e: "enqueueEvents env 1 evs s1 = Inr (u, s')"
    using run by (auto simp: UpdateGuild_def tx_simps read_simps)
  show "spec_steps a (absdb s) (absdb s')" using UpdateGuild_refines(1)[OF keys g] enqueueEvents_absdb[OF e] by simp
qed

lemma DeleteGuild_sim:
  assumes now: "0 < e_now env"
  shows "tx_rel (sim a) (DeleteGuild env gid a)"
proof (rule sim_step[OF safe_DeleteGuild])
  fix s u s' assume run: "DeleteGuild env gid a s = Inr (u, s')" and keys: "keys_ok s"
  obtain g g' s1 u2 s2 u3 s3 u4 s4 u5 s5 u6 s6 u7 s7 u8 s8 u9 s9 evs where g: "GetGuildForMember gid a s = Inr (g, s)" "g_OwnerID g = a"
    and 1: "store_DeleteGuild gid (e_now env) s = Inr (g', s1)" and 2: "DeleteGuildMembers gid (e_now env) s1 = Inr (u2, s2)"
    and 3: "DeleteGuildMemberProfiles gid s2 = Inr (u3, s3)" and 4: "DeleteAllGuildRoleAssignments gid s3 = Inr (u4, s4)"
    and 5: "DeleteAllGuildChannelPermissionOverwrites gid s4 = Inr (u5, s5)" and 6: "DeleteGuildChannels gid (e_now env) s5 = Inr (u6, s6)"
    and 7: "DeleteGuildBans gid s6 = Inr (u7, s7)" and 8: "DeleteGuildInvites gid s7 = Inr (u8, s8)"
    and 9: "DeleteGuildRoles gid (e_now env) s8 = Inr (u9, s9)" and e: "enqueueEvents env 1 evs s9 = Inr (u, s')"
    using run by (simp add: DeleteGuild_def Let_def tx_simps read_simps) metis
  have k1: "keys_ok s1" using tx_relD[OF safe_store(4) 1] keys by (simp add: safe_def)
  have k4: "keys_ok s4" using tx_relD[OF safe_store(10) 2] tx_relD[OF safe_others(10) 3] tx_relD[OF safe_roles(11) 4] k1 by (simp add: safe_def)
  have k5: "keys_ok s5" using tx_relD[OF safe_channels(10) 5] k4 by (simp add: safe_def)
  have k8: "keys_ok s8" using tx_relD[OF safe_channels(5) 6] tx_relD[OF safe_store(13) 7] tx_relD[OF safe_others(4) 8] k5 by (simp add: safe_def)
  have "absdb s8 = absdb s7" using 8 by (auto simp: DeleteGuildInvites_def tx_modify_def absdb_def)
  then have "absdb s' = drop_guild gid (absdb s)"
    using DeleteGuild_refines(1)[OF keys now 1] DeleteGuildMembers_refines[OF now 2] core_eqD(9)[OF tx_relD[OF core_profiles(6) 3]]
      DeleteAllGuildRoleAssignments_refines[OF 4] DeleteAllOverwrites_refines[OF k4 5] DeleteGuildChannels_refines[OF k5 now 6]
      DeleteGuildBans_refines[OF 7] DeleteGuildRoles_refines[OF k8 now 9] enqueueEvents_absdb[OF e]
    by (simp add: drop_guild_def del: absdb_sel)
  then show "spec_step a (absdb s) (absdb s')"
    using spec_step.delete_guild[of "absdb s" gid a] GetGuildForMember_refines(2)[OF keys g(1)] g(2) by (simp del: absdb_sel)
qed

lemma invites_absdb:
  "store_CreateGuildInvite i s = Inr (x, s') \<Longrightarrow> absdb s' = absdb s" "ConsumeGuildInvite code ts s = Inr (x, s') \<Longrightarrow> absdb s' = absdb s"
  "store_DeleteGuildInvite code s = Inr (u, s') \<Longrightarrow> absdb s' = absdb s"
  by (auto simp: store_CreateGuildInvite_def ConsumeGuildInvite_def store_DeleteGuildInvite_def Let_def absdb_def split: sum.splits if_splits)

lemma sim_invites:
  "tx_rel (sim a) (store_CreateGuildInvite i)" "tx_rel (sim a) (store_DeleteGuildInvite code)"
  by (rule simI[OF safe_others(1)] simI[OF safe_others(3)]; simp add: invites_absdb)+

lemma CreateGuildInvite_sim: "tx_rel (sim a) (CreateGuildInvite env gid a uses ms key)"
  unfolding CreateGuildInvite_def create_invite_attempt_def Let_def
  by (intro sim.rel_rules rel_invite_attempts sim_with_claim sim_invites read_rules[THEN sim_read])

lemma DeleteGuildInvite_sim: "tx_rel (sim a) (DeleteGuildInvite code a)"
  unfolding DeleteGuildInvite_def or_invite_not_found_def
  by (intro sim.rel_rules sim_invites read_rules[THEN sim_read])

lemma or_invite_not_found_Inr [tx_simps]: "or_invite_not_found m s = Inr (r, s') \<longleftrightarrow> m s = Inr (r, s')"
  by (auto simp: or_invite_not_found_def tx_simps)

lemma JoinGuildByInvite_sim: "tx_rel (sim a) (JoinGuildByInvite env code a)"
proof (rule simI[OF safe_invites(3)])
  fix s r s' assume run: "JoinGuildByInvite env code a s = Inr (r, s')" and keys: "keys_ok s"
  obtain c i s1 g m s2 p u s3 evs u' where i: "ConsumeGuildInvite c (e_now env) s = Inr (i, s1)"
    and g: "store_GetGuild (i_GuildID i) s1 = Inr (g, s1)" and m: "CreateGuildMember (i_GuildID i) a (e_now env) s1 = Inr (m, s2)"
    and p: "UpsertGuildMemberProfile env p s2 = Inr (u, s3)" and e: "enqueueEvents env 1 evs s3 = Inr (u', s')"
    using run by (auto simp: JoinGuildByInvite_def Let_def tx_simps read_simps)
  have k1: "keys_ok s1" using tx_relD[OF safe_others(2) i] keys by (simp add: safe_def)
  note m' = CreateGuildMember_refines(1,2)[OF m] and eqs = invites_absdb(2)[OF i] profile_absdb(1)[OF p] enqueueEvents_absdb[OF e]
  show "spec_steps a (absdb s) (absdb s')"
  proof (cases "(i_GuildID i, a) \<in> sp_members (absdb s)")
    case True
    then show ?thesis using m' eqs by (simp add: insert_absorb del: absdb_sel)
  next
    case False
    then have "spec_step a (absdb s) (absdb s')"
      using spec_step.join[of "absdb s" "i_GuildID i" a] GetGuild_refines(2)[OF k1 g] m' eqs by (simp del: absdb_sel)
    then show ?thesis by blast
  qed
qed

lemma CompleteGuildIconUpload_sim: "tx_rel (sim a) (CompleteGuildIconUpload env gid a up)"
proof (rule simI[OF safe_CompleteGuildIconUpload])
  fix s g s' assume run: "CompleteGuildIconUpload env gid a up s = Inr (g, s')" and keys: "keys_ok s"
  obtain asset s1 u evs where g: "UpdateGuildIcon env gid asset s = Inr (g, s1)" and e: "enqueueEvents env 1 evs s1 = Inr (u, s')"
    using run by (auto simp: CompleteGuildIconUpload_def getGuildIconUpload_def tx_simps read_simps)
  show "spec_steps a (absdb s) (absdb s')" using UpdateGuildIcon_refines(1)[OF keys g] enqueueEvents_absdb[OF e] by simp
qed

end
