(* ===== verification/Guild_System.thy ===== *)
theory Guild_System
  imports Guild_Layout Guild_Roles Guild_Lifecycle
begin

text \<open>
  The guild service as a whole: its mutating calls as data (\<open>guild_request\<close>) with one dispatcher
  (\<open>handle\<close>), and the system of concurrent callers and the outbox relay over one database. Calls are
  serialised, each commits or leaves the database as it was. The theorems are about every state this
  system can reach.
\<close>

section \<open>Requests\<close>

datatype guild_request =
    ReqCreateGuild gostring "gostring option"
  | ReqUpdateGuild int64 "gostring option" "gostring option"
  | ReqDeleteGuild int64
  | ReqCreateInvite int64 int32 int64 "gostring option"
  | ReqDeleteInvite gostring
  | ReqJoinByInvite gostring
  | ReqCompleteIcon int64 int64
  | ReqAddMember int64 int64
  | ReqUpdateMember int64 gostring
  | ReqKick int64 int64
  | ReqLeave int64
  | ReqTransfer int64 int64
  | ReqBan int64 int64 gostring
  | ReqUnban int64 int64
  | ReqCreateRole int64 gostring perms "gostring option"
  | ReqUpdateRole int64 int64 "gostring option" "perms option"
  | ReqDeleteRole int64 int64
  | ReqReorderRoles int64 "(int64 \<times> int32) list"
  | ReqAddMemberRole int64 int64 int64
  | ReqRemoveMemberRole int64 int64 int64
  | ReqAddRoleMembers int64 int64 "int64 list"
  | ReqRemoveRoleMembers int64 int64 "int64 list"
  | ReqCreateChannel int64 gostring int32 gostring int64 "int64 option" "gostring option"
  | ReqUpdateChannel int64 "gostring option" "gostring option" "int64 option" "int64 option"
  | ReqDeleteChannel int64 "int64 option"
  | ReqReorderChannels int64 "placement_item list" "int64 option"
  | ReqUpsertOverwrite int64 int32 int64 perms perms
  | ReqDeleteOverwrite int64 int32 int64

definition tx_unit :: "'a gtx \<Rightarrow> unit gtx" where
  "tx_unit m = tx_then m (tx_return ())"

text \<open>\<open>pre\<close> is the database at the time of the reads some handlers make before their transaction.\<close>

fun handle :: "guild_env \<Rightarrow> guild_db \<Rightarrow> int64 \<Rightarrow> guild_request \<Rightarrow> unit gtx" where
  "handle env pre a (ReqCreateGuild name key) = tx_unit (CreateGuild env a name key)"
| "handle env pre a (ReqUpdateGuild g name desc) = tx_unit (UpdateGuild env g a name desc)"
| "handle env pre a (ReqDeleteGuild g) = tx_unit (DeleteGuild env g a)"
| "handle env pre a (ReqCreateInvite g uses ms key) = tx_unit (CreateGuildInvite env g a uses ms key)"
| "handle env pre a (ReqDeleteInvite code) = tx_unit (DeleteGuildInvite code a)"
| "handle env pre a (ReqJoinByInvite code) = tx_unit (JoinGuildByInvite env code a)"
| "handle env pre a (ReqCompleteIcon g up) = tx_unit (CompleteGuildIconUpload env g a up)"
| "handle env pre a (ReqAddMember g u) = tx_unit (AddGuildMember env pre g a u)"
| "handle env pre a (ReqUpdateMember g nick) = tx_unit (UpdateGuildMember env g a nick)"
| "handle env pre a (ReqKick g u) = tx_unit (KickGuildMember env g a u)"
| "handle env pre a (ReqLeave g) = tx_unit (LeaveGuild env g a)"
| "handle env pre a (ReqTransfer g u) = tx_unit (TransferGuildOwnership env g a u)"
| "handle env pre a (ReqBan g u reason) = tx_unit (BanGuildMember env pre g a u reason)"
| "handle env pre a (ReqUnban g u) = tx_unit (UnbanGuildMember env g a u)"
| "handle env pre a (ReqCreateRole g name p key) = tx_unit (CreateGuildRole env g a name p key)"
| "handle env pre a (ReqUpdateRole g r name p) = tx_unit (UpdateGuildRole env g a r name p)"
| "handle env pre a (ReqDeleteRole g r) = tx_unit (DeleteGuildRole env g a r)"
| "handle env pre a (ReqReorderRoles g items) = tx_unit (ReorderGuildRoles env g a items)"
| "handle env pre a (ReqAddMemberRole g u r) = tx_unit (AddGuildMemberRole env g a u r)"
| "handle env pre a (ReqRemoveMemberRole g u r) = tx_unit (RemoveGuildMemberRole env g a u r)"
| "handle env pre a (ReqAddRoleMembers g r us) = tx_unit (AddGuildRoleMembers env g a r us)"
| "handle env pre a (ReqRemoveRoleMembers g r us) = tx_unit (RemoveGuildRoleMembers env g a r us)"
| "handle env pre a (ReqCreateChannel g name ty topic par expected key) = tx_unit (CreateGuildChannel env g a name ty topic par expected key)"
| "handle env pre a (ReqUpdateChannel c name topic par expected) = tx_unit (UpdateGuildChannel env c a name topic par expected)"
| "handle env pre a (ReqDeleteChannel c expected) = tx_unit (DeleteGuildChannel env c a expected)"
| "handle env pre a (ReqReorderChannels g items expected) = tx_unit (ReorderGuildChannels env g a items expected)"
| "handle env pre a (ReqUpsertOverwrite c ty tid allow deny) = tx_unit (UpsertGuildChannelPermissionOverwrite env c a ty tid allow deny)"
| "handle env pre a (ReqDeleteOverwrite c ty tid) = tx_unit (DeleteGuildChannelPermissionOverwrite env c a ty tid)"

text \<open>What the runtime guarantees: the clock is past the epoch, iteration over a map visits its entries once each,
  a position on the wire is an int32.\<close>

definition env_ok :: "guild_env \<Rightarrow> bool" where
  "env_ok env \<longleftrightarrow> 0 < e_now env \<and> (\<forall>xs. mset (e_iter env xs) = mset xs)"

definition request_ok :: "guild_request \<Rightarrow> bool" where
  "request_ok q \<longleftrightarrow> (case q of ReqReorderRoles g items \<Rightarrow> \<forall>i\<in>set items. snd i \<le> MaxInt32 | _ \<Rightarrow> True)"

section \<open>One call\<close>

lemma sim_unit: "tx_rel (sim a) m \<Longrightarrow> tx_rel (sim a) (tx_unit m)"
  unfolding tx_unit_def by (intro sim.rel_rules)

lemma safe_unit: "tx_rel safe m \<Longrightarrow> tx_rel safe (tx_unit m)"
  unfolding tx_unit_def by (intro safe.rel_rules)

lemma handle_sim:
  assumes "env_ok env" "request_ok q"
  shows "tx_rel (sim a) (handle env pre a q)"
proof -
  have now: "0 < e_now env" and iter: "\<And>xs. mset (e_iter env xs) = mset xs" using assms(1) by (simp_all add: env_ok_def)
  show ?thesis
    using assms(2)
    by (cases q) (auto simp: request_ok_def intro!: sim_unit CreateGuild_sim UpdateGuild_sim DeleteGuild_sim[OF now] CreateGuildInvite_sim
        DeleteGuildInvite_sim JoinGuildByInvite_sim CompleteGuildIconUpload_sim AddGuildMember_sim UpdateGuildMember_sim
        KickGuildMember_sim[OF now] LeaveGuild_sim[OF now] TransferGuildOwnership_sim BanGuildMember_sim[OF now] UnbanGuildMember_sim
        CreateGuildRole_sim UpdateGuildRole_sim DeleteGuildRole_sim[OF now] ReorderGuildRoles_sim[OF iter] assignments_sim
        CreateGuildChannel_sim UpdateGuildChannel_sim DeleteGuildChannel_sim[OF now] ReorderGuildChannels_sim[OF iter]
        UpsertGuildChannelPermissionOverwrite_sim DeleteGuildChannelPermissionOverwrite_sim)
qed

lemma handle_safe: "tx_rel safe (handle env pre a q)"
  by (cases q) (auto intro!: safe_unit safe_rules safe_CreateGuild safe_UpdateGuild safe_DeleteGuild safe_invites
      safe_CompleteGuildIconUpload)

section \<open>Several users\<close>

text \<open>The calls of a group of users, in any order and number.\<close>

definition call_by :: "int64 set \<Rightarrow> guild_db \<Rightarrow> guild_db \<Rightarrow> bool" where
  "call_by A s s' \<longleftrightarrow> (\<exists>a\<in>A. \<exists>env pre q. env_ok env \<and> request_ok q \<and> handle env pre a q s = Inr ((), s'))"

abbreviation calls_by :: "int64 set \<Rightarrow> guild_db \<Rightarrow> guild_db \<Rightarrow> bool" where
  "calls_by A \<equiv> (call_by A)\<^sup>*\<^sup>*"

definition group_step :: "int64 set \<Rightarrow> guild_spec \<Rightarrow> guild_spec \<Rightarrow> bool" where
  "group_step A \<sigma> \<tau> \<longleftrightarrow> (\<exists>a\<in>A. spec_step a \<sigma> \<tau>)"

abbreviation group_steps :: "int64 set \<Rightarrow> guild_spec \<Rightarrow> guild_spec \<Rightarrow> bool" where
  "group_steps A \<equiv> (group_step A)\<^sup>*\<^sup>*"

lemma spec_steps_group: "a \<in> A \<Longrightarrow> spec_steps a \<sigma> \<tau> \<Longrightarrow> group_steps A \<sigma> \<tau>"
  by (erule rtranclp_mono[THEN predicate2D, rotated]) (auto simp: group_step_def)

lemma group_steps_inv: "group_steps A \<sigma> \<tau> \<Longrightarrow> spec_inv \<sigma> \<Longrightarrow> spec_inv \<tau>"
  by (induction rule: rtranclp_induct) (auto simp: group_step_def intro: spec_steps_inv r_into_rtranclp)

lemma calls_by_sim:
  assumes "calls_by A s s'" "keys_ok s" "spec_inv (absdb s)"
  shows "keys_ok s' \<and> group_steps A (absdb s) (absdb s')"
  using assms(1)
proof (induction rule: rtranclp_induct)
  case (step t u)
  obtain a env pre q where a: "a \<in> A" "env_ok env" "request_ok q" "handle env pre a q t = Inr ((), u)"
    using step(2) by (auto simp: call_by_def)
  have "spec_inv (absdb t)" using step.IH group_steps_inv assms(3) by blast
  then show ?case using tx_relD[OF handle_sim[OF a(2,3)] a(4)] step.IH spec_steps_group[OF a(1)]
    by (meson rtranclp_trans sim_def)
qed (use assms in simp)

text \<open>What a group can do to the permissions and the rank of a member.\<close>

lemma group_steps_eff:
  assumes "group_steps A \<sigma> \<tau>" "spec_inv \<sigma>" "sp_owner \<sigma> g \<noteq> None"
  shows "eff \<tau> g v \<subseteq> eff \<sigma> g v \<union> (\<Union>a\<in>A. eff \<sigma> g a)"
proof -
  let ?C = "\<Union>a\<in>A. eff \<sigma> g a"
  have "(\<forall>v. eff \<tau> g v \<subseteq> eff \<sigma> g v \<union> ?C) \<and> (sp_owner \<tau> g = sp_owner \<sigma> g \<or> {..<12} \<subseteq> ?C)"
    using assms(1)
  proof (induction rule: rtranclp_induct)
    case (step \<tau> \<rho>)
    obtain a where a: "a \<in> A" "spec_step a \<tau> \<rho>" using step(2) by (auto simp: group_step_def)
    have inv: "spec_inv \<tau>" by (rule group_steps_inv[OF step(1) assms(2)])
    show ?case
    proof (cases "{..<12} \<subseteq> ?C")
      case True
      then show ?thesis using eff_bound[OF spec_step_roles[OF a(2) inv], of g] by blast
    next
      case False
      then have o: "sp_owner \<tau> g = sp_owner \<sigma> g" using step.IH by blast
      then have "sp_owner \<tau> g \<noteq> None" using assms(3) by simp
      note e = spec_step_eff[OF a(2) inv this] and o2 = spec_step_owner[OF a(2) this]
      have "sp_owner \<sigma> g \<noteq> Some a"
      proof
        assume "sp_owner \<sigma> g = Some a"
        then have "eff \<sigma> g a = {..<12}" by (simp add: eff_def)
        then show False using False a(1) by blast
      qed
      then have "sp_owner \<rho> g = sp_owner \<sigma> g" using o o2 by auto
      moreover have "eff \<rho> g v \<subseteq> eff \<sigma> g v \<union> ?C" for v
        using e[of v] step.IH a(1) by blast
      ultimately show ?thesis by blast
    qed
  qed blast
  then show ?thesis by blast
qed

lemma group_steps_hierarchy:
  assumes "group_steps A \<sigma> \<tau>" "spec_inv \<sigma>" "(g, v) \<in> sp_members \<sigma>" "\<And>a. a \<in> A \<Longrightarrow> a \<noteq> v \<and> \<not> outranks \<sigma> g a v"
  shows "(g, v) \<in> sp_members \<tau> \<and> rank \<tau> g v = rank \<sigma> g v"
proof -
  have "(g, v) \<in> sp_members \<tau> \<and> rank \<tau> g v = rank \<sigma> g v \<and> sp_owner \<tau> g = sp_owner \<sigma> g
      \<and> (\<forall>a\<in>A. sp_owner \<sigma> g = Some v \<or> rank \<tau> g a \<le> rank \<sigma> g v)"
    using assms(1)
  proof (induction rule: rtranclp_induct)
    case base
    then show ?case using assms(3,4) by (auto simp: outranks_def not_less)
  next
    case (step \<tau> \<rho>)
    obtain a where a: "a \<in> A" "spec_step a \<tau> \<rho>" using step(2) by (auto simp: group_step_def)
    have inv: "spec_inv \<tau>" by (rule group_steps_inv[OF step(1) assms(2)])
    have o: "sp_owner \<tau> g \<noteq> None" using members_invD(2)[OF spec_invD(2)[OF inv]] step.IH by blast
    have na: "sp_owner \<sigma> g \<noteq> Some a" "a \<noteq> v" using assms(4)[OF a(1)] by (auto simp: outranks_def)
    have n: "\<not> outranks \<tau> g a v" using na step.IH a(1) by (fastforce simp: outranks_def)
    have "rank \<rho> g b \<le> rank \<sigma> g v" if "b \<in> A" "sp_owner \<sigma> g \<noteq> Some v" for b
    proof -
      have "rank \<tau> g b \<le> rank \<sigma> g v" "rank \<tau> g a \<le> rank \<sigma> g v" using step.IH that a(1) by blast+
      then show ?thesis using spec_step_rank[OF a(2) inv o, of b] by (simp add: max_def split: if_splits)
    qed
    then show ?case
      using spec_step_keeps_member[OF a(2) _ n na(2)[symmetric]] spec_step_keeps_rank[OF a(2) inv o n na(2)[symmetric]]
        spec_step_owner[OF a(2) o] na(1) step.IH by auto
  qed
  then show ?thesis by blast
qed

section \<open>Callers and relay\<close>

inductive guild_system ::
  "relay_config \<Rightarrow> guild_db \<times> eventEnvelope outbox_record list \<Rightarrow> guild_db \<times> eventEnvelope outbox_record list \<Rightarrow> bool" for cfg where
  call: "call_by UNIV s s' \<Longrightarrow> guild_system cfg (s, klog) (s', klog)"
| relay: "workOnce cfg now lock ticks (ob_events (db_outbox s)) klog = (r, (evs, klog')) \<Longrightarrow> (\<forall>sh. list_all tick_ok (ticks sh)) \<Longrightarrow>
    guild_system cfg (s, klog) (s\<lparr>db_outbox := (db_outbox s)\<lparr>ob_events := evs\<rparr>\<rparr>, klog')"

definition empty_db :: guild_db where
  "empty_db = \<lparr>db_guilds = [], db_members = [], db_roles = [], db_member_roles = [], db_channels = [], db_overwrites = [],
     db_bans = [], db_invites = [], db_idempotency = [], db_profiles = [], db_outbox = \<lparr>ob_streams = [], ob_events = []\<rparr>\<rparr>"

definition system_init :: "guild_db \<times> eventEnvelope outbox_record list \<Rightarrow> bool" where
  "system_init c \<longleftrightarrow> c = (empty_db, [])"

definition system_inv :: "guild_db \<times> eventEnvelope outbox_record list \<Rightarrow> bool" where
  "system_inv c \<longleftrightarrow> keys_ok (fst c) \<and> spec_inv (absdb (fst c)) \<and> outbox_inv (db_outbox (fst c), snd c)"

abbreviation reachable :: "relay_config \<Rightarrow> guild_db \<Rightarrow> eventEnvelope outbox_record list \<Rightarrow> bool" where
  "reachable cfg s klog \<equiv> reach system_init (guild_system cfg) (s, klog)"

lemma outbox_steps_inv: "(outbox_step cfg)\<^sup>*\<^sup>* c d \<Longrightarrow> outbox_inv c \<Longrightarrow> outbox_inv d"
  by (induction rule: rtranclp_induct) (auto intro: outbox_system.inv_step)

interpretation guild_service: invariant_system system_init "guild_system cfg" system_inv
proof
  fix c assume "system_init c"
  moreover have "absdb empty_db = spec_init"
    by (simp add: absdb_def empty_db_def spec_init_def guilds_of_def members_of_def roles_of_def assigned_of_def channels_of_def
        overwrites_of_def banned_of_def live_keys_def lookup_def fun_eq_iff)
  moreover have "outbox_inv (db_outbox empty_db, [])"
    by (rule outbox_system.inv_init) (simp add: outbox_init_def empty_db_def)
  ultimately show "system_inv c" using spec_inv_init by (simp add: system_init_def system_inv_def) (simp add: empty_db_def keys_ok_def)
next
  fix c d assume inv: "system_inv c" and "guild_system cfg c d"
  from this(2) show "system_inv d"
  proof cases
    case (call s s' klog)
    obtain a env pre q where a: "env_ok env" "request_ok q" "handle env pre a q s = Inr ((), s')"
      using call(3) by (auto simp: call_by_def)
    have "commits s s'" using tx_relD[OF handle_safe a(3)] by (simp add: safe_def)
    then have "(outbox_step cfg)\<^sup>*\<^sup>* (db_outbox s, klog) (db_outbox s', klog)" by (simp add: commits_def)
    from outbox_steps_inv[OF this] have "outbox_inv (db_outbox s', klog)" using inv call(1) by (simp add: system_inv_def)
    then show ?thesis using tx_relD[OF handle_sim[OF a(1,2)] a(3)] inv call(1,2) spec_steps_inv
      by (auto simp: system_inv_def sim_def)
  next
    case (relay now lock ticks s klog r evs klog')
    have "outbox_step cfg (db_outbox s, klog) ((db_outbox s)\<lparr>ob_events := evs\<rparr>, klog')" by (rule outbox_step.scan[OF relay(3,4)])
    then show ?thesis using inv relay(1,2) outbox_system.inv_step[of "(db_outbox s, klog)" cfg]
      by (auto simp: system_inv_def keys_ok_def absdb_def)
  qed
qed

end
