(* ===== verification/Guild_Demo.thy ===== *)
theory Guild_Demo
  imports Guild_System "HOL-Library.Code_Target_Nat"
begin

text \<open>
  A concrete run of the guild service, evaluated by the simplifier: user 1 creates a guild, invites user 2, who joins,
  gets a role, and so on. The witnesses of the theorems are about its states.
\<close>

definition demo_env :: "int64 \<Rightarrow> guild_env" where
  "demo_env base = \<lparr>e_now = 1000, e_store_now = 1000, e_outbox_now = 1000, e_gen = (\<lambda>n. base + int n), e_rand = (\<lambda>k i. nat base + k + i),
     e_digest = (\<lambda>f. replicate 32 1), e_to_lower = (\<lambda>x. x), e_trace = [], e_GetUser = (\<lambda>u. Inr u),
     e_BatchGetUserProfiles = (\<lambda>us. Inr (Some (map (\<lambda>u. Some \<lparr>up_UserID = u, up_Name = [117], up_Bio = [], up_AvatarAssetID = 0,
        up_CreatedAt = 1, up_UpdatedAt = 1, up_Username = [117]\<rparr>) us))),
     e_GetAsset = (\<lambda>i. Inl NotFound), e_CreateUpload = (\<lambda>r. Inl NotFound), e_CompleteUpload = (\<lambda>i j. Inl NotFound),
     e_AbortUpload = (\<lambda>i j. Inl NotFound), e_iter = (\<lambda>xs. xs),
     e_Limits = \<lparr>rl_OwnedGuildsPerUser = 0, rl_JoinedGuildsPerUser = 0, rl_RolesPerGuild = 0, rl_ChannelsPerGuild = 0,
       rl_ActiveInvitesPerGuild = 0, rl_OverwritesPerChannel = 0\<rparr>,
     e_Idempotency = \<lparr>ic_KeyMaxLength = 0, ic_CreateGuildTTLSeconds = 0, ic_CreateGuildRoleTTLSeconds = 0,
       ic_CreateGuildChannelTTLSeconds = 0, ic_CreateGuildInviteTTLSeconds = 0\<rparr>, e_Topic = [], e_ShardCount = 4\<rparr>"

definition after :: "guild_env \<Rightarrow> int64 \<Rightarrow> guild_request \<Rightarrow> guild_db \<Rightarrow> guild_db" where
  "after env a q s = (case handle env s a q s of Inl _ \<Rightarrow> s | Inr (_, s') \<Rightarrow> s')"

primrec run_calls :: "(int64 \<times> int64 \<times> guild_request) list \<Rightarrow> guild_db \<Rightarrow> guild_error + guild_db" where
  "run_calls [] s = Inr s"
| "run_calls (c # cs) s = (case handle (demo_env (fst c)) s (fst (snd c)) (snd (snd c)) s of
       Inl e \<Rightarrow> Inl e
     | Inr (_, s') \<Rightarrow> run_calls cs s')"

definition demo_calls :: "(int64 \<times> int64 \<times> guild_request) list" where
  "demo_calls = [(100, 1, ReqCreateGuild (str ''G'') None), (200, 1, ReqCreateRole 100 (str ''mod'') 1140 None),
     (300, 1, ReqAddMember 100 2), (400, 1, ReqAddMemberRole 100 2 200), (500, 1, ReqCreateInvite 100 2 0 None),
     (600, 3, ReqJoinByInvite (str ''fghijklmno'')), (700, 1, ReqUpsertOverwrite 103 1 100 0 32),
     (800, 1, ReqUpsertOverwrite 103 1 200 32 0), (900, 1, ReqBan 100 4 [])]"

text \<open>The database after these calls.\<close>

definition demo_member :: "int64 \<Rightarrow> GuildMember" where
  "demo_member u = \<lparr>m_GuildID = 100, m_UserID = u, m_Nickname = [], m_Revision = 1, m_JoinedAt = 1000, m_UpdatedAt = 0, m_DeletedAt = 0\<rparr>"

definition demo_channel :: "int64 \<Rightarrow> string \<Rightarrow> int32 \<Rightarrow> int32 \<Rightarrow> int64 \<Rightarrow> Channel" where
  "demo_channel cid name ty pos parent = \<lparr>c_ID = cid, c_GuildID = 100, c_Name = str name, c_Type = ty, c_Position = pos, c_Topic = [],
     c_Revision = 1, c_CreatedAt = 1000, c_UpdatedAt = 0, c_DeletedAt = 0, c_ParentID = parent\<rparr>"

definition demo_overwrite :: "int64 \<Rightarrow> int64 \<Rightarrow> perms \<Rightarrow> perms \<Rightarrow> int64 \<Rightarrow> int64 \<Rightarrow> ChannelPermissionOverwrite" where
  "demo_overwrite cid rid allow deny n upd = \<lparr>o_ChannelID = cid, o_GuildID = 100, o_AppliesTo = 1, o_AppliesToID = rid,
     o_Allow = allow, o_Deny = deny, o_Revision = n, o_CreatedAt = 1000, o_UpdatedAt = upd\<rparr>"

definition demo_profile :: "int64 \<Rightarrow> GuildMemberProfile" where
  "demo_profile u = \<lparr>p_GuildID = 100, p_UserID = u, p_Username = [117], p_Name = [117], p_Nickname = [], p_UsernameSearch = [117],
     p_NameSearch = [117], p_NicknameSearch = [], p_AvatarAssetID = 0, p_ProfileUpdatedAt = 1\<rparr>"

definition demo_role :: "int64 \<Rightarrow> string \<Rightarrow> perms \<Rightarrow> int32 \<Rightarrow> bool \<Rightarrow> Role" where
  "demo_role rid name ps pos dflt = \<lparr>r_ID = rid, r_GuildID = 100, r_Name = str name, r_Permissions = ps, r_Position = pos,
     r_IsDefault = dflt, r_Revision = 1, r_CreatedAt = 1000, r_UpdatedAt = 0, r_DeletedAt = 0\<rparr>"

definition demo_event :: "int64 \<Rightarrow> int64 \<Rightarrow> string \<Rightarrow> event_data \<Rightarrow> int64 \<Rightarrow> eventEnvelope outbox_record" where
  "demo_event eid sq ty data n = \<lparr>ob_outbox_id = eid + 1, ob_event_id = eid, ob_delivery_index = 0, ob_stream_key = str ''100'',
     ob_relay_shard_id = 0, ob_stream_sequence = sq, ob_topic = str ''cordis.guild.events.v1'', ob_event_type = str ty,
     ob_key = str ''100'', ob_payload = \<lparr>ev_Type = str ty, ev_Data = data, ev_AccessRevision = Some n,
       ev_IdempotencyKey = format_int eid, ev_StreamSequence = sq, ev_DeliveryIndex = 0\<rparr>,
     ob_trace_context = [], ob_attempts = 0, ob_next_attempt_at = 0, ob_created_at = 1000\<rparr>"

definition demo_user :: "string \<Rightarrow> userProfilePayload" where
  "demo_user u = UserProfilePayload (str u) [117] [] [48] 1 1 [117]"

definition demo :: guild_db where
  "demo = \<lparr>db_guilds = [\<lparr>g_ID = 100, g_OwnerID = 1, g_Name = str ''G'', g_Description = [], g_IconAssetID = 0, g_Revision = 1,
       g_AccessRevision = 17, g_ChannelLayoutRevision = 1, g_CreatedAt = 1000, g_UpdatedAt = 0, g_DeletedAt = 0\<rparr>],
     db_members = [demo_member 1, demo_member 2, demo_member 3],
     db_roles = [demo_role 100 ''@everyone'' 1120 0 True, demo_role 200 ''mod'' 1140 1 False],
     db_member_roles = [\<lparr>mr_GuildID = 100, mr_UserID = 2, mr_RoleID = 200, mr_CreatedAt = 1000\<rparr>],
     db_channels = [demo_channel 101 ''Text Channels'' 2 0 0, demo_channel 103 ''general'' 1 1 101,
       demo_channel 102 ''Voice Channels'' 2 2 0, demo_channel 104 ''General'' 3 3 102],
     db_overwrites = [demo_overwrite 101 100 0 0 1 0, demo_overwrite 103 100 0 32 2 1000, demo_overwrite 102 100 0 0 1 0,
       demo_overwrite 104 100 0 0 1 0, demo_overwrite 103 200 32 0 1 0],
     db_bans = [\<lparr>b_GuildID = 100, b_UserID = 4, b_ActorUserID = 1, b_Reason = [], b_CreatedAt = 1000\<rparr>],
     db_invites = [\<lparr>i_ID = 500, i_Code = str ''fghijklmno'', i_GuildID = 100, i_CreatorUserID = 1, i_MaxUses = 2, i_Uses = 1,
       i_ExpiresAt = 0, i_CreatedAt = 1000\<rparr>],
     db_idempotency = [], db_profiles = [demo_profile 1, demo_profile 2, demo_profile 3],
     db_outbox = \<lparr>ob_streams = [\<lparr>st_key = str ''100'', st_shard = 0, st_last = 8\<rparr>],
       ob_events = [demo_event 105 1 ''guild.created'' (guildPayload (str ''100'') [49] [71] [] [48] 1 1000 0) 11,
         demo_event 201 2 ''guild.role.created'' (guildRolePayload (str ''200'') (str ''100'') (str ''mod'') (str ''1140'') 1 False 1 1000 0) 12,
         demo_event 300 3 ''guild.member.joined'' (guildMemberPayload (str ''100'') [50] (demo_user ''2'') [] 1 1000 0) 13,
         demo_event 400 4 ''guild.member.roles.updated'' (guildMemberRolesUpdatedPayload (str ''100'') [50] [str ''200''] 1000) 14,
         demo_event 600 5 ''guild.member.joined'' (guildMemberPayload (str ''100'') [51] (demo_user ''3'') [] 1 1000 0) 15,
         demo_event 700 6 ''guild.channel.overwrite.updated'' (guildChannelOverwritePayload (str ''103'') (str ''100'') 1 (str ''100'') [48] (str ''32'') 2 1000) 16,
         demo_event 800 7 ''guild.channel.overwrite.updated'' (guildChannelOverwritePayload (str ''103'') (str ''100'') 1 (str ''200'') (str ''32'') [48] 1 0) 17,
         demo_event 900 8 ''guild.member.banned'' (guildMemberBannedPayload (str ''100'') [52] [49] (demo_user ''4'') (demo_user ''1'') [] 1000) 17]\<rparr>\<rparr>"

lemma demo_run: "run_calls demo_calls empty_db = Inr demo"
  by code_simp

section \<open>The run is a run of the system\<close>

lemma demo_env_ok: "env_ok (demo_env base)"
  by (simp add: env_ok_def demo_env_def)

lemma run_calls_reach:
  "run_calls cs s = Inr s' \<Longrightarrow> \<forall>c\<in>set cs. request_ok (snd (snd c)) \<Longrightarrow> reachable cfg s klog \<Longrightarrow> reachable cfg s' klog"
proof (induction cs arbitrary: s)
  case (Cons c cs)
  obtain t where t: "handle (demo_env (fst c)) s (fst (snd c)) (snd (snd c)) s = Inr ((), t)" "run_calls cs t = Inr s'"
    using Cons.prems(1) by (auto split: sum.splits)
  have "guild_system cfg (s, klog) (t, klog)"
    using t(1) Cons.prems(2) demo_env_ok by (intro guild_system.call) (auto simp: call_by_def)
  then show ?case using Cons.IH[OF t(2)] Cons.prems(2,3) reach_step by fastforce
qed simp

lemma demo_reachable: "reachable cfg demo []"
  by (rule run_calls_reach[OF demo_run]) (auto simp: demo_calls_def request_ok_def intro!: reach_init simp: system_init_def)

lemma demo_inv: "keys_ok demo" "spec_inv (absdb demo)"
  using guild_service.reach_inv[OF demo_reachable] by (simp_all add: system_inv_def)

lemma demo_owner: "sp_owner (absdb demo) 100 = Some 1"
  unfolding absdb_sel by code_simp

lemma after_ok: "\<not> isl (handle env s a q s) \<Longrightarrow> handle env s a q s = Inr ((), after env a q s)"
  by (cases "handle env s a q s") (auto simp: after_def)

lemma after_call:
  assumes "\<not> isl (handle (demo_env base) s a q s)" "request_ok q" "a \<in> A"
  shows "calls_by A s (after (demo_env base) a q s)"
  using after_ok[OF assms(1)] assms(2,3) demo_env_ok by (intro r_into_rtranclp) (auto simp: call_by_def)

end
