(* ===== verification/Guild_Visibility.thy ===== *)
theory Guild_Visibility
  imports Guild_Channels
begin

text \<open>
  What a user sees of a guild (\<^verbatim>\<open>server/visibility.go\<close> and the readers of \<^verbatim>\<open>server/channels.go\<close> and
  \<^verbatim>\<open>server/channel_permissions.go\<close>). The permission a channel grants is computed from four different
  queries; all of them are shown to compute \<open>chan_eff\<close>, defined once on the abstract state.
\<close>

section \<open>One channel\<close>

definition loadAuthorizedChannel :: "int64 \<Rightarrow> int64 \<Rightarrow> (Channel \<times> perms) gtx" where
  "loadAuthorizedChannel channelID userID =
     tx_bind (tx_map_error mapStoreError (store_GetGuildChannel channelID)) (\<lambda>channel.
     tx_bind (tx_map_error mapStoreError (loadMemberAuthorityAndRoles (c_GuildID channel) userID)) (\<lambda>(authority, roles).
     if ma_IsOwner authority \<or> ma_Permissions authority AND PermissionAdministrator \<noteq> 0
     then tx_return (channel, AllGuildPermissions)
     else tx_bind (tx_map_error mapStoreError (store_ListGuildChannelPermissionOverwrites channelID)) (\<lambda>overwrites.
       tx_return (channel, channelPermissions authority roles overwrites userID))))"

record AuthorizeGuildChannelResponse =
  az_GuildID :: int64
  az_Permissions :: perms
  az_Allowed :: bool
  az_ChannelType :: int32

definition AuthorizeGuildChannel :: "int64 \<Rightarrow> int64 \<Rightarrow> perms \<Rightarrow> AuthorizeGuildChannelResponse gtx" where
  "AuthorizeGuildChannel channelID userID permission =
     tx_then (tx_require (\<not> (channelID \<le> 0 \<or> userID \<le> 0)) (invalidRequest ''channel id and user id are required''))
     (tx_then (tx_require (permission \<noteq> 0) (invalidRequest ''permission is required''))
     (tx_then (tx_require (and_not permission AllChannelPermissions = 0) (invalidRequest ''permission contains non-channel bits''))
     (tx_bind (loadAuthorizedChannel channelID userID) (\<lambda>(channel, permissions).
      tx_return \<lparr>az_GuildID = c_GuildID channel, az_Permissions = permissions,
        az_Allowed = (permissions AND permission = permission), az_ChannelType = c_Type channel\<rparr>))))"

definition GetGuildChannel :: "int64 \<Rightarrow> int64 \<Rightarrow> Channel gtx" where
  "GetGuildChannel channelID actorUserID =
     tx_then (tx_lift (validateChannelActorRequest channelID actorUserID))
     (tx_bind (loadAuthorizedChannel channelID actorUserID) (\<lambda>(channel, permissions).
      tx_then (tx_require (permissions AND PermissionViewChannel \<noteq> 0) NotFound)
      (tx_return channel)))"

section \<open>The channels of a guild\<close>

definition visibleGuildChannels ::
  "memberAuthority \<Rightarrow> Role list \<Rightarrow> Channel list \<Rightarrow> ChannelPermissionOverwrite list \<Rightarrow> int64 \<Rightarrow> Channel list" where
  "visibleGuildChannels authority roles channels overwrites userID =
     (if ma_IsOwner authority \<or> ma_Permissions authority AND PermissionAdministrator \<noteq> 0 then channels
      else
        let overwritesByChannel = (\<lambda>channelID. filter (\<lambda>x. o_ChannelID x = channelID) overwrites)
        in filter (\<lambda>channel. channelPermissions authority roles (overwritesByChannel (c_ID channel)) userID
                                AND PermissionViewChannel \<noteq> 0) channels)"

definition loadVisibleGuildChannels :: "int64 \<Rightarrow> int64 \<Rightarrow> (Channel list \<times> int64) gtx" where
  "loadVisibleGuildChannels guildID userID =
     tx_bind (loadMemberAuthorityAndRoles guildID userID) (\<lambda>(authority, roles).
     tx_bind (ListGuildChannelsWithRevision guildID) (\<lambda>(channels, layoutRevision).
     if ma_IsOwner authority \<or> ma_Permissions authority AND PermissionAdministrator \<noteq> 0
     then tx_return (channels, layoutRevision)
     else tx_bind (ListGuildChannelPermissionOverwritesByGuild guildID) (\<lambda>overwrites.
       tx_return (visibleGuildChannels authority roles channels overwrites userID, layoutRevision))))"

definition ListGuildChannels :: "int64 \<Rightarrow> int64 \<Rightarrow> (Channel list \<times> int64) gtx" where
  "ListGuildChannels guildID actorUserID =
     tx_then (tx_lift (validateMemberActorRequest guildID actorUserID))
     (tx_map_error mapStoreError (loadVisibleGuildChannels guildID actorUserID))"

record GuildChannelVisibility =
  gv_GuildID :: int64
  gv_AccessRevision :: int64
  gv_VisibleChannelIDs :: "int64 list"
  gv_VisibleTextChannelIDs :: "int64 list"

definition GetUserGuildChannelVisibility :: "int64 \<Rightarrow> int64 \<Rightarrow> GuildChannelVisibility gtx" where
  "GetUserGuildChannelVisibility userID guildID =
     tx_then (tx_require (userID > 0) (invalidRequest ''user id is required''))
     (tx_then (tx_require (guildID > 0) (invalidRequest ''guild id is required''))
     (tx_map_error mapStoreError
       (tx_bind (GetGuildForMember guildID userID) (\<lambda>guild.
        tx_bind (store_ListGuildChannels guildID) (\<lambda>channels.
        tx_bind (if g_OwnerID guild \<noteq> userID
                 then tx_bind (store_ListGuildMemberRoles guildID userID) (\<lambda>roles.
                      tx_bind (ListGuildChannelPermissionOverwritesByGuild guildID) (\<lambda>overwrites. tx_return (roles, overwrites)))
                 else tx_return ([], [])) (\<lambda>(roles, overwrites).
        let channels = visibleGuildChannels (memberAuthorityFromRoles guild roles userID) roles channels overwrites userID
        in tx_return \<lparr>gv_GuildID = guildID, gv_AccessRevision = g_AccessRevision guild,
             gv_VisibleChannelIDs = sort (map c_ID channels),
             gv_VisibleTextChannelIDs = sort (map c_ID (filter (\<lambda>c. c_Type c = CHANNEL_TEXT) channels))\<rparr>))))))"

section \<open>READY\<close>

definition groupRolesByGuild :: "Role list \<Rightarrow> int64 \<Rightarrow> Role list" where
  "groupRolesByGuild roles = (\<lambda>guildID. filter (\<lambda>r. r_GuildID r = guildID) roles)"

definition groupChannelsByGuild :: "Channel list \<Rightarrow> int64 \<Rightarrow> Channel list" where
  "groupChannelsByGuild channels = (\<lambda>guildID. filter (\<lambda>c. c_GuildID c = guildID) channels)"

definition groupOverwritesByGuild :: "ChannelPermissionOverwrite list \<Rightarrow> int64 \<Rightarrow> ChannelPermissionOverwrite list" where
  "groupOverwritesByGuild overwrites = (\<lambda>guildID. filter (\<lambda>x. o_GuildID x = guildID) overwrites)"

record ReadyGuild =
  rg_Guild :: Guild
  rg_AccessRevision :: int64
  rg_ChannelLayoutRevision :: int64
  rg_Roles :: "Role list"
  rg_MemberRoleIDs :: "int64 list"
  rg_Channels :: "Channel list"
  rg_PermissionOverwrites :: "ChannelPermissionOverwrite list"

definition ready_guild ::
  "int64 \<Rightarrow> (int64 \<Rightarrow> Role list) \<Rightarrow> (int64 \<Rightarrow> Role list) \<Rightarrow> (int64 \<Rightarrow> Channel list) \<Rightarrow> (int64 \<rightharpoonup> int64) \<Rightarrow>
   (int64 \<Rightarrow> ChannelPermissionOverwrite list) \<Rightarrow> Guild \<Rightarrow> ReadyGuild" where
  "ready_guild userID rolesByGuild memberRolesByGuild channelsByGuild layoutRevisions overwritesByGuild guild =
     (let assignedRoles = memberRolesByGuild (g_ID guild);
          authority = memberAuthorityFromRoles guild assignedRoles userID;
          visible = visibleGuildChannels authority assignedRoles (channelsByGuild (g_ID guild)) (overwritesByGuild (g_ID guild)) userID;
          visible = sort_key (\<lambda>c. (c_Position c, c_ID c)) visible
      in \<lparr>rg_Guild = guild, rg_AccessRevision = g_AccessRevision guild,
          rg_ChannelLayoutRevision = or_zero (layoutRevisions (g_ID guild)), rg_Roles = rolesByGuild (g_ID guild),
          rg_MemberRoleIDs = sort (map r_ID (filter (\<lambda>r. \<not> r_IsDefault r) assignedRoles)),
          rg_Channels = visible, rg_PermissionOverwrites = []\<rparr>)"

definition GetUserReadyState :: "guild_env \<Rightarrow> int64 \<Rightarrow> ReadyGuild list gtx" where
  "GetUserReadyState env userID =
     tx_then (tx_require (userID > 0) (invalidRequest ''user id is required''))
     (tx_map_error mapStoreError
       (tx_bind (store_ListUserGuilds userID 0 (JoinedGuilds (e_Limits env))) (\<lambda>guilds.
        let guildIDs = map g_ID guilds in
        tx_bind (ListGuildRolesByGuilds guildIDs) (\<lambda>roles.
        tx_bind (ListGuildMemberRolesByGuilds guildIDs userID) (\<lambda>memberRoles.
        tx_bind (ListGuildChannelsWithRevisionsByGuilds guildIDs) (\<lambda>(channels, layoutRevisions).
        tx_bind (ListGuildChannelPermissionOverwritesByGuilds guildIDs userID) (\<lambda>overwrites.
        let readyGuilds = map (ready_guild userID (groupRolesByGuild roles) (groupRolesByGuild memberRoles)
                                 (groupChannelsByGuild channels) layoutRevisions (groupOverwritesByGuild overwrites)) guilds;
            visibleChannelIDs = concat (map (\<lambda>ready. map c_ID (rg_Channels ready)) readyGuilds)
        in tx_bind (ListGuildChannelPermissionOverwritesByChannels visibleChannelIDs) (\<lambda>visibleOverwrites.
           tx_return (map (\<lambda>ready. ready\<lparr>rg_PermissionOverwrites := groupOverwritesByGuild visibleOverwrites (g_ID (rg_Guild ready))\<rparr>)
             readyGuilds)))))))))"

section \<open>What a channel grants, on the abstract state\<close>

definition ow_bit :: "(ow_info \<Rightarrow> perms) \<Rightarrow> guild_spec \<Rightarrow> int64 \<Rightarrow> int32 \<Rightarrow> int64 set \<Rightarrow> nat \<Rightarrow> bool" where
  "ow_bit sel \<sigma> cid ty T n \<longleftrightarrow> (\<exists>tid\<in>T. \<exists>i. sp_overwrites \<sigma> (cid, ty, tid) = Some i \<and> bit (sel i) n)"

definition roles_held :: "guild_spec \<Rightarrow> int64 \<Rightarrow> int64 \<Rightarrow> int64 set" where
  "roles_held \<sigma> g u = {rid. (g, u, rid) \<in> sp_assigned \<sigma>}"

definition chan_granted :: "guild_spec \<Rightarrow> int64 \<Rightarrow> int64 \<Rightarrow> int64 \<Rightarrow> nat \<Rightarrow> bool" where
  "chan_granted \<sigma> g u cid n =
     layer (ow_bit oi_allow \<sigma> cid OVERWRITE_MEMBER {u} n) (ow_bit oi_deny \<sigma> cid OVERWRITE_MEMBER {u} n)
       (layer (ow_bit oi_allow \<sigma> cid OVERWRITE_ROLE (roles_held \<sigma> g u) n) (ow_bit oi_deny \<sigma> cid OVERWRITE_ROLE (roles_held \<sigma> g u) n)
         (layer (ow_bit oi_allow \<sigma> cid OVERWRITE_ROLE {g} n) (ow_bit oi_deny \<sigma> cid OVERWRITE_ROLE {g} n) (n \<in> eff \<sigma> g u)))"

definition chan_eff :: "guild_spec \<Rightarrow> int64 \<Rightarrow> int64 \<Rightarrow> int64 \<Rightarrow> nat set" where
  "chan_eff \<sigma> g u cid =
     (if sp_owner \<sigma> g = Some u \<or> 0 \<in> eff \<sigma> g u then {..<12}
      else {n. chan_granted \<sigma> g u cid n \<and> (n = 6 \<or> n = 8 \<longrightarrow> chan_granted \<sigma> g u cid 5)})"

text \<open>The channels of a guild a user can view, in layout order.\<close>

definition visible_channels :: "guild_db \<Rightarrow> int64 \<Rightarrow> int64 \<Rightarrow> Channel list" where
  "visible_channels s g u = sort_key (\<lambda>c. (c_Position c, c_ID c))
     (filter (\<lambda>c. c_GuildID c = g \<and> c_DeletedAt c = 0 \<and> 5 \<in> chan_eff (absdb s) g u (c_ID c)) (db_channels s))"

definition member_roles :: "guild_db \<Rightarrow> int64 \<Rightarrow> int64 \<Rightarrow> Role set" where
  "member_roles s g u = {r \<in> set (db_roles s). r_GuildID r = g \<and> r_DeletedAt r = 0
     \<and> (r_IsDefault r \<or> (g, u, r_ID r) \<in> sp_assigned (absdb s))}"

lemma memberAuthorityFromRoles_cong:
  assumes "set roles = set roles'"
  shows "memberAuthorityFromRoles g roles u = memberAuthorityFromRoles g roles' u"
proof -
  have "foldl (\<lambda>p role. p OR r_Permissions role) 0 roles = foldl (\<lambda>p role. p OR r_Permissions role) 0 roles'"
    by (rule bit_eqI) (simp add: bit_foldl_OR assms)
  then show ?thesis by (simp add: memberAuthorityFromRoles_def foldl_max assms)
qed

lemma member_roles_held:
  assumes keys: "keys_ok s" and inv: "spec_inv (absdb s)"
  shows "r_ID ` member_roles s g u - {g} = roles_held (absdb s) g u"
proof (intro set_eqI iffI)
  fix rid assume "rid \<in> r_ID ` member_roles s g u - {g}"
  then obtain r where r: "r \<in> set (db_roles s)" "r_GuildID r = g" "r_DeletedAt r = 0" "r_ID r = rid" "rid \<noteq> g"
    "r_IsDefault r \<or> (g, u, rid) \<in> sp_assigned (absdb s)" by (auto simp: member_roles_def)
  then have "sp_roles (absdb s) rid = Some (role_info_of r)" using roles_of_live[OF keys] by auto
  from roles_invD(3)[OF spec_invD(1)[OF inv] this] show "rid \<in> roles_held (absdb s) g u" using r by (auto simp: roles_held_def)
next
  fix rid assume "rid \<in> roles_held (absdb s) g u"
  then have as: "(g, u, rid) \<in> sp_assigned (absdb s)" by (simp add: roles_held_def)
  obtain i where i: "sp_roles (absdb s) rid = Some i" "ri_guild i = g" "\<not> ri_default i" using members_invD(6)[OF spec_invD(2)[OF inv] as] by blast
  have "rid \<noteq> g" using roles_invD(3)[OF spec_invD(1)[OF inv] i(1)] i by auto
  moreover have "rid \<in> r_ID ` member_roles s g u" using i(1,2) as roles_of_live[OF keys] by (force simp: member_roles_def)
  ultimately show "rid \<in> r_ID ` member_roles s g u - {g}" by simp
qed

text \<open>The overwrites a query has to deliver for one channel: those of the user, its roles and everyone.\<close>

definition relevant :: "guild_spec \<Rightarrow> int64 \<Rightarrow> int64 \<Rightarrow> ChannelPermissionOverwrite \<Rightarrow> bool" where
  "relevant \<sigma> g u x \<longleftrightarrow> o_AppliesTo x = OVERWRITE_MEMBER \<and> o_AppliesToID x = u
     \<or> o_AppliesTo x = OVERWRITE_ROLE \<and> (o_AppliesToID x = g \<or> o_AppliesToID x \<in> roles_held \<sigma> g u)"

definition delivers :: "guild_db \<Rightarrow> int64 \<Rightarrow> int64 \<Rightarrow> int64 \<Rightarrow> ChannelPermissionOverwrite list \<Rightarrow> bool" where
  "delivers s g u cid ows \<longleftrightarrow> subjects_distinct ows \<and> set ows \<subseteq> {x \<in> set (db_overwrites s). o_ChannelID x = cid}
     \<and> (\<forall>x\<in>set (db_overwrites s). o_ChannelID x = cid \<and> relevant (absdb s) g u x \<longrightarrow> x \<in> set ows)"

lemma delivers_ow_bit:
  assumes keys: "keys_ok s" and d: "delivers s g u cid ows" and sel: "\<And>x. sel (ow_info_of x) = osel x"
    and T: "ty = OVERWRITE_MEMBER \<and> T \<subseteq> {u} \<or> ty = OVERWRITE_ROLE \<and> T \<subseteq> insert g (roles_held (absdb s) g u)"
  shows "(\<exists>x\<in>set ows. (o_AppliesTo x = ty \<and> o_AppliesToID x \<in> T) \<and> bit (osel x) n) \<longleftrightarrow> ow_bit sel (absdb s) cid ty T n"
proof
  assume "\<exists>x\<in>set ows. (o_AppliesTo x = ty \<and> o_AppliesToID x \<in> T) \<and> bit (osel x) n"
  then obtain x where x: "x \<in> set (db_overwrites s)" "o_ChannelID x = cid" "o_AppliesTo x = ty" "o_AppliesToID x \<in> T" "bit (osel x) n"
    using d by (auto simp: delivers_def)
  have "sp_overwrites (absdb s) (cid, ty, o_AppliesToID x) = Some (ow_info_of x)"
    using x overwrites_of_live[OF keys, of "(cid, ty, o_AppliesToID x)"] by auto
  then show "ow_bit sel (absdb s) cid ty T n"
    unfolding ow_bit_def by (intro bexI[OF _ x(4)]) (use x(5) sel in \<open>simp del: absdb_sel\<close>)
next
  assume "ow_bit sel (absdb s) cid ty T n"
  then obtain tid i where i: "tid \<in> T" "sp_overwrites (absdb s) (cid, ty, tid) = Some i" "bit (sel i) n"
    by (auto simp: ow_bit_def simp del: absdb_sel)
  then obtain x where x: "x \<in> set (db_overwrites s)" "o_key x = (cid, ty, tid)" "i = ow_info_of x"
    using overwrites_of_live[OF keys, of "(cid, ty, tid)"] by auto
  have "relevant (absdb s) g u x" using x T i(1) by (auto simp: relevant_def)
  then have "x \<in> set ows" using d x by (simp add: delivers_def)
  then show "\<exists>x\<in>set ows. (o_AppliesTo x = ty \<and> o_AppliesToID x \<in> T) \<and> bit (osel x) n" using x i sel by auto
qed

lemma granted_refines:
  assumes keys: "keys_ok s" and inv: "spec_inv (absdb s)" and d: "delivers s g u cid ows"
    and roles: "set roles = member_roles s g u" and base: "bits p = eff (absdb s) g u"
  shows "granted g (r_ID ` set roles) u (set ows) p n \<longleftrightarrow> chan_granted (absdb s) g u cid n"
proof -
  note ow = delivers_ow_bit[OF keys d]
  have m: "(\<exists>x\<in>set ows. (o_AppliesTo x = OVERWRITE_MEMBER \<and> o_AppliesToID x = u) \<and> bit (osel x) n)
      = ow_bit sel (absdb s) cid OVERWRITE_MEMBER {u} n" if "\<And>x. sel (ow_info_of x) = osel x" for sel osel
    using ow[where sel = sel and osel = osel, OF that, of OVERWRITE_MEMBER "{u}"] by simp
  have e: "(\<exists>x\<in>set ows. (o_AppliesTo x = OVERWRITE_ROLE \<and> o_AppliesToID x = g) \<and> bit (osel x) n)
      = ow_bit sel (absdb s) cid OVERWRITE_ROLE {g} n" if "\<And>x. sel (ow_info_of x) = osel x" for sel osel
    using ow[where sel = sel and osel = osel, OF that, of OVERWRITE_ROLE "{g}"] by simp
  have r: "(\<exists>x\<in>set ows. (o_AppliesTo x = OVERWRITE_ROLE \<and> o_AppliesToID x \<in> r_ID ` set roles \<and> o_AppliesToID x \<noteq> g) \<and> bit (osel x) n)
      = ow_bit sel (absdb s) cid OVERWRITE_ROLE (roles_held (absdb s) g u) n" if "\<And>x. sel (ow_info_of x) = osel x" for sel osel
    using ow[where sel = sel and osel = osel, OF that, of OVERWRITE_ROLE "roles_held (absdb s) g u"] unfolding member_roles_held[OF keys inv, symmetric] roles by auto
  have b: "bit p n \<longleftrightarrow> n \<in> eff (absdb s) g u" using base by blast
  show ?thesis unfolding granted_def chan_granted_def ow_layer_def
    by (simp only: m[where sel = oi_allow and osel = o_Allow, OF ow_info_of_simps(2)] m[where sel = oi_deny and osel = o_Deny, OF ow_info_of_simps(3)]
        e[where sel = oi_allow and osel = o_Allow, OF ow_info_of_simps(2)] e[where sel = oi_deny and osel = o_Deny, OF ow_info_of_simps(3)]
        r[where sel = oi_allow and osel = o_Allow, OF ow_info_of_simps(2)] r[where sel = oi_deny and osel = o_Deny, OF ow_info_of_simps(3)] b)
qed

lemma channelPermissions_refines:
  assumes keys: "keys_ok s" and inv: "spec_inv (absdb s)" and d: "delivers s g u cid ows"
    and g: "sp_owner (absdb s) g = Some (g_OwnerID guild)" "g_ID guild = g"
    and roles: "g_OwnerID guild \<noteq> u \<Longrightarrow> set roles = member_roles s g u"
  shows "bits (channelPermissions (memberAuthorityFromRoles guild roles u) roles ows u) = chan_eff (absdb s) g u cid"
proof -
  let ?a = "memberAuthorityFromRoles guild roles u"
  obtain rs where rs: "store_ListGuildMemberRoles g u s = Inr (rs, s)" by (simp add: store_ListGuildMemberRoles_def tx_read_def)
  have "set rs = member_roles s g u" using member_roles_set(2)[OF rs] by (simp add: member_roles_def)
  then have eq: "?a = memberAuthorityFromRoles guild rs u"
    using memberAuthorityFromRoles_cong[of roles rs guild u] roles
    by (cases "g_OwnerID guild = u") (simp add: memberAuthorityFromRoles_def, simp)
  note a = memberAuthorityFromRoles_refines[OF keys g(1) rs, folded eq]
  show ?thesis
  proof (cases "ma_IsOwner ?a \<or> bit (ma_Permissions ?a) 0")
    case True
    then have "sp_owner (absdb s) g = Some u \<or> 0 \<in> eff (absdb s) g u" using a(1,3) by blast
    then show ?thesis using channelPermissions_admin[OF True] bits_AllGuild by (simp add: chan_eff_def)
  next
    case False
    then have "g_OwnerID guild \<noteq> u" using a(3) g(1) by simp
    note gr = granted_refines[OF keys inv d roles[OF this] a(1)]
    have "\<not> (sp_owner (absdb s) g = Some u \<or> 0 \<in> eff (absdb s) g u)" using False a(1,3) by blast
    then show ?thesis using False d a(4) g(2)
      by (subst bit_channelPermissions) (auto simp: delivers_def chan_eff_def gr simp del: absdb_sel)
  qed
qed

section \<open>The queries agree\<close>

lemma deliversI:
  assumes keys: "keys_ok s" and P: "\<And>x. P x \<Longrightarrow> o_ChannelID x = cid"
    and Q: "\<And>x. x \<in> set (db_overwrites s) \<Longrightarrow> o_ChannelID x = cid \<Longrightarrow> relevant (absdb s) g u x \<Longrightarrow> P x"
  shows "delivers s g u cid (sort_key f (filter P (db_overwrites s)))"
proof -
  have "distinct (map (\<lambda>x. (o_AppliesTo x, o_AppliesToID x)) (filter P (db_overwrites s)))"
    using keys_okD(5)[OF keys] P by (auto simp: distinct_map inj_on_def)
  then have "subjects_distinct (sort_key f (filter P (db_overwrites s)))" by (simp add: distinct_map)
  then show ?thesis using P Q by (auto simp: delivers_def)
qed

text \<open>An overwrite belongs to the guild of its channel.\<close>

lemma overwrite_guild:
  assumes keys: "keys_ok s" and inv: "spec_inv (absdb s)" and x: "x \<in> set (db_overwrites s)"
    and c: "sp_channels (absdb s) (o_ChannelID x) = Some c"
  shows "o_GuildID x = ci_guild c"
proof -
  have "sp_overwrites (absdb s) (o_key x) = Some (ow_info_of x)" using overwrites_of_live[OF keys, of "o_key x"] x by auto
  from overwrites_invD(1)[OF spec_invD(4)[OF inv] this] show ?thesis using c by (auto simp del: absdb_sel)
qed

lemma loadAuthorizedChannel_refines:
  assumes keys: "keys_ok s" and inv: "spec_inv (absdb s)" and run: "loadAuthorizedChannel cid u s = Inr ((c, p), s')"
  shows "bits p = chan_eff (absdb s) (c_GuildID c) u cid" "s' = s" "sp_channels (absdb s) cid = Some (chan_info_of c)"
    "(c_GuildID c, u) \<in> sp_members (absdb s)"
proof -
  obtain a roles where c: "store_GetGuildChannel cid s = Inr (c, s)" and l: "loadMemberAuthorityAndRoles (c_GuildID c) u s = Inr ((a, roles), s)"
    and p: "ma_IsOwner a \<or> bit (ma_Permissions a) 0 \<Longrightarrow> p = AllGuildPermissions"
      "\<not> (ma_IsOwner a \<or> bit (ma_Permissions a) 0) \<Longrightarrow>
         p = channelPermissions a roles (sort_key (\<lambda>x. (o_AppliesTo x, o_AppliesToID x)) (filter (\<lambda>x. o_ChannelID x = cid) (db_overwrites s))) u"
    and s: "s' = s"
    using run unfolding loadAuthorizedChannel_def
    by (auto simp: tx_simps read_simps admin_bit store_ListGuildChannelPermissionOverwrites_def split: if_splits)
  note a = loadMemberAuthorityAndRoles_refines[OF keys l] and c' = GetGuildChannel_refines[OF keys c]
  show "s' = s" "sp_channels (absdb s) cid = Some (chan_info_of c)" "(c_GuildID c, u) \<in> sp_members (absdb s)" using s c' a by simp_all
  have eq: "a = memberAuthorityFromRoles (ma_Guild a) roles u"
    using l by (auto simp: loadMemberAuthorityAndRoles_def memberAuthorityFromRoles_def Let_def tx_simps split: if_splits)
  have d: "delivers s (c_GuildID c) u cid (sort_key (\<lambda>x. (o_AppliesTo x, o_AppliesToID x)) (filter (\<lambda>x. o_ChannelID x = cid) (db_overwrites s)))"
    by (rule deliversI[OF keys])
  have r: "g_OwnerID (ma_Guild a) \<noteq> u \<Longrightarrow> set roles = member_roles s (c_GuildID c) u"
    using a(4,6,10) member_roles_set(2)[of "c_GuildID c" u s roles s] by (simp add: member_roles_def)
  note cp = channelPermissions_refines[OF keys inv d a(6,5) r, folded eq]
  show "bits p = chan_eff (absdb s) (c_GuildID c) u cid"
    using cp p channelPermissions_admin[of a roles _ u] by (cases "ma_IsOwner a \<or> bit (ma_Permissions a) 0") simp_all
qed

text \<open>\<open>visibleGuildChannels\<close> on a query that delivers the overwrites of every channel.\<close>

lemma visibleGuildChannels_refines:
  assumes keys: "keys_ok s" and inv: "spec_inv (absdb s)" and g: "sp_owner (absdb s) g = Some (g_OwnerID guild)" "g_ID guild = g"
    and roles: "g_OwnerID guild \<noteq> u \<Longrightarrow> set roles = member_roles s g u"
    and d: "\<And>c. c \<in> set cs \<Longrightarrow> g_OwnerID guild \<noteq> u \<Longrightarrow> delivers s g u (c_ID c) (filter (\<lambda>x. o_ChannelID x = c_ID c) ows)"
  shows "visibleGuildChannels (memberAuthorityFromRoles guild roles u) roles cs ows u = filter (\<lambda>c. 5 \<in> chan_eff (absdb s) g u (c_ID c)) cs"
proof (cases "g_OwnerID guild = u")
  case True
  then show ?thesis using g by (simp add: visibleGuildChannels_def memberAuthorityFromRoles_def chan_eff_def)
next
  case False
  let ?a = "memberAuthorityFromRoles guild roles u"
  have cp: "bits (channelPermissions ?a roles (filter (\<lambda>x. o_ChannelID x = c_ID c) ows) u) = chan_eff (absdb s) g u (c_ID c)" if "c \<in> set cs" for c
    using channelPermissions_refines[OF keys inv d[OF that False] g roles] by simp
  have "visibleGuildChannels ?a roles cs ows u =
      filter (\<lambda>c. bit (channelPermissions ?a roles (filter (\<lambda>x. o_ChannelID x = c_ID c) ows) u) 5) cs"
    unfolding visibleGuildChannels_def Let_def view_bit admin_bit
    using channelPermissions_admin[of ?a roles _ u] by (auto simp: bit_AllGuild)
  also have "\<dots> = filter (\<lambda>c. 5 \<in> chan_eff (absdb s) g u (c_ID c)) cs" using cp by (intro filter_cong) blast+
  finally show ?thesis .
qed

lemma delivers_guild:
  assumes keys: "keys_ok s" and inv: "spec_inv (absdb s)"
    and ows: "ListGuildChannelPermissionOverwritesByGuild g s = Inr (ows, s')"
    and c: "c \<in> set (db_channels s)" "c_GuildID c = g" "c_DeletedAt c = 0"
  shows "delivers s g u (c_ID c) (filter (\<lambda>x. o_ChannelID x = c_ID c) ows)"
proof -
  have ch: "sp_channels (absdb s) (c_ID c) = Some (chan_info_of c)" using channels_of_live[OF keys, of "c_ID c"] c by auto
  have "filter (\<lambda>x. o_ChannelID x = c_ID c) ows = sort_key (\<lambda>x. (o_ChannelID x, o_AppliesTo x, o_AppliesToID x))
      (filter (\<lambda>x. o_GuildID x = g \<and> o_ChannelID x = c_ID c) (db_overwrites s))"
    using ows by (auto simp: ListGuildChannelPermissionOverwritesByGuild_def tx_read_Inr filter_sort conj_commute)
  then show ?thesis using overwrite_guild[OF keys inv] ch c(2)
    by (simp only:) (rule deliversI[OF keys], auto simp del: absdb_sel)
qed

lemma ListGuildChannels_refines:
  assumes keys: "keys_ok s" and inv: "spec_inv (absdb s)" and run: "ListGuildChannels g u s = Inr ((cs, n), s')"
  shows "cs = visible_channels s g u"
proof -
  obtain a roles cs0 where l: "loadMemberAuthorityAndRoles g u s = Inr ((a, roles), s)"
    and cs0: "cs0 = sort_key (\<lambda>c. (c_Position c, c_ID c)) (filter (\<lambda>c. c_GuildID c = g \<and> c_DeletedAt c = 0) (db_channels s))"
    and cs: "ma_IsOwner a \<or> bit (ma_Permissions a) 0 \<Longrightarrow> cs = cs0"
      "\<not> (ma_IsOwner a \<or> bit (ma_Permissions a) 0) \<Longrightarrow>
         \<exists>ows. ListGuildChannelPermissionOverwritesByGuild g s = Inr (ows, s) \<and> cs = visibleGuildChannels a roles cs0 ows u"
    using run by (auto simp: ListGuildChannels_def loadVisibleGuildChannels_def ListGuildChannelsWithRevision_def
        store_ListGuildChannels_def tx_simps read_simps admin_bit split: if_splits)
  note a = loadMemberAuthorityAndRoles_refines[OF keys l]
  obtain ows where ows: "ListGuildChannelPermissionOverwritesByGuild g s = Inr (ows, s)"
    by (simp add: ListGuildChannelPermissionOverwritesByGuild_def tx_read_def)
  have eq: "a = memberAuthorityFromRoles (ma_Guild a) roles u"
    using l by (auto simp: loadMemberAuthorityAndRoles_def memberAuthorityFromRoles_def Let_def tx_simps split: if_splits)
  have r: "g_OwnerID (ma_Guild a) \<noteq> u \<Longrightarrow> set roles = member_roles s g u"
    using a(4,6,10) member_roles_set(2)[of g u s roles s] by (simp add: member_roles_def)
  have "cs = visibleGuildChannels a roles cs0 ows u" using cs ows
    by (cases "ma_IsOwner a \<or> bit (ma_Permissions a) 0") (auto simp: visibleGuildChannels_def admin_bit)
  also have "\<dots> = filter (\<lambda>c. 5 \<in> chan_eff (absdb s) g u (c_ID c)) cs0"
    by (subst eq, rule visibleGuildChannels_refines[OF keys inv a(6,5) r]) (use delivers_guild[OF keys inv ows] in \<open>auto simp: cs0\<close>)
  finally show ?thesis by (simp add: cs0 visible_channels_def filter_sort conj_ac)
qed

lemma visibility_refines:
  assumes keys: "keys_ok s" and inv: "spec_inv (absdb s)" and run: "GetUserGuildChannelVisibility u g s = Inr (v, s')"
  shows "gv_VisibleChannelIDs v = sort (map c_ID (visible_channels s g u))"
    "gv_VisibleTextChannelIDs v = sort (map c_ID (filter (\<lambda>c. c_Type c = CHANNEL_TEXT) (visible_channels s g u)))"
proof -
  let ?cs = "sort_key (\<lambda>c. (c_Position c, c_ID c)) (filter (\<lambda>c. c_GuildID c = g \<and> c_DeletedAt c = 0) (db_channels s))"
  obtain guild roles ows where gm: "GetGuildForMember g u s = Inr (guild, s)"
    and r: "g_OwnerID guild \<noteq> u \<Longrightarrow> store_ListGuildMemberRoles g u s = Inr (roles, s)"
    and ows: "g_OwnerID guild \<noteq> u \<Longrightarrow> ListGuildChannelPermissionOverwritesByGuild g s = Inr (ows, s)"
    and v: "gv_VisibleChannelIDs v = sort (map c_ID (visibleGuildChannels (memberAuthorityFromRoles guild roles u) roles ?cs ows u))"
      "gv_VisibleTextChannelIDs v = sort (map c_ID (filter (\<lambda>c. c_Type c = CHANNEL_TEXT)
         (visibleGuildChannels (memberAuthorityFromRoles guild roles u) roles ?cs ows u)))"
    using run by (fastforce simp: GetUserGuildChannelVisibility_def Let_def store_ListGuildChannels_def tx_simps read_simps split: if_splits)
  note g = GetGuildForMember_refines[OF keys gm]
  have "visibleGuildChannels (memberAuthorityFromRoles guild roles u) roles ?cs ows u = filter (\<lambda>c. 5 \<in> chan_eff (absdb s) g u (c_ID c)) ?cs"
    by (rule visibleGuildChannels_refines[OF keys inv g(2,4)])
      (use r member_roles_set(2)[OF r] delivers_guild[OF keys inv ows] in \<open>auto simp: member_roles_def\<close>)
  also have "\<dots> = visible_channels s g u" by (simp add: visible_channels_def filter_sort conj_ac)
  finally show "gv_VisibleChannelIDs v = sort (map c_ID (visible_channels s g u))"
    "gv_VisibleTextChannelIDs v = sort (map c_ID (filter (\<lambda>c. c_Type c = CHANNEL_TEXT) (visible_channels s g u)))" using v by simp_all
qed

text \<open>READY: the queries range over all guilds of the user and are grouped afterwards.\<close>

lemma ready_roles:
  assumes keys: "keys_ok s" and inv: "spec_inv (absdb s)" and g: "g \<in> set gids"
    and l: "ListGuildMemberRolesByGuilds gids u s = Inr (roles, s')"
  shows "set (groupRolesByGuild roles g) = member_roles s g u"
proof -
  have "gid' = r_GuildID r" if r: "r \<in> set (db_roles s)" "r_DeletedAt r = 0" and as: "(gid', u, r_ID r) \<in> sp_assigned (absdb s)" for gid' r
  proof -
    have "sp_roles (absdb s) (r_ID r) = Some (role_info_of r)" using roles_of_live[OF keys] r by auto
    then show ?thesis using members_invD(6)[OF spec_invD(2)[OF inv] as] by (auto simp del: absdb_sel)
  qed
  then show ?thesis using l g
    by (auto simp: ListGuildMemberRolesByGuilds_def groupRolesByGuild_def tx_read_Inr member_roles_def list_ex_iff assigned_of_def live_keys_def)
qed

lemma ready_overwrites:
  assumes keys: "keys_ok s" and inv: "spec_inv (absdb s)" and g: "g \<in> set gids"
    and ows: "ListGuildChannelPermissionOverwritesByGuilds gids u s = Inr (ows, s')"
    and c: "c \<in> set (db_channels s)" "c_GuildID c = g" "c_DeletedAt c = 0"
  shows "delivers s g u (c_ID c) (filter (\<lambda>x. o_ChannelID x = c_ID c) (groupOverwritesByGuild ows g))"
proof -
  have ch: "sp_channels (absdb s) (c_ID c) = Some (chan_info_of c)" using channels_of_live[OF keys, of "c_ID c"] c by auto
  let ?P = "\<lambda>x. (o_GuildID x \<in> set gids \<and> (o_AppliesTo x = 2 \<and> o_AppliesToID x = u \<or> o_AppliesTo x = 1 \<and> (o_AppliesToID x = o_GuildID x
      \<or> member_has_role (db_member_roles s) (o_GuildID x) u (o_AppliesToID x)))) \<and> o_GuildID x = g \<and> o_ChannelID x = c_ID c"
  have "filter (\<lambda>x. o_ChannelID x = c_ID c) (groupOverwritesByGuild ows g) =
      sort_key (\<lambda>x. (o_GuildID x, o_ChannelID x, o_AppliesTo x, o_AppliesToID x)) (filter ?P (db_overwrites s))"
    using ows by (auto simp: ListGuildChannelPermissionOverwritesByGuilds_def groupOverwritesByGuild_def tx_read_Inr filter_sort conj_ac)
  moreover have "delivers s g u (c_ID c) (sort_key (\<lambda>x. (o_GuildID x, o_ChannelID x, o_AppliesTo x, o_AppliesToID x)) (filter ?P (db_overwrites s)))"
    using overwrite_guild[OF keys inv] ch c(2) g
    by (intro deliversI[OF keys]) (auto simp: relevant_def roles_held_def assigned_of_def live_keys_def list_ex_iff)
  ultimately show ?thesis by simp
qed

lemma ready_channels:
  assumes keys: "keys_ok s" and g: "guild \<in> set (db_guilds s)" "g_ID guild \<in> set gids" "g_DeletedAt guild = 0"
    and l: "ListGuildChannelsWithRevisionsByGuilds gids s = Inr ((cs, revs), s')"
  shows "groupChannelsByGuild cs (g_ID guild) = sort_key (\<lambda>c. (c_Position c, c_ID c))
      (filter (\<lambda>c. c_GuildID c = g_ID guild \<and> c_DeletedAt c = 0) (db_channels s))"
    "revs (g_ID guild) = Some (g_ChannelLayoutRevision guild)"
proof -
  define gs where "gs = sort_key g_ID (filter (\<lambda>g. g_ID g \<in> set gids \<and> g_DeletedAt g = 0) (db_guilds s))"
  let ?cs = "\<lambda>gid. sort_key (\<lambda>c. (c_Position c, c_ID c)) (filter (\<lambda>c. c_GuildID c = gid \<and> c_DeletedAt c = 0) (db_channels s))"
  have cs: "cs = concat (map (\<lambda>g. ?cs (g_ID g)) gs)" and revs: "revs = map_of (map (\<lambda>g. (g_ID g, g_ChannelLayoutRevision g)) gs)"
    using l by (auto simp: ListGuildChannelsWithRevisionsByGuilds_def Let_def tx_read_Inr gs_def)
  have d: "distinct (map g_ID gs)" using keys_okD(1)[OF keys] by (simp add: gs_def distinct_map inj_on_def)
  have mem: "guild \<in> set gs" using g by (simp add: gs_def)
  have "filter (\<lambda>c. c_GuildID c = gid) (concat (map (\<lambda>g. ?cs (g_ID g)) xs)) = (if gid \<in> g_ID ` set xs then ?cs gid else [])"
    if "distinct (map g_ID xs)" for xs :: "Guild list" and gid
    using that by (induction xs) (auto simp: filter_sort filter_empty_conv intro!: filter_cong arg_cong[where f = "sort_key _"])
  from this[OF d, of "g_ID guild"] show "groupChannelsByGuild cs (g_ID guild) = ?cs (g_ID guild)"
    using mem by (auto simp: groupChannelsByGuild_def cs)
  show "revs (g_ID guild) = Some (g_ChannelLayoutRevision guild)"
    unfolding revs by (rule map_of_is_SomeI) (use d mem in \<open>auto simp: comp_def\<close>)
qed

lemma ready_guild_refines:
  assumes keys: "keys_ok s" and inv: "spec_inv (absdb s)" and g: "guild \<in> set (db_guilds s)" "g_ID guild \<in> set gids" "g_DeletedAt guild = 0"
    and mr: "ListGuildMemberRolesByGuilds gids u s = Inr (mroles, s)" and cs: "ListGuildChannelsWithRevisionsByGuilds gids s = Inr ((cs, revs), s)"
    and ows: "ListGuildChannelPermissionOverwritesByGuilds gids u s = Inr (ows, s)"
  shows "rg_Channels (ready_guild u roles (groupRolesByGuild mroles) (groupChannelsByGuild cs) revs (groupOverwritesByGuild ows) guild)
    = visible_channels s (g_ID guild) u"
proof -
  let ?g = "g_ID guild"
  have own: "sp_owner (absdb s) ?g = Some (g_OwnerID guild)" using guilds_of_live[OF keys, of ?g "g_OwnerID guild"] g by auto
  note ch = ready_channels(1)[OF keys g cs]
  have "visibleGuildChannels (memberAuthorityFromRoles guild (groupRolesByGuild mroles ?g) u) (groupRolesByGuild mroles ?g)
      (groupChannelsByGuild cs ?g) (groupOverwritesByGuild ows ?g) u
      = filter (\<lambda>c. 5 \<in> chan_eff (absdb s) ?g u (c_ID c)) (groupChannelsByGuild cs ?g)"
    by (rule visibleGuildChannels_refines[OF keys inv own refl ready_roles[OF keys inv g(2) mr]])
      (use ready_overwrites[OF keys inv g(2) ows] in \<open>auto simp: ch\<close>)
  also have "\<dots> = visible_channels s ?g u" by (simp add: ch visible_channels_def filter_sort conj_ac)
  finally show ?thesis by (simp add: ready_guild_def Let_def) (simp add: visible_channels_def sort_key_id_if_sorted)
qed

lemma GetUserReadyState_refines:
  assumes keys: "keys_ok s" and inv: "spec_inv (absdb s)" and run: "GetUserReadyState env u s = Inr (rs, s')" and r: "r \<in> set rs"
  shows "rg_Channels r = visible_channels s (g_ID (rg_Guild r)) u" "rg_Guild r \<in> set (db_guilds s)" "g_DeletedAt (rg_Guild r) = 0"
    "(g_ID (rg_Guild r), u) \<in> sp_members (absdb s)" "rg_ChannelLayoutRevision r = g_ChannelLayoutRevision (rg_Guild r)"
proof -
  obtain guilds roles mroles cs revs ows where gl: "store_ListUserGuilds u 0 (JoinedGuilds (e_Limits env)) s = Inr (guilds, s)"
    and mr: "ListGuildMemberRolesByGuilds (map g_ID guilds) u s = Inr (mroles, s)"
    and cs: "ListGuildChannelsWithRevisionsByGuilds (map g_ID guilds) s = Inr ((cs, revs), s)"
    and ows: "ListGuildChannelPermissionOverwritesByGuilds (map g_ID guilds) u s = Inr (ows, s)"
    and rs: "r \<in> set rs \<Longrightarrow> \<exists>guild\<in>set guilds. \<exists>xs. r = (ready_guild u roles (groupRolesByGuild mroles) (groupChannelsByGuild cs) revs
        (groupOverwritesByGuild ows) guild)\<lparr>rg_PermissionOverwrites := xs\<rparr>"
    using run by (fastforce simp: GetUserReadyState_def Let_def tx_simps read_simps)
  from rs[OF r] obtain guild xs where guild: "guild \<in> set guilds" and r': "r = (ready_guild u roles (groupRolesByGuild mroles) (groupChannelsByGuild cs) revs
        (groupOverwritesByGuild ows) guild)\<lparr>rg_PermissionOverwrites := xs\<rparr>" by blast
  have g: "guild \<in> set (db_guilds s)" "g_DeletedAt guild = 0" "(g_ID guild, u) \<in> sp_members (absdb s)"
    using gl guild set_take_subset by (fastforce simp: store_ListUserGuilds_def tx_read_Inr members_of_def live_keys_def list_ex_iff)+
  have gid: "g_ID guild \<in> set (map g_ID guilds)" using guild by simp
  have rg: "rg_Guild r = guild" by (simp add: r' ready_guild_def Let_def)
  show "rg_Channels r = visible_channels s (g_ID (rg_Guild r)) u"
    using ready_guild_refines[OF keys inv g(1) gid g(2) mr cs ows] rg by (simp add: r')
  show "rg_Guild r \<in> set (db_guilds s)" "g_DeletedAt (rg_Guild r) = 0" "(g_ID (rg_Guild r), u) \<in> sp_members (absdb s)" using rg g by simp_all
  show "rg_ChannelLayoutRevision r = g_ChannelLayoutRevision (rg_Guild r)"
    using ready_channels(2)[OF keys g(1) gid g(2) cs] by (simp add: r' ready_guild_def Let_def)
qed

end
