(* ===== verification/Guild_Access.thy ===== *)
theory Guild_Access
  imports Guild_System Guild_Visibility
begin

text \<open>
  The access revision of a guild (migration 000007) is what consumers of the guild service compare to
  decide whether what they know about somebody's access is still valid. This theory shows that it
  serves that purpose: a call that changes the members, the permissions of any role, the assignments, the
  channels, an overwrite or the owner of a guild raises the guild's revision.

  The interface \<open>store_contract\<close> lists the store operations that change the database; any relation
  they all satisfy is satisfied by every handler.
\<close>

section \<open>Contracts of the store carry over to the handlers\<close>

locale store_contract = tx_contract R for R :: "guild_db \<Rightarrow> guild_db \<Rightarrow> bool" +
  assumes guild_ops: "\<And>gid owner name ts. tx_rel R (store_CreateGuild gid owner name ts)"
    "\<And>env gid nm desc. tx_rel R (store_UpdateGuild env gid nm desc)" "\<And>env gid asset. tx_rel R (UpdateGuildIcon env gid asset)"
    "\<And>gid ts. tx_rel R (store_DeleteGuild gid ts)" "\<And>env gid o1 o2. tx_rel R (store_TransferGuildOwnership env gid o1 o2)"
    "\<And>gid n. tx_rel R (AdvanceGuildChannelLayoutRevision gid n)"
  and member_ops: "\<And>gid uid ts. tx_rel R (CreateGuildMember gid uid ts)" "\<And>env gid uid nick. tx_rel R (UpdateGuildMemberNickname env gid uid nick)"
    "\<And>gid uid ts. tx_rel R (RemoveGuildMember gid uid ts)" "\<And>gid ts. tx_rel R (DeleteGuildMembers gid ts)"
    "\<And>ban. tx_rel R (UpsertGuildBan ban)" "\<And>gid uid. tx_rel R (DeleteGuildBan gid uid)" "\<And>gid. tx_rel R (DeleteGuildBans gid)"
  and role_ops: "\<And>r. tx_rel R (insert_role r)" "\<And>gid rid nm ps ts. tx_rel R (store_UpdateGuildRole gid rid nm ps ts)"
    "\<And>gid rid ts. tx_rel R (store_DeleteGuildRole gid rid ts)" "\<And>gid ts. tx_rel R (DeleteGuildRoles gid ts)"
    "\<And>gid rids poss ts. tx_rel R (UpdateGuildRolePositions gid rids poss ts)"
    "\<And>gid uid rid ts. tx_rel R (store_AddGuildMemberRole gid uid rid ts)" "\<And>p. tx_rel R (delete_member_roles p)"
  and channel_ops: "\<And>cid gid nm ty pos topic par ts. tx_rel R (store_CreateGuildChannel cid gid nm ty pos topic par ts)"
    "\<And>cid nm tp pr ts. tx_rel R (store_UpdateGuildChannel cid nm tp pr ts)" "\<And>gid us ts. tx_rel R (UpdateGuildChannelPositions gid us ts)"
    "\<And>cid ts. tx_rel R (store_DeleteGuildChannel cid ts)" "\<And>gid ts. tx_rel R (DeleteGuildChannels gid ts)"
    "\<And>gid par ts. tx_rel R (ClearGuildChannelParent gid par ts)"
    "\<And>ow. tx_rel R (store_UpsertGuildChannelPermissionOverwrite ow)" "\<And>p. tx_rel R (delete_overwrites p)"
  and invite_ops: "\<And>i. tx_rel R (store_CreateGuildInvite i)" "\<And>code ts. tx_rel R (ConsumeGuildInvite code ts)"
    "\<And>code. tx_rel R (store_DeleteGuildInvite code)" "\<And>gid. tx_rel R (DeleteGuildInvites gid)"
  and profile_ops: "\<And>env p. tx_rel R (UpsertGuildMemberProfile env p)" "\<And>env p. tx_rel R (UpdateGuildMemberProfilesByUser env p)"
    "\<And>env gid uid nick. tx_rel R (UpdateGuildMemberProfileNickname env gid uid nick)"
    "\<And>gid uid. tx_rel R (DeleteGuildMemberProfile gid uid)" "\<And>gid. tx_rel R (DeleteGuildMemberProfiles gid)"
  and other_ops: "\<And>params. tx_rel R (ClaimGuildIdempotency params)" "\<And>env k events. tx_rel R (enqueueEvents env k events)"
begin

lemma rel_reads: "tx_rel (=) m \<Longrightarrow> tx_rel R m"
  using R_refl by (fastforce simp: tx_rel_def)

lemma rel_option: "(opt = None \<Longrightarrow> tx_rel R m) \<Longrightarrow> (\<And>x. opt = Some x \<Longrightarrow> tx_rel R (f x)) \<Longrightarrow>
    tx_rel R (case opt of None \<Rightarrow> m | Some x \<Rightarrow> f x)"
  by (cases opt) auto

lemma rel_prod: "(\<And>x y. tx_rel R (f x y)) \<Longrightarrow> tx_rel R (case p of (x, y) \<Rightarrow> f x y)"
  by (cases p) auto

lemma rel_sum: "(\<And>e. tx_rel R (f e)) \<Longrightarrow> (\<And>x. tx_rel R (g x)) \<Longrightarrow> tx_rel R (case r of Inl e \<Rightarrow> f e | Inr x \<Rightarrow> g x)"
  by (cases r) auto

lemmas ops = guild_ops member_ops role_ops channel_ops invite_ops profile_ops other_ops
lemmas all_reads = read_rules[THEN rel_reads] channel_reads[THEN rel_reads]

lemma rel_with_claim:
  "(\<And>rid. tx_rel R (existing rid)) \<Longrightarrow> tx_rel R create \<Longrightarrow>
     tx_rel R (with_claim env actor operation key requestHash resourceID ttl existing create)"
  unfolding with_claim_def by (intro rel_option rel_rules ops)

lemma rel_deletions:
  "tx_rel R (store_RemoveGuildMemberRole gid uid rid)" "tx_rel R (DeleteGuildMemberRoleAssignments gid uid)"
  "tx_rel R (DeleteGuildRoleAssignments gid rid)" "tx_rel R (DeleteAllGuildRoleAssignments gid)"
  "tx_rel R (store_DeleteGuildChannelPermissionOverwrite cid ty tid)" "tx_rel R (DeleteGuildChannelPermissionOverwrites cid)"
  "tx_rel R (DeleteAllGuildChannelPermissionOverwrites gid)" "tx_rel R (DeleteGuildChannelPermissionOverwritesForAppliesTo gid ty tid)"
  "tx_rel R (store_CreateGuildRole rid gid nm ps pos ts)" "tx_rel R (CreateDefaultRole gid ts)"
  unfolding store_RemoveGuildMemberRole_def DeleteGuildMemberRoleAssignments_def DeleteGuildRoleAssignments_def
    DeleteAllGuildRoleAssignments_def store_DeleteGuildChannelPermissionOverwrite_def DeleteGuildChannelPermissionOverwrites_def
    DeleteAllGuildChannelPermissionOverwrites_def DeleteGuildChannelPermissionOverwritesForAppliesTo_def store_CreateGuildRole_def
    CreateDefaultRole_def by (intro rel_rules ops)+

lemma rel_upsertDefaultEveryoneOverwrite: "tx_rel R (upsertDefaultEveryoneOverwrite cid gid ts n)"
  unfolding upsertDefaultEveryoneOverwrite_def by (intro rel_rules all_reads ops)

lemmas composed = rel_rules rel_option rel_prod rel_sum rel_with_claim all_reads ops rel_deletions rel_upsertDefaultEveryoneOverwrite

lemma rel_roles:
  "tx_rel R (CreateGuildRole env gid a name p key)" "tx_rel R (UpdateGuildRole env gid a rid nm ps)" "tx_rel R (DeleteGuildRole env gid a rid)"
  "tx_rel R (ReorderGuildRoles env gid a items)" "tx_rel R (changeGuildRoleMembers env gid a rid uids add)"
  unfolding CreateGuildRole_def UpdateGuildRole_def DeleteGuildRole_def ReorderGuildRoles_def changeGuildRoleMembers_def
    change_member_def Let_def by (intro composed)+

lemma rel_assignments:
  "tx_rel R (AddGuildMemberRole env gid a uid rid)" "tx_rel R (RemoveGuildMemberRole env gid a uid rid)"
  "tx_rel R (AddGuildRoleMembers env gid a rid uids)" "tx_rel R (RemoveGuildRoleMembers env gid a rid uids)"
  unfolding AddGuildMemberRole_def RemoveGuildMemberRole_def AddGuildRoleMembers_def RemoveGuildRoleMembers_def
    changeGuildMemberRole_def by (intro composed rel_roles)+

lemma rel_members:
  "tx_rel R (AddGuildMember env pre gid a uid)" "tx_rel R (UpdateGuildMember env gid a nick)" "tx_rel R (KickGuildMember env gid a uid)"
  "tx_rel R (LeaveGuild env gid a)" "tx_rel R (TransferGuildOwnership env gid a uid)"
  "tx_rel R (BanGuildMember env pre gid a uid reason)" "tx_rel R (UnbanGuildMember env gid a uid)"
  unfolding AddGuildMember_def UpdateGuildMember_def KickGuildMember_def LeaveGuild_def TransferGuildOwnership_def
    BanGuildMember_def UnbanGuildMember_def remove_banned_def Let_def by (intro composed)+

lemma rel_channels:
  "tx_rel R (CreateGuildChannel env gid a name ty topic par expected key)" "tx_rel R (UpdateGuildChannel env cid a nm tp pr expected)"
  "tx_rel R (DeleteGuildChannel env cid a expected)" "tx_rel R (ReorderGuildChannels env gid a items expected)"
  "tx_rel R (UpsertGuildChannelPermissionOverwrite env cid a ty tid al dn)" "tx_rel R (DeleteGuildChannelPermissionOverwrite env cid a ty tid)"
  unfolding CreateGuildChannel_def UpdateGuildChannel_def move_to_parent_def update_fields_def detach_children_def DeleteGuildChannel_def
    ReorderGuildChannels_def apply_placements_def UpsertGuildChannelPermissionOverwrite_def DeleteGuildChannelPermissionOverwrite_def Let_def
  by (intro composed)+

lemma rel_CreateGuild: "tx_rel R (CreateGuild env owner name key)"
  unfolding CreateGuild_def new_guild_def createDefaultChannels_def create_default_channel_def hydrate_owner_profile_def Let_def
  by (intro composed)

lemma rel_lifecycle:
  "tx_rel R (UpdateGuild env gid a nm desc)" "tx_rel R (DeleteGuild env gid a)" "tx_rel R (CreateGuildInvite env gid a uses ms key)"
  "tx_rel R (DeleteGuildInvite code a)" "tx_rel R (JoinGuildByInvite env code a)" "tx_rel R (CompleteGuildIconUpload env gid a up)"
  unfolding UpdateGuild_def DeleteGuild_def CreateGuildInvite_def DeleteGuildInvite_def JoinGuildByInvite_def or_invite_not_found_def
    create_invite_attempt_def CompleteGuildIconUpload_def getGuildIconUpload_def Let_def by (intro composed rel_invite_attempts)+

lemma rel_handle: "tx_rel R (handle env pre a q)"
  by (cases q) (auto simp: tx_unit_def intro!: rel_then rel_return rel_roles rel_assignments rel_members rel_channels rel_CreateGuild rel_lifecycle)

end

section \<open>What decides access\<close>

definition rows_of :: "('r \<Rightarrow> int64) \<Rightarrow> int64 \<Rightarrow> 'r list \<Rightarrow> 'r list" where
  "rows_of guild g t = filter (\<lambda>r. guild r = g) t"

text \<open>The columns that decide access to guild \<open>g\<close>, row by row.\<close>

definition access_rows where
  "access_rows g s =
     (map (\<lambda>r. (g_OwnerID r, g_DeletedAt r)) (rows_of g_ID g (db_guilds s)),
      map (\<lambda>m. (m_UserID m, m_DeletedAt m = 0)) (rows_of m_GuildID g (db_members s)),
      map (\<lambda>r. (r_ID r, r_Permissions r, r_IsDefault r, r_DeletedAt r = 0)) (rows_of r_GuildID g (db_roles s)),
      map (\<lambda>x. (mr_UserID x, mr_RoleID x)) (rows_of mr_GuildID g (db_member_roles s)),
      map (\<lambda>c. (c_ID c, c_DeletedAt c = 0)) (rows_of c_GuildID g (db_channels s)),
      map (\<lambda>x. (o_ChannelID x, o_AppliesTo x, o_AppliesToID x, o_Allow x, o_Deny x)) (rows_of o_GuildID g (db_overwrites s)))"

definition known_guild :: "guild_db \<Rightarrow> int64 \<Rightarrow> bool" where
  "known_guild s g \<longleftrightarrow> g \<in> g_ID ` set (db_guilds s)"

definition access_rev :: "guild_db \<Rightarrow> int64 \<Rightarrow> int64" where
  "access_rev s g = sum_list (map g_AccessRevision (rows_of g_ID g (db_guilds s)))"

lemma rows_of_update:
  assumes "\<And>r. p r \<Longrightarrow> guild (f r) = guild r" "g \<notin> guild ` {r \<in> set t. p r}"
  shows "rows_of guild g (tbl_update p f t) = rows_of guild g t"
  using assms(2) by (induction t) (auto simp: rows_of_def tbl_update_def assms(1))

lemma rows_of_project:
  assumes "\<And>r. p r \<Longrightarrow> guild (f r) = guild r" "\<And>r. p r \<Longrightarrow> proj (f r) = proj r"
  shows "map proj (rows_of guild g (tbl_update p f t)) = map proj (rows_of guild g t)"
  by (induction t) (auto simp: rows_of_def tbl_update_def assms)

lemma rows_of_delete: "g \<notin> guild ` {r \<in> set t. p r} \<Longrightarrow> rows_of guild g (tbl_delete p t) = rows_of guild g t"
  by (induction t) (auto simp: rows_of_def tbl_delete_def)

lemma rows_of_append: "rows_of guild g (t @ u) = rows_of guild g t @ rows_of guild g u"
  by (simp add: rows_of_def)

lemma rows_of_single: "rows_of guild g [r] = (if guild r = g then [r] else [])"
  by (simp add: rows_of_def)

section \<open>The contract\<close>

definition access_step :: "guild_db \<Rightarrow> guild_db \<Rightarrow> bool" where
  "access_step s s' \<longleftrightarrow> (\<forall>g. (known_guild s g \<longrightarrow> known_guild s' g) \<and> (known_guild s' g \<longrightarrow> known_guild s g \<or> 0 < access_rev s' g)
     \<and> access_rev s g \<le> access_rev s' g
     \<and> (known_guild s' g \<and> access_rev s' g = access_rev s g \<longrightarrow> access_rows g s' = access_rows g s))"

definition access_kept :: "guild_db \<Rightarrow> guild_db \<Rightarrow> bool" where
  "access_kept s s' \<longleftrightarrow> (keys_ok s \<longrightarrow> keys_ok s' \<and> access_step s s')"

lemma access_rev_unknown: "\<not> known_guild s g \<Longrightarrow> access_rev s g = 0"
proof -
  assume "\<not> known_guild s g"
  then have "rows_of g_ID g (db_guilds s) = []" by (auto simp: known_guild_def rows_of_def filter_empty_conv)
  then show ?thesis by (simp add: access_rev_def)
qed

interpretation access: tx_contract access_kept
proof
  fix s t u assume "access_kept s t" "access_kept t u"
  then have st: "keys_ok s \<Longrightarrow> keys_ok t \<and> access_step s t" and tu: "keys_ok t \<Longrightarrow> keys_ok u \<and> access_step t u"
    by (simp_all add: access_kept_def)
  show "access_kept s u"
    unfolding access_kept_def access_step_def
  proof (intro impI conjI allI)
    fix g assume "keys_ok s"
    then have 1: "access_step s t" "access_step t u" "keys_ok u" using st tu by blast+
    note a = 1(1)[unfolded access_step_def, rule_format, of g] and b = 1(2)[unfolded access_step_def, rule_format, of g]
    show "keys_ok u" by fact
    show "known_guild s g \<Longrightarrow> known_guild u g" using a b by blast
    show "access_rev s g \<le> access_rev u g" using a b by linarith
    show "known_guild u g \<Longrightarrow> known_guild s g \<or> 0 < access_rev u g" using a b by linarith
    assume k: "known_guild u g \<and> access_rev u g = access_rev s g"
    then have e: "access_rev t g = access_rev s g" "access_rev u g = access_rev t g" using a b by linarith+
    moreover have "known_guild t g" using k e b access_rev_unknown[of t g] by fastforce
    ultimately show "access_rows g u = access_rows g s" using a b k by simp
  qed
qed (simp add: access_kept_def access_step_def)

text \<open>An operation on rows of the guilds \<open>gids\<close> that the triggers see.\<close>

lemma access_rev_bump: "access_rev (bump_guild_access_revision gids s) g = access_rev s g + int (count_list gids g) * int (length (rows_of g_ID g (db_guilds s)))"
proof -
  have "sum_list (map g_AccessRevision (rows_of g_ID g (map (\<lambda>r. r\<lparr>g_AccessRevision := g_AccessRevision r + int (count_list gids (g_ID r))\<rparr>) t))) =
    sum_list (map g_AccessRevision (rows_of g_ID g t)) + int (count_list gids g) * int (length (rows_of g_ID g t))" for t
    by (induction t) (auto simp: rows_of_def algebra_simps)
  then show ?thesis by (simp add: access_rev_def bump_guild_access_revision_def)
qed

lemma access_rows_bump: "access_rows g (bump_guild_access_revision gids s) = access_rows g s"
proof -
  have "map (\<lambda>r. (g_OwnerID r, g_DeletedAt r)) (rows_of g_ID g (map (\<lambda>r. r\<lparr>g_AccessRevision := n r\<rparr>) t)) =
      map (\<lambda>r. (g_OwnerID r, g_DeletedAt r)) (rows_of g_ID g t)" for n t
    by (induction t) (auto simp: rows_of_def)
  then show ?thesis by (simp add: access_rows_def bump_guild_access_revision_def)
qed

lemma known_guild_bump: "known_guild (bump_guild_access_revision gids s) g \<longleftrightarrow> known_guild s g"
  by (auto simp: known_guild_def bump_guild_access_revision_def image_image)

lemma known_guild_rows: "known_guild s g \<longleftrightarrow> 0 < length (rows_of g_ID g (db_guilds s))"
  by (auto simp: known_guild_def rows_of_def filter_empty_conv)

lemma access_step_bump:
  assumes g: "db_guilds t = db_guilds s" and r: "\<And>g. g \<notin> set gids \<Longrightarrow> access_rows g t = access_rows g s"
  shows "access_step s (bump_guild_access_revision gids t)"
proof -
  have k: "known_guild t g = known_guild s g" "access_rev t g = access_rev s g" for g by (simp_all add: known_guild_def access_rev_def g)
  show ?thesis
    unfolding access_step_def known_guild_bump access_rev_bump access_rows_bump k
  proof (intro allI conjI impI)
    fix h assume h: "known_guild s h \<and> access_rev s h + int (count_list gids h) * int (length (rows_of g_ID h (db_guilds t))) = access_rev s h"
    then have "count_list gids h = 0" by (auto simp: known_guild_rows g)
    then show "access_rows h t = access_rows h s" using r by (simp add: count_list_0_iff)
  qed simp_all
qed

lemma access_step_refl: "access_step s s"
  by (simp add: access_step_def)

lemma access_step_same:
  "db_guilds t = db_guilds s \<Longrightarrow> (\<And>g. access_rows g t = access_rows g s) \<Longrightarrow> access_step s t"
  by (simp add: access_step_def known_guild_def access_rev_def)

lemma accessI:
  assumes "tx_rel safe m" "\<And>s x s'. m s = Inr (x, s') \<Longrightarrow> keys_ok s \<Longrightarrow> access_step s s'"
  shows "tx_rel access_kept m"
  using assms unfolding tx_rel_def access_kept_def safe_def by blast

lemma access_core: "tx_rel safe m \<Longrightarrow> tx_rel core_eq m \<Longrightarrow> tx_rel access_kept m"
proof (rule accessI)
  fix s x s' assume "tx_rel core_eq m" "m s = Inr (x, s')"
  then have "core_eq s s'" by (rule tx_relD)
  then show "access_step s s'" by (intro access_step_same) (simp_all add: core_eq_def access_rows_def)
qed

section \<open>The store operations\<close>

lemma access_update_guild:
  assumes keys: "keys_ok s" and u: "update_guild p f s = Inr (q, s')"
    and f: "\<And>r. p r \<Longrightarrow> g_ID (f r) = g_ID r \<and> g_AccessRevision (f r) = g_AccessRevision r" and p: "\<And>r r'. p r \<Longrightarrow> p r' \<Longrightarrow> g_ID r = g_ID r'"
  shows "access_step s s'"
proof -
  obtain r where r: "List.find p (db_guilds s) = Some r" "q = f r"
    and s': "s' = bump_owned_guild_access_revision r q (s\<lparr>db_guilds := tbl_update p f (db_guilds s)\<rparr>)"
    using u by (auto simp: update_guild_def store_simps split: option.splits sum.splits)
  note rp = find_SomeD[OF r(1)]
  have only: "tbl_update p f (db_guilds s) = tbl_update (\<lambda>x. x = r) f (db_guilds s)"
  proof -
    have "p x \<longleftrightarrow> x = r" if "x \<in> set (db_guilds s)" for x
      using that rp p[of x r] inj_on_distinct_key[OF keys_okD(1)[OF keys] that, of r] by blast
    then show ?thesis by (simp add: tbl_update_def)
  qed
  let ?t = "s\<lparr>db_guilds := tbl_update p f (db_guilds s)\<rparr>"
  have ids: "map g_ID (tbl_update p f t) = map g_ID t" for t using f by (auto simp: tbl_update_def)
  have k: "known_guild ?t g = known_guild s g" for g using arg_cong[OF ids[of "db_guilds s"], of set] by (simp add: known_guild_def)
  have v: "access_rev ?t g = access_rev s g" for g
    using rows_of_project[of p g_ID f g_AccessRevision g "db_guilds s"] f by (simp add: access_rev_def)
  have same: "access_rows g ?t = access_rows g s" if "g \<noteq> g_ID r \<or> g_OwnerID r = g_OwnerID q \<and> g_DeletedAt r = g_DeletedAt q" for g
  proof -
    have "map (\<lambda>r. (g_OwnerID r, g_DeletedAt r)) (rows_of g_ID g (tbl_update (\<lambda>x. x = r) f (db_guilds s))) =
        map (\<lambda>r. (g_OwnerID r, g_DeletedAt r)) (rows_of g_ID g (db_guilds s))"
    proof (cases "g = g_ID r")
      case True
      then show ?thesis using that rp f r(2)
          rows_of_project[of "\<lambda>x. x = r" g_ID f "\<lambda>r. (g_OwnerID r, g_DeletedAt r)" g "db_guilds s"] by auto
    next
      case False
      then show ?thesis using rp f rows_of_update[of "\<lambda>x. x = r" g_ID f g "db_guilds s"] by force
    qed
    then show ?thesis by (simp add: access_rows_def only)
  qed
  show ?thesis
  proof (cases "g_OwnerID r = g_OwnerID q \<and> g_DeletedAt r = g_DeletedAt q")
    case True
    then show ?thesis using same k v s' by (simp add: bump_owned_guild_access_revision_def access_step_def)
  next
    case False
    then have s': "s' = bump_guild_access_revision [g_ID r] ?t" using s' f rp r(2) by (auto simp: bump_owned_guild_access_revision_def)
    have "0 < length (rows_of g_ID (g_ID r) (db_guilds ?t))" using k[of "g_ID r"] rp known_guild_rows[of ?t "g_ID r"] by (auto simp: known_guild_def)
    then have "access_rows g ?t = access_rows g s" if "int (count_list [g_ID r] g) * int (length (rows_of g_ID g (db_guilds ?t))) = 0" for g
      using same[of g] that by (cases "g = g_ID r") simp_all
    then show ?thesis unfolding s' access_step_def known_guild_bump access_rev_bump access_rows_bump k v by simp
  qed
qed

lemma access_guild_op:
  assumes "tx_rel safe m" "\<And>s x s'. m s = Inr (x, s') \<Longrightarrow> \<exists>q. update_guild p f s = Inr (q, s')"
    "\<And>r. g_ID (f r) = g_ID r \<and> g_AccessRevision (f r) = g_AccessRevision r" "\<And>r r'. p r \<Longrightarrow> p r' \<Longrightarrow> g_ID r = g_ID r'"
  shows "tx_rel access_kept m"
  by (rule accessI[OF assms(1)]) (use assms(2-4) access_update_guild in blast)

lemma access_guilds:
  "tx_rel access_kept (store_UpdateGuild env gid nm desc)" "tx_rel access_kept (UpdateGuildIcon env gid asset)"
  "tx_rel access_kept (store_DeleteGuild gid ts)" "tx_rel access_kept (store_TransferGuildOwnership env gid o1 o2)"
  "tx_rel access_kept (AdvanceGuildChannelLayoutRevision gid n)"
proof -
  show "tx_rel access_kept (store_UpdateGuild env gid nm desc)"
    by (rule access_guild_op[OF safe_store(2)]) (unfold store_UpdateGuild_def, blast, simp_all)
  show "tx_rel access_kept (UpdateGuildIcon env gid asset)"
    by (rule access_guild_op[OF safe_store(3)]) (unfold UpdateGuildIcon_def, blast, simp_all)
  show "tx_rel access_kept (store_DeleteGuild gid ts)"
    by (rule access_guild_op[OF safe_store(4)]) (unfold store_DeleteGuild_def, blast, simp_all)
  show "tx_rel access_kept (store_TransferGuildOwnership env gid o1 o2)"
    by (rule access_guild_op[OF safe_store(5)]) (unfold store_TransferGuildOwnership_def, blast, simp_all)
  show "tx_rel access_kept (AdvanceGuildChannelLayoutRevision gid n)"
    by (rule access_guild_op[OF safe_store(6)]) (unfold AdvanceGuildChannelLayoutRevision_def tx_simps, blast, simp_all)
qed

lemma access_CreateGuild: "tx_rel access_kept (store_CreateGuild gid owner name ts)"
proof (rule accessI)
  fix s x s' assume "store_CreateGuild gid owner name ts s = Inr (x, s')"
  then have new: "\<And>q. q \<in> set (db_guilds s) \<Longrightarrow> g_ID q \<noteq> gid" and s': "\<exists>r. s' = s\<lparr>db_guilds := db_guilds s @ [r]\<rparr> \<and> g_ID r = gid \<and> g_AccessRevision r = 1"
    by (auto simp: store_CreateGuild_def Let_def store_simps split: sum.splits)
  from s' obtain r where r: "s' = s\<lparr>db_guilds := db_guilds s @ [r]\<rparr>" "g_ID r = gid" "g_AccessRevision r = 1" by blast
  have "rows_of g_ID gid (db_guilds s) = []" using new by (auto simp: rows_of_def filter_empty_conv)
  then show "access_step s s'"
    by (auto simp: access_step_def known_guild_def access_rev_def access_rows_def r rows_of_append rows_of_single)
qed (rule safe_rules)

text \<open>One table at a time: which rows a statement changes, and which columns.\<close>

lemma access_rows_of_table:
  "access_rows g (s\<lparr>db_members := t1\<rparr>) = access_rows g s \<longleftrightarrow>
     map (\<lambda>m. (m_UserID m, m_DeletedAt m = 0)) (rows_of m_GuildID g t1) = map (\<lambda>m. (m_UserID m, m_DeletedAt m = 0)) (rows_of m_GuildID g (db_members s))"
  "access_rows g (s\<lparr>db_roles := t2\<rparr>) = access_rows g s \<longleftrightarrow>
     map (\<lambda>r. (r_ID r, r_Permissions r, r_IsDefault r, r_DeletedAt r = 0)) (rows_of r_GuildID g t2)
       = map (\<lambda>r. (r_ID r, r_Permissions r, r_IsDefault r, r_DeletedAt r = 0)) (rows_of r_GuildID g (db_roles s))"
  "access_rows g (s\<lparr>db_member_roles := t3\<rparr>) = access_rows g s \<longleftrightarrow>
     map (\<lambda>x. (mr_UserID x, mr_RoleID x)) (rows_of mr_GuildID g t3) = map (\<lambda>x. (mr_UserID x, mr_RoleID x)) (rows_of mr_GuildID g (db_member_roles s))"
  "access_rows g (s\<lparr>db_channels := t4\<rparr>) = access_rows g s \<longleftrightarrow>
     map (\<lambda>c. (c_ID c, c_DeletedAt c = 0)) (rows_of c_GuildID g t4) = map (\<lambda>c. (c_ID c, c_DeletedAt c = 0)) (rows_of c_GuildID g (db_channels s))"
  "access_rows g (s\<lparr>db_overwrites := t5\<rparr>) = access_rows g s \<longleftrightarrow>
     map (\<lambda>x. (o_ChannelID x, o_AppliesTo x, o_AppliesToID x, o_Allow x, o_Deny x)) (rows_of o_GuildID g t5)
       = map (\<lambda>x. (o_ChannelID x, o_AppliesTo x, o_AppliesToID x, o_Allow x, o_Deny x)) (rows_of o_GuildID g (db_overwrites s))"
  by (simp_all add: access_rows_def)

lemmas one_table = access_rows_of_table rows_of_append rows_of_single rows_of_delete

lemma access_members:
  "tx_rel access_kept (CreateGuildMember gid uid ts)" "tx_rel access_kept (UpdateGuildMemberNickname env gid uid nick)"
  "tx_rel access_kept (RemoveGuildMember gid uid ts)" "tx_rel access_kept (DeleteGuildMembers gid ts)"
proof -
  show "tx_rel access_kept (CreateGuildMember gid uid ts)"
    by (rule accessI[OF safe_store(7)])
      (auto simp: CreateGuildMember_def Let_def store_simps one_table split: if_splits option.splits sum.splits
        intro!: access_step_bump arg_cong[where f = "map (\<lambda>m. (m_UserID m, m_DeletedAt m = 0))"] rows_of_update)
  show "tx_rel access_kept (UpdateGuildMemberNickname env gid uid nick)"
    by (rule accessI[OF safe_store(8)])
      (auto simp: UpdateGuildMemberNickname_def store_simps one_table split: sum.splits intro!: access_step_same rows_of_project)
  show "tx_rel access_kept (RemoveGuildMember gid uid ts)"
    by (rule accessI[OF safe_store(9)])
      (auto simp: RemoveGuildMember_def store_simps one_table split: sum.splits
        intro!: access_step_bump arg_cong[where f = "map (\<lambda>m. (m_UserID m, m_DeletedAt m = 0))"] rows_of_update)
  show "tx_rel access_kept (DeleteGuildMembers gid ts)"
    by (rule accessI[OF safe_store(10)])
      (auto simp: DeleteGuildMembers_def Let_def store_simps one_table split: sum.splits
        intro!: access_step_bump arg_cong[where f = "map (\<lambda>m. (m_UserID m, m_DeletedAt m = 0))"] rows_of_update)
qed

lemma safe_insert_role: "tx_rel safe (insert_role r)"
  by (rule safe_same) (auto simp: tx_rel_def insert_role_def keys_ok_def store_simps role_clash_def bump_guild_access_revision_def comp_def
      split: sum.splits)

lemma access_roles:
  "tx_rel access_kept (insert_role r)" "tx_rel access_kept (store_UpdateGuildRole gid rid nm ps ts)"
  "tx_rel access_kept (store_DeleteGuildRole gid rid ts)" "tx_rel access_kept (DeleteGuildRoles gid ts)"
  "tx_rel access_kept (UpdateGuildRolePositions gid rids poss ts)"
proof -
  note cong = arg_cong[where f = "map (\<lambda>r. (r_ID r, r_Permissions r, r_IsDefault r, r_DeletedAt r = 0))"]
  show "tx_rel access_kept (insert_role r)"
    by (rule accessI[OF safe_insert_role]) (auto simp: insert_role_def store_simps one_table split: sum.splits intro!: access_step_bump)
  show "tx_rel access_kept (store_UpdateGuildRole gid rid nm ps ts)"
    by (rule accessI[OF safe_roles(3)]) (auto simp: store_UpdateGuildRole_def store_simps one_table split: sum.splits
        intro!: access_step_bump cong rows_of_update)
  show "tx_rel access_kept (store_DeleteGuildRole gid rid ts)"
    by (rule accessI[OF safe_roles(4)]) (auto simp: store_DeleteGuildRole_def store_simps one_table split: sum.splits
        intro!: access_step_bump cong rows_of_update)
  show "tx_rel access_kept (DeleteGuildRoles gid ts)"
    by (rule accessI[OF safe_roles(5)]) (auto simp: DeleteGuildRoles_def Let_def store_simps one_table split: sum.splits
        intro!: access_step_bump cong rows_of_update)
  show "tx_rel access_kept (UpdateGuildRolePositions gid rids poss ts)"
    by (rule accessI[OF safe_roles(6)]) (auto simp: UpdateGuildRolePositions_def Let_def store_simps tx_simps one_table split: sum.splits if_splits
        intro!: access_step_same rows_of_project)
qed

lemma safe_delete_member_roles: "tx_rel safe (delete_member_roles p)"
  by (rule safe_same) (auto simp: tx_rel_def delete_member_roles_def keys_ok_def tx_simps bump_guild_access_revision_def tbl_delete_def comp_def
      intro: distinct_map_filter)

lemma access_assignments: "tx_rel access_kept (store_AddGuildMemberRole gid uid rid ts)" "tx_rel access_kept (delete_member_roles p)"
proof -
  show "tx_rel access_kept (store_AddGuildMemberRole gid uid rid ts)"
    by (rule accessI[OF safe_roles(7)]) (auto simp: store_AddGuildMemberRole_def Let_def one_table split: if_splits
        intro!: access_step_bump access_step_refl)
  show "tx_rel access_kept (delete_member_roles p)"
    by (rule accessI[OF safe_delete_member_roles]) (auto simp: delete_member_roles_def tx_simps one_table
        intro!: access_step_bump arg_cong[where f = "map (\<lambda>x. (mr_UserID x, mr_RoleID x))"] rows_of_delete)
qed

lemma access_channels:
  "tx_rel access_kept (store_CreateGuildChannel cid gid nm ty pos topic par ts)" "tx_rel access_kept (store_UpdateGuildChannel cid nm' tp pr ts)"
  "tx_rel access_kept (UpdateGuildChannelPositions gid us ts)" "tx_rel access_kept (store_DeleteGuildChannel cid ts)"
  "tx_rel access_kept (DeleteGuildChannels gid ts)" "tx_rel access_kept (ClearGuildChannelParent gid par ts)"
proof -
  note cong = arg_cong[where f = "map (\<lambda>c. (c_ID c, c_DeletedAt c = 0))"]
  show "tx_rel access_kept (store_CreateGuildChannel cid gid nm ty pos topic par ts)"
    by (rule accessI[OF safe_channels(1)]) (auto simp: store_CreateGuildChannel_def Let_def store_simps one_table split: sum.splits
        intro!: access_step_bump)
  show "tx_rel access_kept (store_UpdateGuildChannel cid nm' tp pr ts)"
    by (rule accessI[OF safe_channels(2)]) (auto simp: store_UpdateGuildChannel_def store_simps one_table split: sum.splits
        intro!: access_step_same rows_of_project)
  show "tx_rel access_kept (UpdateGuildChannelPositions gid us ts)"
    by (rule accessI[OF safe_channels(3)]) (auto simp: UpdateGuildChannelPositions_def Let_def store_simps tx_simps one_table split: sum.splits if_splits
        intro!: access_step_same rows_of_project)
  show "tx_rel access_kept (DeleteGuildChannels gid ts)"
    by (rule accessI[OF safe_channels(5)]) (auto simp: DeleteGuildChannels_def Let_def store_simps one_table split: sum.splits
        intro!: access_step_bump cong rows_of_update)
  show "tx_rel access_kept (ClearGuildChannelParent gid par ts)"
    by (rule accessI[OF safe_channels(6)]) (auto simp: ClearGuildChannelParent_def store_simps one_table split: sum.splits
        intro!: access_step_same rows_of_project)
  show "tx_rel access_kept (store_DeleteGuildChannel cid ts)"
  proof (rule accessI[OF safe_channels(4)])
    fix s c s' assume run: "store_DeleteGuildChannel cid ts s = Inr (c, s')" and keys: "keys_ok s"
    let ?f = "\<lambda>c. c\<lparr>c_Revision := c_Revision c + 1, c_UpdatedAt := ts, c_DeletedAt := ts\<rparr>"
    obtain r where r: "List.find (live_channel cid) (db_channels s) = Some r"
      and s': "s' = bump_guild_access_revision [c_GuildID r] (s\<lparr>db_channels := tbl_update (live_channel cid) ?f (db_channels s)\<rparr>)"
      using run by (auto simp: store_DeleteGuildChannel_def store_simps split: sum.splits)
    have "c_GuildID x = c_GuildID r" if "x \<in> set (db_channels s)" "live_channel cid x" for x
      using that find_SomeD[OF r] inj_on_distinct_key[OF keys_okD(4)[OF keys] that(1), of r] by simp
    then show "access_step s s'" unfolding s'
      by (intro access_step_bump) (auto simp: one_table intro!: cong rows_of_update)
  qed
qed

lemma safe_delete_overwrites: "tx_rel safe (delete_overwrites p)"
  by (rule safe_same) (auto simp: tx_rel_def delete_overwrites_def keys_ok_def tx_simps bump_guild_access_revision_def tbl_delete_def comp_def
      intro: distinct_map_filter)

lemma access_overwrites: "tx_rel access_kept (store_UpsertGuildChannelPermissionOverwrite ow)" "tx_rel access_kept (delete_overwrites p)"
proof -
  note cong = arg_cong[where f = "map (\<lambda>x. (o_ChannelID x, o_AppliesTo x, o_AppliesToID x, o_Allow x, o_Deny x))"]
  show "tx_rel access_kept (delete_overwrites p)"
    by (rule accessI[OF safe_delete_overwrites]) (auto simp: delete_overwrites_def tx_simps one_table
        intro!: access_step_bump cong rows_of_delete)
  show "tx_rel access_kept (store_UpsertGuildChannelPermissionOverwrite ow)"
  proof (rule accessI[OF safe_channels(7)])
    fix s c s' assume run: "store_UpsertGuildChannelPermissionOverwrite ow s = Inr (c, s')" and keys: "keys_ok s"
    let ?key = "overwrite_key (o_ChannelID ow) (o_AppliesTo ow) (o_AppliesToID ow)"
    let ?f = "\<lambda>x. x\<lparr>o_Allow := o_Allow ow, o_Deny := o_Deny ow, o_Revision := o_Revision x + 1, o_UpdatedAt := o_CreatedAt ow\<rparr>"
    show "access_step s s'"
    proof (cases "List.find ?key (db_overwrites s)")
      case None
      then show ?thesis using run by (auto simp: store_UpsertGuildChannelPermissionOverwrite_def Let_def one_table split: if_splits
            intro!: access_step_bump)
    next
      case (Some r)
      then have s': "s' = bump_guild_access_revision [o_GuildID r] (s\<lparr>db_overwrites := tbl_update ?key ?f (db_overwrites s)\<rparr>)"
        using run by (auto simp: store_UpsertGuildChannelPermissionOverwrite_def Let_def store_simps split: if_splits sum.splits)
      have "o_GuildID x = o_GuildID r" if "x \<in> set (db_overwrites s)" "?key x" for x
        using that find_SomeD[OF Some] inj_on_distinct_key[OF keys_okD(5)[OF keys] that(1), of r] by simp
      then show ?thesis unfolding s' by (intro access_step_bump) (auto simp: one_table intro!: cong rows_of_update)
    qed
  qed
qed

text \<open>Bans and invites do not decide access.\<close>

lemma access_step_frame:
  "db_guilds t = db_guilds s \<Longrightarrow> db_members t = db_members s \<Longrightarrow> db_roles t = db_roles s \<Longrightarrow> db_member_roles t = db_member_roles s \<Longrightarrow>
   db_channels t = db_channels s \<Longrightarrow> db_overwrites t = db_overwrites s \<Longrightarrow> access_step s t"
  by (rule access_step_same) (simp_all add: access_rows_def)

lemma access_bans:
  "tx_rel access_kept (UpsertGuildBan ban)" "tx_rel access_kept (DeleteGuildBan gid uid)" "tx_rel access_kept (DeleteGuildBans gid)"
  by (rule accessI, rule safe_rules,
      (auto simp: UpsertGuildBan_def DeleteGuildBan_def DeleteGuildBans_def Let_def tx_simps split: if_splits sum.splits intro!: access_step_frame)[1])+

lemma access_invites:
  "tx_rel access_kept (store_CreateGuildInvite i)" "tx_rel access_kept (ConsumeGuildInvite code ts)"
  "tx_rel access_kept (store_DeleteGuildInvite code)" "tx_rel access_kept (DeleteGuildInvites gid)"
  by (rule accessI, rule safe_rules,
      (auto simp: store_CreateGuildInvite_def ConsumeGuildInvite_def store_DeleteGuildInvite_def DeleteGuildInvites_def Let_def tx_simps
        split: if_splits sum.splits intro!: access_step_frame)[1])+

interpretation guild_access: store_contract access_kept
  by unfold_locales (rule access_CreateGuild access_guilds access_members access_bans access_roles access_assignments access_channels
    access_overwrites access_invites access_core[OF safe_others(5)] access_core[OF safe_others(6)] access_core[OF safe_others(8)]
    access_core[OF safe_others(9)] access_core[OF safe_others(10)] access_core[OF safe_others(11)] access_core[OF safe_enqueueEvents]
    core_rules)+

section \<open>What the columns decide\<close>

lemma access_rows_eqD:
  assumes "access_rows g s' = access_rows g s" "keys_ok s" "keys_ok s'"
  shows "sp_owner (absdb s') g = sp_owner (absdb s) g" "(g, u) \<in> sp_members (absdb s') \<longleftrightarrow> (g, u) \<in> sp_members (absdb s)"
    "(g, u, rid) \<in> sp_assigned (absdb s') \<longleftrightarrow> (g, u, rid) \<in> sp_assigned (absdb s)"
    "(\<exists>i. sp_roles (absdb s') rid = Some i \<and> ri_guild i = g \<and> ri_perms i = p \<and> ri_default i = d)
       \<longleftrightarrow> (\<exists>i. sp_roles (absdb s) rid = Some i \<and> ri_guild i = g \<and> ri_perms i = p \<and> ri_default i = d)"
    "(\<exists>c. sp_channels (absdb s') cid = Some c \<and> ci_guild c = g) \<longleftrightarrow> (\<exists>c. sp_channels (absdb s) cid = Some c \<and> ci_guild c = g)"
    "sp_overwrites (absdb s') (cid, ty, tid) = Some \<lparr>oi_guild = g, oi_allow = al, oi_deny = dn\<rparr>
       \<longleftrightarrow> sp_overwrites (absdb s) (cid, ty, tid) = Some \<lparr>oi_guild = g, oi_allow = al, oi_deny = dn\<rparr>"
proof -
  note eq = assms(1)[unfolded access_rows_def prod.inject]
  have own: "sp_owner (absdb t) g = Some w \<longleftrightarrow> (w, 0) \<in> set (map (\<lambda>r. (g_OwnerID r, g_DeletedAt r)) (rows_of g_ID g (db_guilds t)))" if "keys_ok t" for t w
    unfolding absdb_sel guilds_of_def lookup_eq_Some[OF keys_okD(1)[OF that]] by (auto simp: rows_of_def image_iff)
  have "sp_owner (absdb s') g = Some w \<longleftrightarrow> sp_owner (absdb s) g = Some w" for w
    unfolding own[OF assms(2)] own[OF assms(3)] eq[THEN conjunct1] by (rule refl)
  then show "sp_owner (absdb s') g = sp_owner (absdb s) g" by (metis option.exhaust)
  have mem: "(g, u) \<in> sp_members (absdb t) \<longleftrightarrow> (u, True) \<in> set (map (\<lambda>m. (m_UserID m, m_DeletedAt m = 0)) (rows_of m_GuildID g (db_members t)))" for t
    unfolding absdb_sel members_of_def live_keys_def by (auto simp: rows_of_def image_iff)
  show "(g, u) \<in> sp_members (absdb s') \<longleftrightarrow> (g, u) \<in> sp_members (absdb s)"
    unfolding mem using eq by (simp only:)
  have asg: "(g, u, rid) \<in> sp_assigned (absdb t) \<longleftrightarrow> (u, rid) \<in> set (map (\<lambda>x. (mr_UserID x, mr_RoleID x)) (rows_of mr_GuildID g (db_member_roles t)))" for t
    unfolding absdb_sel assigned_of_def live_keys_def by (auto simp: rows_of_def image_iff)
  show "(g, u, rid) \<in> sp_assigned (absdb s') \<longleftrightarrow> (g, u, rid) \<in> sp_assigned (absdb s)"
    unfolding asg using eq by (simp only:)
  have role: "(\<exists>i. sp_roles (absdb t) rid = Some i \<and> ri_guild i = g \<and> ri_perms i = p \<and> ri_default i = d) \<longleftrightarrow>
      (rid, p, d, True) \<in> set (map (\<lambda>r. (r_ID r, r_Permissions r, r_IsDefault r, r_DeletedAt r = 0)) (rows_of r_GuildID g (db_roles t)))" if "keys_ok t" for t
    unfolding absdb_sel roles_of_live[OF that] by (auto simp: rows_of_def image_iff role_info_of_def)
  show "(\<exists>i. sp_roles (absdb s') rid = Some i \<and> ri_guild i = g \<and> ri_perms i = p \<and> ri_default i = d)
       \<longleftrightarrow> (\<exists>i. sp_roles (absdb s) rid = Some i \<and> ri_guild i = g \<and> ri_perms i = p \<and> ri_default i = d)"
    unfolding role[OF assms(2)] role[OF assms(3)] using eq by (simp only:)
  have chan: "(\<exists>c. sp_channels (absdb t) cid = Some c \<and> ci_guild c = g) \<longleftrightarrow>
      (cid, True) \<in> set (map (\<lambda>c. (c_ID c, c_DeletedAt c = 0)) (rows_of c_GuildID g (db_channels t)))" if "keys_ok t" for t
    unfolding absdb_sel channels_of_live[OF that] by (auto simp: rows_of_def image_iff chan_info_of_def)
  show "(\<exists>c. sp_channels (absdb s') cid = Some c \<and> ci_guild c = g) \<longleftrightarrow> (\<exists>c. sp_channels (absdb s) cid = Some c \<and> ci_guild c = g)"
    unfolding chan[OF assms(2)] chan[OF assms(3)] using eq by (simp only:)
  have ow: "sp_overwrites (absdb t) (cid, ty, tid) = Some \<lparr>oi_guild = g, oi_allow = al, oi_deny = dn\<rparr> \<longleftrightarrow> (cid, ty, tid, al, dn) \<in>
      set (map (\<lambda>x. (o_ChannelID x, o_AppliesTo x, o_AppliesToID x, o_Allow x, o_Deny x)) (rows_of o_GuildID g (db_overwrites t)))" if "keys_ok t" for t
    unfolding absdb_sel overwrites_of_live[OF that] by (auto simp: rows_of_def image_iff ow_info_of_def)
  show "sp_overwrites (absdb s') (cid, ty, tid) = Some \<lparr>oi_guild = g, oi_allow = al, oi_deny = dn\<rparr>
       \<longleftrightarrow> sp_overwrites (absdb s) (cid, ty, tid) = Some \<lparr>oi_guild = g, oi_allow = al, oi_deny = dn\<rparr>"
    unfolding ow[OF assms(2)] ow[OF assms(3)] using eq by (simp only:)
qed

lemma access_rows_eff:
  assumes "access_rows g s' = access_rows g s" "keys_ok s" "keys_ok s'"
  shows "eff (absdb s') g u = eff (absdb s) g u"
proof -
  note r = access_rows_eqD[OF assms]
  have base: "n \<in> base_bits (absdb t) g u \<longleftrightarrow> (\<exists>rid p d. (\<exists>i. sp_roles (absdb t) rid = Some i \<and> ri_guild i = g \<and> ri_perms i = p \<and> ri_default i = d)
      \<and> (d \<or> (g, u, rid) \<in> sp_assigned (absdb t)) \<and> bit p n)" for n t
    unfolding base_bits_def by blast
  have "base_bits (absdb s') g u = base_bits (absdb s) g u"
    unfolding set_eq_iff base r(3,4) by (rule allI, rule refl)
  then show ?thesis unfolding eff_def r(1) by simp
qed

lemma ow_bit_guild:
  assumes "spec_inv \<sigma>" "sp_channels \<sigma> cid = Some c" "ci_guild c = g"
  shows "ow_bit oi_allow \<sigma> cid ty T n \<longleftrightarrow> (\<exists>tid\<in>T. \<exists>al dn. sp_overwrites \<sigma> (cid, ty, tid) = Some \<lparr>oi_guild = g, oi_allow = al, oi_deny = dn\<rparr> \<and> bit al n)"
    "ow_bit oi_deny \<sigma> cid ty T n \<longleftrightarrow> (\<exists>tid\<in>T. \<exists>al dn. sp_overwrites \<sigma> (cid, ty, tid) = Some \<lparr>oi_guild = g, oi_allow = al, oi_deny = dn\<rparr> \<and> bit dn n)"
proof -
  have g: "oi_guild x = g" if "sp_overwrites \<sigma> (cid, ty, tid) = Some x" for tid x
    using overwrites_invD(1)[OF spec_invD(4)[OF assms(1)] that] assms(2,3) by auto
  have x: "(\<exists>x. sp_overwrites \<sigma> (cid, ty, tid) = Some x \<and> Q (oi_allow x) (oi_deny x)) \<longleftrightarrow>
      (\<exists>al dn. sp_overwrites \<sigma> (cid, ty, tid) = Some \<lparr>oi_guild = g, oi_allow = al, oi_deny = dn\<rparr> \<and> Q al dn)" for tid Q
  proof -
    have "x = \<lparr>oi_guild = g, oi_allow = oi_allow x, oi_deny = oi_deny x\<rparr>" if "sp_overwrites \<sigma> (cid, ty, tid) = Some x" for x
      using g[OF that] by (cases x) simp
    then show ?thesis by (metis ow_info.select_convs(2,3))
  qed
  show "ow_bit oi_allow \<sigma> cid ty T n \<longleftrightarrow> (\<exists>tid\<in>T. \<exists>al dn. sp_overwrites \<sigma> (cid, ty, tid) = Some \<lparr>oi_guild = g, oi_allow = al, oi_deny = dn\<rparr> \<and> bit al n)"
    unfolding ow_bit_def using x[where Q = "\<lambda>al dn. bit al n"] by simp
  show "ow_bit oi_deny \<sigma> cid ty T n \<longleftrightarrow> (\<exists>tid\<in>T. \<exists>al dn. sp_overwrites \<sigma> (cid, ty, tid) = Some \<lparr>oi_guild = g, oi_allow = al, oi_deny = dn\<rparr> \<and> bit dn n)"
    unfolding ow_bit_def using x[where Q = "\<lambda>al dn. bit dn n"] by simp
qed

lemma access_rows_chan_eff:
  assumes eq: "access_rows g s' = access_rows g s" and k: "keys_ok s" "keys_ok s'" and inv: "spec_inv (absdb s)" "spec_inv (absdb s')"
    and c: "sp_channels (absdb s) cid = Some c" "ci_guild c = g"
  shows "chan_eff (absdb s') g u cid = chan_eff (absdb s) g u cid"
proof -
  note r = access_rows_eqD[OF eq k]
  obtain c' where c': "sp_channels (absdb s') cid = Some c'" "ci_guild c' = g" using r(5)[of cid] c by blast
  have held: "roles_held (absdb s') g u = roles_held (absdb s) g u" unfolding roles_held_def r(3) ..
  have ow: "ow_bit oi_allow (absdb s') cid ty T n = ow_bit oi_allow (absdb s) cid ty T n"
    "ow_bit oi_deny (absdb s') cid ty T n = ow_bit oi_deny (absdb s) cid ty T n" for ty T n
    unfolding ow_bit_guild[OF inv(1) c] ow_bit_guild[OF inv(2) c'] r(6) by (rule refl)+
  show ?thesis unfolding chan_eff_def chan_granted_def ow held access_rows_eff[OF eq k] r(1) ..
qed

lemma visible_ids:
  assumes "keys_ok s"
  shows "c_ID ` set (visible_channels s g u) = {cid. (\<exists>c. sp_channels (absdb s) cid = Some c \<and> ci_guild c = g) \<and> 5 \<in> chan_eff (absdb s) g u cid}"
  unfolding absdb_sel channels_of_live[OF assms] by (auto simp: visible_channels_def chan_info_of_def absdb_sel image_iff)

lemma access_of_rev:
  assumes "keys_ok s" "access_of s g = Some v"
  shows "access_rev s g = v" "known_guild s g"
proof -
  obtain r where r: "List.find (live_guild g) (db_guilds s) = Some r" "v = g_AccessRevision r" using assms(2) by (auto simp: access_of_def)
  have m: "r \<in> set (db_guilds s)" "g_ID r = g" using find_SomeD[OF r(1)] by simp_all
  have "filter (\<lambda>x. g_ID x = g) t = [r]" if "distinct (map g_ID t)" "r \<in> set t" for t
    using that m(2)
  proof (induction t)
    case (Cons x t)
    have "g_ID x = g \<Longrightarrow> filter (\<lambda>x. g_ID x = g) t = []" using Cons.prems(1) by (auto simp: filter_empty_conv image_iff)
    then show ?case using Cons by (auto simp: image_iff)
  qed simp
  then have "rows_of g_ID g (db_guilds s) = [r]" using m(1) keys_okD(1)[OF assms(1)] by (simp add: rows_of_def)
  then show "access_rev s g = v" "known_guild s g" using r(2) by (simp_all add: access_rev_def known_guild_rows)
qed

lemma calls_by_access: "calls_by A s s' \<Longrightarrow> access_kept s s'"
proof (induction rule: rtranclp_induct)
  case (step t u)
  have "access_kept t u" using step.hyps(2) tx_relD[OF guild_access.rel_handle] by (auto simp: call_by_def)
  then show ?case using step.IH access.R_trans by blast
qed (rule access.R_refl)

lemma access_unchanged:
  assumes inv: "keys_ok s" "spec_inv (absdb s)" and calls: "calls_by A s s'" and rev: "access_of s g = Some v" "access_of s' g = Some v'"
  shows "v \<le> v'" "v' = v \<Longrightarrow> access_rows g s' = access_rows g s" "keys_ok s'" "spec_inv (absdb s')"
proof -
  have st: "keys_ok s'" "access_step s s'" using calls_by_access[OF calls] inv(1) by (simp_all add: access_kept_def)
  show "keys_ok s'" by (fact st(1))
  show "spec_inv (absdb s')" using calls_by_sim[OF calls inv] group_steps_inv inv(2) by blast
  note a = access_of_rev[OF inv(1) rev(1)] access_of_rev[OF st(1) rev(2)]
  note st(2)[unfolded access_step_def, rule_format, of g]
  then show "v \<le> v'" "v' = v \<Longrightarrow> access_rows g s' = access_rows g s" using a by simp_all
qed

end
