(* ===== verification/Guild_Rows.thy ===== *)
theory Guild_Rows
  imports Guild_Access
begin

text \<open>
  The type invariant of the guild tables: in every state the service can reach, every row satisfies the check constraints of
  its table. Every statement checks the rows it writes; the triggers only raise access revisions.
\<close>

definition rows_ok :: "guild_db \<Rightarrow> bool" where
  "rows_ok s \<longleftrightarrow> list_all guild_row_ok (db_guilds s) \<and> list_all member_row_ok (db_members s) \<and> list_all role_row_ok (db_roles s)
     \<and> list_all member_role_row_ok (db_member_roles s) \<and> list_all channel_row_ok (db_channels s) \<and> list_all overwrite_row_ok (db_overwrites s)
     \<and> list_all ban_row_ok (db_bans s) \<and> list_all invite_row_ok (db_invites s)"

definition rows_kept :: "guild_db \<Rightarrow> guild_db \<Rightarrow> bool" where
  "rows_kept s s' \<longleftrightarrow> (rows_ok s \<longrightarrow> rows_ok s')"

interpretation rows: tx_contract rows_kept
  by unfold_locales (auto simp: rows_kept_def)

lemma list_all_tbl_update: "list_all ok t \<Longrightarrow> \<forall>r\<in>set t. p r \<longrightarrow> ok (f r) \<Longrightarrow> list_all ok (tbl_update p f t)"
  by (auto simp: list_all_iff tbl_update_def)

lemma list_all_tbl_delete: "list_all ok t \<Longrightarrow> list_all ok (tbl_delete p t)"
  by (auto simp: list_all_iff tbl_delete_def)

lemma rows_bump: "rows_ok s \<Longrightarrow> rows_ok (bump_guild_access_revision gids s)"
  by (auto simp: rows_ok_def bump_guild_access_revision_def list_all_iff guild_row_ok_def)

lemma rows_bump_owned: "rows_ok s \<Longrightarrow> rows_ok (bump_owned_guild_access_revision g g' s)"
  by (simp add: bump_owned_guild_access_revision_def rows_bump)

lemma rows_write:
  "rows_ok s \<Longrightarrow> list_all guild_row_ok t1 \<Longrightarrow> rows_ok (s\<lparr>db_guilds := t1\<rparr>)" "rows_ok s \<Longrightarrow> list_all member_row_ok t2 \<Longrightarrow> rows_ok (s\<lparr>db_members := t2\<rparr>)"
  "rows_ok s \<Longrightarrow> list_all role_row_ok t3 \<Longrightarrow> rows_ok (s\<lparr>db_roles := t3\<rparr>)" "rows_ok s \<Longrightarrow> list_all member_role_row_ok t4 \<Longrightarrow> rows_ok (s\<lparr>db_member_roles := t4\<rparr>)"
  "rows_ok s \<Longrightarrow> list_all channel_row_ok t5 \<Longrightarrow> rows_ok (s\<lparr>db_channels := t5\<rparr>)" "rows_ok s \<Longrightarrow> list_all overwrite_row_ok t6 \<Longrightarrow> rows_ok (s\<lparr>db_overwrites := t6\<rparr>)"
  "rows_ok s \<Longrightarrow> list_all ban_row_ok t7 \<Longrightarrow> rows_ok (s\<lparr>db_bans := t7\<rparr>)" "rows_ok s \<Longrightarrow> list_all invite_row_ok t8 \<Longrightarrow> rows_ok (s\<lparr>db_invites := t8\<rparr>)"
  by (simp_all add: rows_ok_def)

lemma rows_okD:
  "rows_ok s \<Longrightarrow> list_all guild_row_ok (db_guilds s)" "rows_ok s \<Longrightarrow> list_all member_row_ok (db_members s)"
  "rows_ok s \<Longrightarrow> list_all role_row_ok (db_roles s)" "rows_ok s \<Longrightarrow> list_all member_role_row_ok (db_member_roles s)"
  "rows_ok s \<Longrightarrow> list_all channel_row_ok (db_channels s)" "rows_ok s \<Longrightarrow> list_all overwrite_row_ok (db_overwrites s)"
  "rows_ok s \<Longrightarrow> list_all ban_row_ok (db_bans s)" "rows_ok s \<Longrightarrow> list_all invite_row_ok (db_invites s)"
  by (simp_all add: rows_ok_def)

lemmas rows_intros = rows_bump rows_bump_owned rows_write list_all_tbl_update list_all_tbl_delete rows_okD

lemma rows_core: "tx_rel core_eq m \<Longrightarrow> tx_rel rows_kept m"
  by (auto simp: tx_rel_def rows_kept_def rows_ok_def core_eq_def)

lemma rows_update_guild: "update_guild p f s = Inr (g, s') \<Longrightarrow> rows_ok s \<Longrightarrow> rows_ok s'"
  by (auto simp: update_guild_def store_simps split: option.splits sum.splits intro!: rows_bump_owned rows_write(1) list_all_tbl_update rows_okD(1))

lemma rows_guild_ops:
  "tx_rel rows_kept (store_CreateGuild gid owner name ts)" "tx_rel rows_kept (store_UpdateGuild env gid nm desc)"
  "tx_rel rows_kept (UpdateGuildIcon env gid asset)" "tx_rel rows_kept (store_DeleteGuild gid ts)"
  "tx_rel rows_kept (store_TransferGuildOwnership env gid o1 o2)" "tx_rel rows_kept (AdvanceGuildChannelLayoutRevision gid n)"
proof -
  show "tx_rel rows_kept (store_CreateGuild gid owner name ts)"
    by (auto simp: tx_rel_def rows_kept_def store_CreateGuild_def Let_def store_simps split: sum.splits intro!: rows_write(1) dest: rows_okD(1))
qed (auto simp: tx_rel_def rows_kept_def store_UpdateGuild_def UpdateGuildIcon_def store_DeleteGuild_def store_TransferGuildOwnership_def
    AdvanceGuildChannelLayoutRevision_def tx_simps elim: rows_update_guild)

lemma rows_member_ops:
  "tx_rel rows_kept (CreateGuildMember gid uid ts)" "tx_rel rows_kept (UpdateGuildMemberNickname env gid uid nick)"
  "tx_rel rows_kept (RemoveGuildMember gid uid ts)" "tx_rel rows_kept (DeleteGuildMembers gid ts)"
  by (auto simp: tx_rel_def rows_kept_def CreateGuildMember_def UpdateGuildMemberNickname_def RemoveGuildMember_def DeleteGuildMembers_def
      Let_def store_simps split: sum.splits option.splits if_splits intro!: rows_bump rows_write(2) list_all_tbl_update dest: rows_okD(2))

lemma rows_ban_ops:
  "tx_rel rows_kept (UpsertGuildBan ban)" "tx_rel rows_kept (DeleteGuildBan gid uid)" "tx_rel rows_kept (DeleteGuildBans gid)"
  by (auto simp: tx_rel_def rows_kept_def UpsertGuildBan_def DeleteGuildBan_def DeleteGuildBans_def Let_def store_simps tx_simps
      split: sum.splits if_splits intro!: rows_write(7) list_all_tbl_update list_all_tbl_delete dest: rows_okD(7))

lemma rows_role_ops:
  "tx_rel rows_kept (insert_role r)" "tx_rel rows_kept (store_UpdateGuildRole gid rid nm ps ts)"
  "tx_rel rows_kept (store_DeleteGuildRole gid rid ts)" "tx_rel rows_kept (DeleteGuildRoles gid ts)"
  "tx_rel rows_kept (UpdateGuildRolePositions gid rids poss ts)"
  by (auto simp: tx_rel_def rows_kept_def insert_role_def store_UpdateGuildRole_def store_DeleteGuildRole_def DeleteGuildRoles_def
      UpdateGuildRolePositions_def Let_def store_simps tx_simps split: sum.splits if_splits
      intro!: rows_bump rows_write(3) list_all_tbl_update dest: rows_okD(3))

lemma rows_assignment_ops: "tx_rel rows_kept (store_AddGuildMemberRole gid uid rid ts)" "tx_rel rows_kept (delete_member_roles p)"
  by (auto simp: tx_rel_def rows_kept_def store_AddGuildMemberRole_def delete_member_roles_def Let_def tx_simps split: if_splits
      intro!: rows_bump rows_write(4) list_all_tbl_delete dest: rows_okD(4))

lemma rows_channel_ops:
  "tx_rel rows_kept (store_CreateGuildChannel cid gid nm ty pos topic par ts)" "tx_rel rows_kept (store_UpdateGuildChannel cid nm' tp pr ts)"
  "tx_rel rows_kept (UpdateGuildChannelPositions gid us ts)" "tx_rel rows_kept (store_DeleteGuildChannel cid ts)"
  "tx_rel rows_kept (DeleteGuildChannels gid ts)" "tx_rel rows_kept (ClearGuildChannelParent gid par ts)"
  by (auto simp: tx_rel_def rows_kept_def store_CreateGuildChannel_def store_UpdateGuildChannel_def UpdateGuildChannelPositions_def
      store_DeleteGuildChannel_def DeleteGuildChannels_def ClearGuildChannelParent_def Let_def store_simps tx_simps split: sum.splits if_splits
      intro!: rows_bump rows_write(5) list_all_tbl_update dest: rows_okD(5))

lemma rows_overwrite_ops: "tx_rel rows_kept (store_UpsertGuildChannelPermissionOverwrite ow)" "tx_rel rows_kept (delete_overwrites p)"
  by (auto simp: tx_rel_def rows_kept_def store_UpsertGuildChannelPermissionOverwrite_def delete_overwrites_def Let_def store_simps tx_simps
      split: sum.splits option.splits if_splits intro!: rows_bump rows_write(6) list_all_tbl_update list_all_tbl_delete dest: rows_okD(6))

lemma rows_invite_ops:
  "tx_rel rows_kept (store_CreateGuildInvite i)" "tx_rel rows_kept (ConsumeGuildInvite code ts)"
  "tx_rel rows_kept (store_DeleteGuildInvite code)" "tx_rel rows_kept (DeleteGuildInvites gid)"
  by (auto simp: tx_rel_def rows_kept_def store_CreateGuildInvite_def ConsumeGuildInvite_def store_DeleteGuildInvite_def DeleteGuildInvites_def
      Let_def store_simps tx_simps split: sum.splits if_splits intro!: rows_write(8) list_all_tbl_update list_all_tbl_delete dest: rows_okD(8))

interpretation guild_rows: store_contract rows_kept
  by unfold_locales (rule rows_guild_ops rows_member_ops rows_ban_ops rows_role_ops rows_assignment_ops rows_channel_ops rows_overwrite_ops
    rows_invite_ops rows_core core_rules)+

lemma reachable_rows: "reachable cfg s klog \<Longrightarrow> rows_ok s"
proof (induction "(s, klog)" arbitrary: s klog rule: reach.induct)
  case reach_init
  then show ?case by (simp add: system_init_def empty_db_def rows_ok_def)
next
  case (reach_step c)
  from reach_step(3) show ?case
  proof cases
    case (call t)
    then show ?thesis using reach_step(1,2) tx_relD[OF guild_rows.rel_handle] by (auto simp: call_by_def rows_kept_def)
  next
    case (relay now lock ticks t klog r evs)
    then show ?thesis using reach_step(1,2) by (auto simp: rows_ok_def)
  qed
qed

end
