(* ===== verification/Guild_Theorems.thy ===== *)
theory Guild_Theorems
  imports Guild_Demo Guild_Rows
begin

text \<open>
  The properties of the guild service as a whole, each applied to the concrete run of \<open>Guild_Demo\<close>.
\<close>

section \<open>Evaluating the concrete run\<close>

lemma rank_eval: "keys_ok s \<Longrightarrow> loadMemberAuthority g u s = Inr (a, s') \<Longrightarrow> rank (absdb s) g u = ma_HighestRole a"
  using loadMemberAuthority_refines(3) by simp

definition authority_of :: "int64 \<Rightarrow> guild_db \<Rightarrow> memberAuthority" where
  "authority_of u s = (case loadMemberAuthority 100 u s of Inr (a, _) \<Rightarrow> a | Inl _ \<Rightarrow> memberAuthorityFromRoles (hd (db_guilds s)) [] u)"

lemma demo_authority: "u \<in> {1, 2, 3} \<Longrightarrow> loadMemberAuthority 100 u demo = Inr (authority_of u demo, demo)"
proof -
  have "\<forall>u\<in>set [1, 2, 3]. \<not> isl (loadMemberAuthority 100 u demo)" by code_simp
  moreover assume "u \<in> {1, 2, 3}"
  ultimately obtain a s where a: "loadMemberAuthority 100 u demo = Inr (a, s)" by (cases "loadMemberAuthority 100 u demo") auto
  then show ?thesis using loadMemberAuthority_refines(1)[OF demo_inv(1) a] by (simp add: authority_of_def)
qed

lemma demo_ranks: "rank (absdb demo) 100 2 = 1" "rank (absdb demo) 100 3 = 0"
proof -
  have "ma_HighestRole (authority_of 2 demo) = 1" "ma_HighestRole (authority_of 3 demo) = 0" by code_simp+
  then show "rank (absdb demo) 100 2 = 1" "rank (absdb demo) 100 3 = 0"
    using rank_eval[OF demo_inv(1) demo_authority] by simp_all
qed

lemma demo_members: "(100, 1) \<in> sp_members (absdb demo)" "(100, 2) \<in> sp_members (absdb demo)" "(100, 3) \<in> sp_members (absdb demo)"
  using loadMemberAuthority_refines(7)[OF demo_inv(1) demo_authority] by simp_all

lemma demo_kick: "\<not> isl (handle (demo_env 1000) demo 2 (ReqKick 100 3) demo)"
  by code_simp

lemma demo_leave: "\<not> isl (handle (demo_env 1000) demo 3 (ReqLeave 100) demo)"
  by code_simp

section \<open>Authority\<close>

text \<open>
  C1: No privilege escalation. Whatever calls a group of users makes, in any number and order, nobody ends up with a
  permission in an existing guild that neither they nor a member of the group had before.
\<close>

theorem no_privilege_escalation:
  assumes "reachable cfg s klog" "calls_by A s s'" "sp_owner (absdb s) g \<noteq> None"
  shows "eff (absdb s') g v \<subseteq> eff (absdb s) g v \<union> (\<Union>a\<in>A. eff (absdb s) g a)"
proof -
  have inv: "keys_ok s" "spec_inv (absdb s)" using guild_service.reach_inv[OF assms(1)] by (simp_all add: system_inv_def)
  show ?thesis by (rule group_steps_eff[OF calls_by_sim[OF assms(2) inv, THEN conjunct2] inv(2) assms(3)])
qed

theorem no_privilege_escalation_witness:
  "eff (absdb (after (demo_env 1000) 2 (ReqKick 100 3) demo)) 100 2 \<subseteq> eff (absdb demo) 100 2"
  using no_privilege_escalation[OF demo_reachable after_call[OF demo_kick, of "{2}"], of 100 2] demo_owner by (simp add: request_ok_def)

text \<open>
  C2: The role hierarchy protects members. A group none of whose users outranks a member cannot remove that member, cannot
  change its rank, and cannot take the guild from it, by any sequence of calls.
\<close>

theorem hierarchy_protects:
  assumes "reachable cfg s klog" "calls_by A s s'" "(g, v) \<in> sp_members (absdb s)"
    "\<forall>a\<in>A. a \<noteq> v \<and> \<not> outranks (absdb s) g a v"
  shows "(g, v) \<in> sp_members (absdb s') \<and> rank (absdb s') g v = rank (absdb s) g v"
proof -
  have inv: "keys_ok s" "spec_inv (absdb s)" using guild_service.reach_inv[OF assms(1)] by (simp_all add: system_inv_def)
  show ?thesis
    by (rule group_steps_hierarchy[OF calls_by_sim[OF assms(2) inv, THEN conjunct2] inv(2) assms(3)]) (use assms(4) in blast)
qed

theorem hierarchy_protects_witness:
  "(100, 2) \<in> sp_members (absdb (after (demo_env 1000) 3 (ReqLeave 100) demo))
   \<and> rank (absdb (after (demo_env 1000) 3 (ReqLeave 100) demo)) 100 2 = 1"
proof -
  have "\<forall>a\<in>{3}. a \<noteq> 2 \<and> \<not> outranks (absdb demo) 100 a 2"
    using demo_owner demo_ranks by (simp add: outranks_def)
  then show ?thesis
    using hierarchy_protects[OF demo_reachable after_call[OF demo_leave, of "{3}"] demo_members(2)] demo_ranks
    by (simp add: request_ok_def)
qed

section \<open>State\<close>

text \<open>
  C3: Whatever callers and relay do, the database stays consistent: the primary keys are unique, the owner of a guild is a
  member, a banned user is not, role assignments and overwrites refer to live roles, members and channels of the same
  guild, a channel's parent is a live category of its guild, and every channel has its overwrite for everyone.
\<close>

theorem guild_state_consistent:
  assumes "reachable cfg s klog"
  shows "keys_ok s \<and> spec_inv (absdb s)"
  using guild_service.reach_inv[OF assms] by (simp add: system_inv_def)

theorem guild_state_consistent_witness: "keys_ok demo \<and> spec_inv (absdb demo)"
  by (rule guild_state_consistent[OF demo_reachable])

text \<open>
  C4: Refinement. In a reachable state, a successful call of a user is a sequence of the changes the specification allows
  that user: each with the permission, the position in the hierarchy and the membership it requires.
\<close>

theorem call_refines_policy:
  assumes "reachable cfg s klog" "env_ok env" "request_ok q" "handle env pre a q s = Inr ((), s')"
  shows "spec_steps a (absdb s) (absdb s')"
  using tx_relD[OF handle_sim[OF assms(2,3)] assms(4)] guild_service.reach_inv[OF assms(1)] by (simp add: system_inv_def sim_def)

theorem call_refines_policy_witness:
  "spec_steps 2 (absdb demo) (absdb (after (demo_env 1000) 2 (ReqKick 100 3) demo))"
  by (rule call_refines_policy[OF demo_reachable demo_env_ok _ after_ok[OF demo_kick]]) (simp add: request_ok_def)

text \<open>
  C5: The events of the guild service reach the log in order and none is lost: in every reachable state of callers and
  relay, the log never holds an event before its predecessors of the same guild, and every sequence number given out is
  still queued or in the log.
\<close>

theorem guild_events_delivered:
  assumes "reachable cfg s klog"
  shows "log_ordered klog \<and> (\<forall>r\<in>set (ob_streams (db_outbox s)). stream_ok (ob_events (db_outbox s)) klog r)"
  using guild_service.reach_inv[OF assms] by (simp_all add: system_inv_def outbox_inv_def delivery_inv_def)

theorem guild_events_delivered_witness:
  "stream_ok (ob_events (db_outbox demo)) [] \<lparr>st_key = str ''100'', st_shard = 0, st_last = 8\<rparr>"
  using guild_events_delivered[OF demo_reachable] by (simp add: demo_def)

section \<open>Permissions\<close>

text \<open>
  C6: The precedence of channel permissions. Owners and administrators have every permission. For anyone else each bit is
  decided by the first layer that mentions it: the member's own overwrite, then those of its roles together, then the one
  for everyone, then the permissions in the guild; within a layer allow wins. Without the permission to view the channel
  the permissions to send and to manage messages are taken away.
\<close>

theorem channel_permission_precedence:
  assumes "subjects_distinct ows"
  shows "bit (channelPermissions a roles ows u) n \<longleftrightarrow>
    (if ma_IsOwner a \<or> bit (ma_Permissions a) 0 then n < 12
     else granted (g_ID (ma_Guild a)) (r_ID ` set roles) u (set ows) (ma_Permissions a) n
       \<and> (n = 6 \<or> n = 8 \<longrightarrow> granted (g_ID (ma_Guild a)) (r_ID ` set roles) u (set ows) (ma_Permissions a) 5))"
  using bit_channelPermissions[OF _ _ assms] channelPermissions_admin[of a roles ows u] by (simp add: bit_AllGuild)

theorem channel_permission_precedence_witness:
  "subjects_distinct [demo_overwrite 103 100 0 32 2 1000, demo_overwrite 103 200 32 0 1 0]
   \<and> granted 100 {100, 200} 2 {demo_overwrite 103 100 0 32 2 1000, demo_overwrite 103 200 32 0 1 0} 1140 5"
proof -
  define a where "a = \<lparr>ma_Guild = hd (db_guilds demo), ma_Permissions = 1140, ma_HighestRole = 1, ma_IsOwner = False\<rparr>"
  let ?roles = "[demo_role 100 ''@everyone'' 1120 0 True, demo_role 200 ''mod'' 1140 1 False]"
  let ?ows = "[demo_overwrite 103 100 0 32 2 1000, demo_overwrite 103 200 32 0 1 0]"
  have d: "subjects_distinct ?ows" by code_simp
  have b: "bit (channelPermissions a ?roles ?ows 2) 5" "\<not> bit (ma_Permissions a) 0" "g_ID (ma_Guild a) = 100" unfolding a_def by code_simp+
  show ?thesis using channel_permission_precedence[OF d, of a ?roles 2 5] b d by (simp add: a_def demo_role_def)
qed

text \<open>
  C7: The authority a handler loads is the one of the specification: the permissions are those of the default role and of
  the member's roles, all of them for owners and administrators; the highest role is the member's rank.
\<close>

theorem authority_is_specified:
  assumes "reachable cfg s klog" "loadMemberAuthority g u s = Inr (a, s')"
  shows "{n. bit (ma_Permissions a) n} = eff (absdb s) g u \<and> ma_HighestRole a = rank (absdb s) g u
    \<and> (ma_IsOwner a \<longleftrightarrow> sp_owner (absdb s) g = Some u) \<and> (g, u) \<in> sp_members (absdb s) \<and> s' = s"
proof -
  have "keys_ok s" using guild_service.reach_inv[OF assms(1)] by (simp add: system_inv_def)
  from loadMemberAuthority_refines[OF this assms(2)] show ?thesis by simp
qed

theorem authority_is_specified_witness: "eff (absdb demo) 100 2 = {n. bit (1140 :: perms) n} \<and> rank (absdb demo) 100 2 = 1"
proof -
  have "ma_Permissions (authority_of 2 demo) = 1140" "ma_HighestRole (authority_of 2 demo) = 1" by code_simp+
  moreover have "{n. bit (ma_Permissions (authority_of 2 demo)) n} = eff (absdb demo) 100 2 \<and>
      ma_HighestRole (authority_of 2 demo) = rank (absdb demo) 100 2"
    using authority_is_specified[OF demo_reachable demo_authority, of 2] by blast
  ultimately show ?thesis by (simp only:)
qed

section \<open>Visibility\<close>

text \<open>The reads succeed for every member.\<close>

definition reads_ok :: "'a gtx \<Rightarrow> guild_db \<Rightarrow> bool" where
  "reads_ok m s \<longleftrightarrow> (\<exists>x. m s = Inr (x, s))"

lemma reads_ok_bind: "reads_ok m s \<Longrightarrow> (\<And>x. m s = Inr (x, s) \<Longrightarrow> reads_ok (f x) s) \<Longrightarrow> reads_ok (tx_bind m f) s"
  by (auto simp: reads_ok_def tx_bind_def)

lemma reads_ok_then: "reads_ok m s \<Longrightarrow> reads_ok m' s \<Longrightarrow> reads_ok (tx_then m m') s"
  by (auto simp: reads_ok_def tx_then_def tx_bind_def)

lemma reads_ok_base:
  "reads_ok (tx_return x) s" "b \<Longrightarrow> reads_ok (tx_require b e) s" "r = Inr y \<Longrightarrow> reads_ok (tx_lift r) s" "reads_ok (tx_read f) s"
  "reads_ok m s \<Longrightarrow> reads_ok (tx_map_error h m) s" "(b \<Longrightarrow> reads_ok m s) \<Longrightarrow> (\<not> b \<Longrightarrow> reads_ok m' s) \<Longrightarrow> reads_ok (if b then m else m') s"
  "(\<And>x y. p = (x, y) \<Longrightarrow> reads_ok (k x y) s) \<Longrightarrow> reads_ok (case p of (x, y) \<Rightarrow> k x y) s"
  by (auto simp: reads_ok_def tx_return_def tx_require_def tx_lift_def tx_read_def tx_map_error_def split: prod.splits)

lemmas reads_ok_rules = reads_ok_then reads_ok_bind reads_ok_base

lemma member_guild:
  assumes "keys_ok s" "spec_inv (absdb s)" "(g, u) \<in> sp_members (absdb s)"
  shows "reads_ok (GetGuildForMember g u) s" "reads_ok (store_GetGuild g) s"
proof -
  have own: "sp_owner (absdb s) g \<noteq> None" using members_invD(2)[OF spec_invD(2)[OF assms(2)] assms(3)] .
  have "GetGuildForMember g u s \<noteq> Inl e" for e
    unfolding GetGuildForMember_None[OF assms(1)] using own assms(3) by (simp del: absdb_sel)
  then obtain guild s1 where 1: "GetGuildForMember g u s = Inr (guild, s1)" by (metis sum.exhaust surj_pair)
  note g = GetGuildForMember_refines[OF assms(1) 1]
  show "reads_ok (GetGuildForMember g u) s" using 1 g(1) by (simp add: reads_ok_def)
  have "live_guild g guild" using g(4,6) by simp
  then obtain q where "List.find (live_guild g) (db_guilds s) = Some q"
    using g(5) find_None_iff[of "live_guild g" "db_guilds s"] by (metis option.exhaust)
  then show "reads_ok (store_GetGuild g) s" by (simp add: reads_ok_def store_GetGuild_def tx_query_def select_one_def)
qed

lemma member_authority:
  assumes "keys_ok s" "spec_inv (absdb s)" "(g, u) \<in> sp_members (absdb s)"
  shows "reads_ok (loadMemberAuthorityAndRoles g u) s"
  unfolding loadMemberAuthorityAndRoles_def store_ListGuildMemberRoles_def by (intro reads_ok_rules member_guild[OF assms])

lemma views_succeed:
  assumes inv: "keys_ok s" "spec_inv (absdb s)" and m: "(g, u) \<in> sp_members (absdb s)" "0 < g" "0 < u"
  shows "reads_ok (ListGuildChannels g u) s" "reads_ok (GetUserGuildChannelVisibility u g) s" "reads_ok (GetUserReadyState env u) s"
  unfolding ListGuildChannels_def loadVisibleGuildChannels_def ListGuildChannelsWithRevision_def store_ListGuildChannels_def
    ListGuildChannelPermissionOverwritesByGuild_def GetUserGuildChannelVisibility_def store_ListGuildMemberRoles_def
    GetUserReadyState_def store_ListUserGuilds_def ListGuildRolesByGuilds_def ListGuildMemberRolesByGuilds_def Let_def
    ListGuildChannelsWithRevisionsByGuilds_def ListGuildChannelPermissionOverwritesByGuilds_def ListGuildChannelPermissionOverwritesByChannels_def
  by (intro reads_ok_rules member_guild[OF inv m(1)] member_authority[OF inv m(1)] m; use m in \<open>simp add: validateMemberActorRequest_def\<close>)+

lemma GetGuildChannel_visible:
  assumes inv: "keys_ok s" "spec_inv (absdb s)" and m: "(g, u) \<in> sp_members (absdb s)" "0 < u"
  shows "c_GuildID c = g \<and> GetGuildChannel (c_ID c) u s = Inr (c, s) \<longleftrightarrow> c \<in> set (visible_channels s g u) \<and> 0 < c_ID c"
proof
  assume l: "c_GuildID c = g \<and> GetGuildChannel (c_ID c) u s = Inr (c, s)"
  then obtain p where p: "loadAuthorizedChannel (c_ID c) u s = Inr ((c, p), s)" "p AND PermissionViewChannel \<noteq> 0" "0 < c_ID c"
    by (auto simp: GetGuildChannel_def tx_simps validateChannelActorRequest_def split: if_splits dest: loadAuthorizedChannel_refines(2)[OF inv])
  note r = loadAuthorizedChannel_refines[OF inv p(1)]
  obtain d where d: "d \<in> set (db_channels s)" "c_ID d = c_ID c" "c_DeletedAt d = 0" "store_GetGuildChannel (c_ID c) s = Inr (c, s)"
    using p(1) r(3) channels_of_live[OF inv(1), of "c_ID c"] by (auto simp: loadAuthorizedChannel_def tx_simps read_simps)
  note c = GetGuildChannel_refines[OF inv(1) d(4)]
  have "5 \<in> chan_eff (absdb s) g u (c_ID c)" using r(1) p(2) l unfolding view_bit by blast
  then show "c \<in> set (visible_channels s g u) \<and> 0 < c_ID c" using c l p(3) by (simp add: visible_channels_def)
next
  assume r: "c \<in> set (visible_channels s g u) \<and> 0 < c_ID c"
  then have c: "c \<in> set (db_channels s)" "c_GuildID c = g" "c_DeletedAt c = 0" "5 \<in> chan_eff (absdb s) g u (c_ID c)"
    by (simp_all add: visible_channels_def)
  obtain q where q: "List.find (live_channel (c_ID c)) (db_channels s) = Some q"
    using c(1,3) find_None_iff[of "live_channel (c_ID c)" "db_channels s"] by (metis option.exhaust)
  then have "q = c" using c(1) keys_okD(4)[OF inv(1)] inj_on_distinct_key[of c_ID "db_channels s" q c] find_SomeD[OF q] by simp
  then have ch: "store_GetGuildChannel (c_ID c) s = Inr (c, s)" using q by (simp add: store_GetGuildChannel_def tx_query_def select_one_def)
  have "reads_ok (loadAuthorizedChannel (c_ID c) u) s"
    unfolding loadAuthorizedChannel_def store_ListGuildChannelPermissionOverwrites_def
    by (intro reads_ok_rules) (use ch member_authority[OF inv m(1)] c(2) in \<open>auto simp: reads_ok_def tx_map_error_def split: sum.splits\<close>)
  then obtain c' p where p: "loadAuthorizedChannel (c_ID c) u s = Inr ((c', p), s)" by (auto simp: reads_ok_def)
  then have "c' = c" using ch by (auto simp: loadAuthorizedChannel_def tx_simps read_simps)
  then show "c_GuildID c = g \<and> GetGuildChannel (c_ID c) u s = Inr (c, s)"
    using p loadAuthorizedChannel_refines(1)[OF inv p] c(2,4) r m(2)
    by (auto simp: GetGuildChannel_def tx_simps validateChannelActorRequest_def view_bit)
qed



text \<open>
  C9: \<^verbatim>\<open>AuthorizeGuildChannel\<close> answers for the specification: for a live channel and a member of its guild it allows a
  set of channel permissions exactly when the specification grants all of them in the channel.
\<close>

theorem authorize_is_specified:
  assumes "reachable cfg s klog" "AuthorizeGuildChannel cid u permission s = Inr (r, s')"
  shows "(az_Allowed r \<longleftrightarrow> {n. bit permission n} \<subseteq> chan_eff (absdb s) (az_GuildID r) u cid)
    \<and> (az_GuildID r, u) \<in> sp_members (absdb s) \<and> s' = s"
proof -
  have inv: "keys_ok s" "spec_inv (absdb s)" using guild_service.reach_inv[OF assms(1)] by (simp_all add: system_inv_def)
  obtain c p where l: "loadAuthorizedChannel cid u s = Inr ((c, p), s')"
    and r: "az_GuildID r = c_GuildID c" "az_Allowed r \<longleftrightarrow> p AND permission = permission"
    using assms(2) by (auto simp: AuthorizeGuildChannel_def tx_simps)
  have "p AND permission = permission \<longleftrightarrow> {n. bit permission n} \<subseteq> {n. bit p n}" using and_eq_self_iff[of p permission] by auto
  then show ?thesis using loadAuthorizedChannel_refines[OF inv l] r by simp
qed

theorem authorize_is_specified_witness: "{5 :: nat} \<subseteq> chan_eff (absdb demo) 100 2 103"
proof -
  have ok: "\<not> isl (AuthorizeGuildChannel 103 2 32 demo)" "az_Allowed (fst (projr (AuthorizeGuildChannel 103 2 32 demo)))"
    "az_GuildID (fst (projr (AuthorizeGuildChannel 103 2 32 demo))) = 100" by code_simp+
  obtain r s where r: "AuthorizeGuildChannel 103 2 32 demo = Inr (r, s)" using ok(1) by (cases "AuthorizeGuildChannel 103 2 32 demo") auto
  have "(32 :: perms) = 2 ^ 5" by simp
  then have "{n. bit (32 :: perms) n} = {5}" by (simp only: bits_pow) simp
  then show ?thesis using authorize_is_specified[OF demo_reachable r] ok r by simp
qed

end
