(* ===== verification/Guild_Behaviour.thy ===== *)
theory Guild_Behaviour
  imports Guild_Theorems Guild_Cursors
begin

text \<open>
  What single operations of the guild service guarantee beyond the policy: revisions, retries, invites, layout and
  pagination. As in \<open>Guild_Theorems\<close>, each property is applied to the concrete run.
\<close>

section \<open>Rows\<close>



section \<open>Access revision\<close>

lemma demo_nick:
  "case handle (demo_env 1000) demo 3 (ReqUpdateMember 100 (str ''bob'')) demo of Inr (_, s) \<Rightarrow> access_of s 100 = Some 17 | Inl _ \<Rightarrow> False"
  by code_simp

text \<open>
  C10: The access revision of a guild covers everything that decides access. It never decreases, and as long as it stays the
  same, whatever calls are made, every user keeps membership, guild permissions, the permissions in every channel and the
  set of visible channels, so knowledge tagged with the revision is still valid.
\<close>

theorem access_revision_covers:
  assumes "reachable cfg s klog" "calls_by A s s'" "access_of s g = Some v" "access_of s' g = Some v'"
  shows "v \<le> v' \<and> (v' = v \<longrightarrow> ((g, u) \<in> sp_members (absdb s') \<longleftrightarrow> (g, u) \<in> sp_members (absdb s)) \<and> eff (absdb s') g u = eff (absdb s) g u
    \<and> c_ID ` set (visible_channels s' g u) = c_ID ` set (visible_channels s g u)
    \<and> (\<forall>c\<in>set (visible_channels s g u). chan_eff (absdb s') g u (c_ID c) = chan_eff (absdb s) g u (c_ID c)))"
proof -
  have inv: "keys_ok s" "spec_inv (absdb s)" using guild_service.reach_inv[OF assms(1)] by (simp_all add: system_inv_def)
  note a = access_unchanged[OF inv assms(2-4)]
  show ?thesis
  proof (intro conjI impI ballI)
    show "v \<le> v'" by (fact a(1))
    assume same: "v' = v"
    note rows = a(2)[OF same]
    note eqs = access_rows_eqD[OF rows inv(1) a(3)]
    have chan: "chan_eff (absdb s') g u cid = chan_eff (absdb s) g u cid" if "\<exists>c. sp_channels (absdb s) cid = Some c \<and> ci_guild c = g" for cid
      using that access_rows_chan_eff[OF rows inv(1) a(3) inv(2) a(4)] by blast
    show "(g, u) \<in> sp_members (absdb s') \<longleftrightarrow> (g, u) \<in> sp_members (absdb s)" by (fact eqs(2))
    show "eff (absdb s') g u = eff (absdb s) g u" by (rule access_rows_eff[OF rows inv(1) a(3)])
    show "c_ID ` set (visible_channels s' g u) = c_ID ` set (visible_channels s g u)"
      unfolding visible_ids[OF inv(1)] visible_ids[OF a(3)] eqs(5) by (rule Collect_cong) (metis chan)
    show "chan_eff (absdb s') g u (c_ID c) = chan_eff (absdb s) g u (c_ID c)" if "c \<in> set (visible_channels s g u)" for c
      by (rule chan) (use imageI[OF that, of c_ID, unfolded visible_ids[OF inv(1)]] in simp)
  qed
qed

theorem access_revision_covers_witness:
  "eff (absdb (after (demo_env 1000) 3 (ReqUpdateMember 100 (str ''bob'')) demo)) 100 2 = eff (absdb demo) 100 2"
proof -
  have "access_of demo 100 = Some 17" by code_simp
  moreover have "access_of (after (demo_env 1000) 3 (ReqUpdateMember 100 (str ''bob'')) demo) 100 = Some 17"
    "\<not> isl (handle (demo_env 1000) demo 3 (ReqUpdateMember 100 (str ''bob'')) demo)"
    using demo_nick by (auto simp: after_def split: sum.splits)
  ultimately show ?thesis
    using access_revision_covers[OF demo_reachable after_call[of _ demo 3 _ "{3}"], of 1000 "ReqUpdateMember 100 (str ''bob'')" 100 17 17 2]
    by (simp add: request_ok_def)
qed

section \<open>Channel layout\<close>

definition layout_of :: "guild_db \<Rightarrow> int64 \<Rightarrow> int64 option" where
  "layout_of s g = map_option g_ChannelLayoutRevision (List.find (live_guild g) (db_guilds s))"

lemma layout_of_Get: "GetGuildChannelLayoutRevision g s = Inr (n, s') \<longleftrightarrow> s' = s \<and> layout_of s g = Some n"
  by (auto simp: GetGuildChannelLayoutRevision_def store_GetGuild_def layout_of_def tx_simps select_one_Inr)

lemma layout_of_Advance:
  assumes keys: "keys_ok s" and run: "AdvanceGuildChannelLayoutRevision g e s = Inr (n, s')"
  shows "n = e + 1" "layout_of s' g = Some n"
proof -
  let ?p = "\<lambda>r. live_guild g r \<and> g_ChannelLayoutRevision r = e" and ?f = "\<lambda>r. r\<lparr>g_ChannelLayoutRevision := g_ChannelLayoutRevision r + 1\<rparr>"
  obtain r where r: "List.find ?p (db_guilds s) = Some r" "n = g_ChannelLayoutRevision r + 1" "s' = s\<lparr>db_guilds := tbl_update ?p ?f (db_guilds s)\<rparr>"
    using run by (auto simp: AdvanceGuildChannelLayoutRevision_def update_guild_def tx_simps store_simps bump_owned_guild_access_revision_def
        split: option.splits sum.splits)
  note m = find_SomeD[OF r(1)]
  show "n = e + 1" using m r(2) by simp
  have "List.find (live_guild g) (tbl_update ?p ?f t) = Some (?f r)" if "distinct (map g_ID t)" "r \<in> set t" for t
    using that
  proof (induction t)
    case (Cons x t)
    show ?case
    proof (cases "x = r")
      case True
      then show ?thesis using m by (simp add: tbl_update_def)
    next
      case False
      then have "r \<in> set t" "g_ID x \<noteq> g" using Cons.prems m by (auto simp: image_iff)
      then show ?thesis using Cons.IH Cons.prems(1) by (simp add: tbl_update_def)
    qed
  qed simp
  then show "layout_of s' g = Some n" using m keys_okD(1)[OF keys] r(2,3) by (simp add: layout_of_def)
qed

lemma layout_of_core: "core_eq s s' \<Longrightarrow> layout_of s' g = layout_of s g"
  by (simp add: core_eq_def layout_of_def)

lemma ReorderGuildChannels_checks:
  "ReorderGuildChannels env g a items expected s = Inr (r, s') \<Longrightarrow> layout_of s g = Some (or_zero expected)"
  unfolding ReorderGuildChannels_def requireGuildChannelLayoutRevision_def
  by (auto simp: tx_simps read_simps layout_of_Get)

lemma DeleteGuildChannel_checks:
  assumes "DeleteGuildChannel env cid a expected s = Inr (n, s')"
  obtains ch moved s1 u1 s2 del s3 s4 k evs u where "store_GetGuildChannel cid s = Inr (ch, s)" "layout_of s (c_GuildID ch) = Some (or_zero expected)"
    "detach_children (e_now env) ch s = Inr (moved, s1)" "DeleteGuildChannelPermissionOverwrites (c_ID ch) s1 = Inr (u1, s2)"
    "store_DeleteGuildChannel (c_ID ch) (e_now env) s2 = Inr (del, s3)"
    "AdvanceGuildChannelLayoutRevision (c_GuildID ch) (or_zero expected) s3 = Inr (n, s4)" "enqueueEvents env k evs s4 = Inr (u, s')"
  using assms that unfolding DeleteGuildChannel_def requireGuildChannelLayoutRevision_def Let_def
  by (auto simp: tx_simps read_simps layout_of_Get)

text \<open>
  C12: Optimistic concurrency on the channel layout. A reordering or a deletion succeeds only against the layout revision the
  caller has seen; it leaves the database alone or advances the revision by one and returns the new one. So of two changes
  made against the same revision at most one takes effect.
\<close>

theorem layout_changes_serialized:
  assumes "reachable cfg s klog"
  shows "(ReorderGuildChannels env g a items (Some e) s = Inr ((chs, n), s') \<longrightarrow>
      layout_of s g = Some e \<and> layout_of s' g = Some n \<and> (n = e \<and> s' = s \<or> n = e + 1))
    \<and> (DeleteGuildChannel env cid a (Some e) s = Inr (n, s') \<longrightarrow>
      (\<exists>c. store_GetGuildChannel cid s = Inr (c, s) \<and> layout_of s (c_GuildID c) = Some e \<and> layout_of s' (c_GuildID c) = Some n \<and> n = e + 1))"
proof (intro conjI impI)
  have keys: "keys_ok s" using guild_service.reach_inv[OF assms] by (simp add: system_inv_def)
  assume run: "ReorderGuildChannels env g a items (Some e) s = Inr ((chs, n), s')"
  note now = ReorderGuildChannels_checks[OF run]
  then show "layout_of s g = Some e" by simp
  from run show "layout_of s' g = Some n" "n = e \<and> s' = s \<or> n = e + 1"
  proof (atomize(full), cases rule: ReorderGuildChannels_Inr)
    case same
    then show "layout_of s' g = Some n \<and> (n = e \<and> s' = s \<or> n = e + 1)" using now by simp
  next
    case (moved ps au cs parents ordered ups s1 s2 k evs u)
    have "keys_ok s1" using tx_relD[OF safe_channels(3) moved(7)] keys by (simp add: safe_def)
    then show "layout_of s' g = Some n \<and> (n = e \<and> s' = s \<or> n = e + 1)"
      using layout_of_Advance[of s1 g "or_zero (Some e)"] moved(8) layout_of_core[OF enqueueEvents_core[OF moved(10)], of g] by simp
  qed
next
  have keys: "keys_ok s" using guild_service.reach_inv[OF assms] by (simp add: system_inv_def)
  assume run: "DeleteGuildChannel env cid a (Some e) s = Inr (n, s')"
  show "\<exists>c. store_GetGuildChannel cid s = Inr (c, s) \<and> layout_of s (c_GuildID c) = Some e \<and> layout_of s' (c_GuildID c) = Some n \<and> n = e + 1"
  proof (rule DeleteGuildChannel_checks[OF run], goal_cases)
    case (1 ch moved s1 u1 s2 del s3 s4 k evs u)
    have "keys_ok s3" using tx_relD[OF safe_detach_children 1(3)] tx_relD[OF safe_channels(9) 1(4)] tx_relD[OF safe_channels(4) 1(5)] keys
      by (simp add: safe_def)
    then show ?case using layout_of_Advance[OF _ 1(6)] 1(1,2) layout_of_core[OF enqueueEvents_core[OF 1(7)], of "c_GuildID ch"] by auto
  qed
qed

lemma demo_reorder:
  "case ReorderGuildChannels (demo_env 1000) 100 1 [(102, 0, None)] (Some 1) demo of
     Inr ((chs, n), s) \<Rightarrow> map c_ID chs = [102, 101, 103, 104] \<and> n = 2 | Inl _ \<Rightarrow> False"
  by code_simp

theorem layout_changes_serialized_witness:
  "\<exists>chs s'. ReorderGuildChannels (demo_env 1000) 100 1 [(102, 0, None)] (Some 1) demo = Inr ((chs, 2), s') \<and> layout_of demo 100 = Some 1 \<and> layout_of s' 100 = Some 2"
proof -
  obtain chs s' where "ReorderGuildChannels (demo_env 1000) 100 1 [(102, 0, None)] (Some 1) demo = Inr ((chs, 2), s')"
    using demo_reorder by (auto split: sum.splits)
  then show ?thesis using layout_changes_serialized[OF demo_reachable, of "demo_env 1000" 100 1 "[(102, 0, None)]" 1 chs 2 s'] by blast
qed

text \<open>
  C13: A reordering leaves a dense layout: whatever placements were requested, in whatever order the map of them is visited,
  the channels of the guild then stand at the positions 0, 1, 2 and so on, each once, uncategorized channels first, and the
  response lists them in this order.
\<close>

theorem reorder_is_dense:
  assumes "reachable cfg s klog" "env_ok env" "int (length (db_channels s)) < 2 ^ 31"
    "ReorderGuildChannels env g a items expected s = Inr ((chs, n), s')"
  shows "dense_layout chs \<and> store_ListGuildChannels g s' = Inr (chs, s')"
proof -
  have keys: "keys_ok s" using guild_service.reach_inv[OF assms(1)] by (simp add: system_inv_def)
  show ?thesis by (rule ReorderGuildChannels_dense[OF _ keys assms(3,4)]) (use assms(2) in \<open>simp add: env_ok_def\<close>)
qed

theorem reorder_is_dense_witness: "\<exists>chs :: Channel list. dense_layout chs \<and> map c_ID chs = [102, 101, 103, 104]"
proof -
  obtain chs n s' where r: "ReorderGuildChannels (demo_env 1000) 100 1 [(102, 0, None)] (Some 1) demo = Inr ((chs, n), s')"
    "map c_ID chs = [102, 101, 103, 104]" using demo_reorder by (auto split: sum.splits)
  have "int (length (db_channels demo)) < 2 ^ 31" by (simp add: demo_def)
  from reorder_is_dense[OF demo_reachable demo_env_ok this r(1)] r(2) show ?thesis by (intro exI[of _ chs]) (simp only: simp_thms)
qed

section \<open>Retries\<close>

lemma find_filter: "List.find P xs = (case filter P xs of [] \<Rightarrow> None | x # _ \<Rightarrow> Some x)"
  by (induction xs) auto

lemma claim_known:
  assumes "filter (claim_key params) (db_idempotency s) = [k]" "ik_CreatedAt params < ik_ExpiresAt k" "idempotency_row_ok params"
  shows "ClaimGuildIdempotency params s = Inr (\<lparr>cl_ResourceID = ik_ResourceID k, cl_RequestHash = ik_RequestHash k, cl_Claimed = False\<rparr>, s)"
proof -
  have mem: "k' \<in> set (db_idempotency s) \<Longrightarrow> claim_key params k' \<Longrightarrow> k' = k" for k'
    using arg_cong[OF assms(1), of set] by auto
  have kept: "tbl_delete (\<lambda>k. claim_key params k \<and> ik_ExpiresAt k \<le> ik_CreatedAt params) (db_idempotency s) = db_idempotency s"
    unfolding tbl_delete_def by (rule filter_True) (use mem assms(2) in force)
  have "List.find (claim_key params) (db_idempotency s) = Some k"
    using find_filter[of "claim_key params" "db_idempotency s"] assms(1) by simp
  then show ?thesis unfolding ClaimGuildIdempotency_def numeral_3_eq_3 claim_attempts.simps Let_def kept using assms(2,3) by simp
qed

lemma claim_fresh:
  assumes "\<forall>k\<in>set (db_idempotency s). \<not> claim_key params k" "ClaimGuildIdempotency params s = Inr (claim, s')"
  shows "claim = \<lparr>cl_ResourceID = ik_ResourceID params, cl_RequestHash = ik_RequestHash params, cl_Claimed = True\<rparr>"
    "s' = s\<lparr>db_idempotency := db_idempotency s @ [params]\<rparr>" "idempotency_row_ok params"
proof -
  have kept: "tbl_delete (\<lambda>k. claim_key params k \<and> ik_ExpiresAt k \<le> ik_CreatedAt params) (db_idempotency s) = db_idempotency s"
    unfolding tbl_delete_def by (rule filter_True) (use assms(1) in blast)
  have "List.find (claim_key params) (db_idempotency s) = None" using assms(1) by (simp add: find_None_iff)
  then show "claim = \<lparr>cl_ResourceID = ik_ResourceID params, cl_RequestHash = ik_RequestHash params, cl_Claimed = True\<rparr>"
    "s' = s\<lparr>db_idempotency := db_idempotency s @ [params]\<rparr>" "idempotency_row_ok params"
    using assms(2) unfolding ClaimGuildIdempotency_def numeral_3_eq_3 claim_attempts.simps Let_def kept by (auto split: if_splits)
qed

lemma loadMemberAuthority_frame:
  "loadMemberAuthority g u (s\<lparr>db_idempotency := x, db_invites := y\<rparr>) =
     (case loadMemberAuthority g u s of Inl e \<Rightarrow> Inl e | Inr (a, _) \<Rightarrow> Inr (a, s\<lparr>db_idempotency := x, db_invites := y\<rparr>))"
  by (auto simp: loadMemberAuthority_def loadMemberAuthorityAndRoles_def GetGuildForMember_def store_ListGuildMemberRoles_def tx_query_def
      tx_read_def tx_bind_def tx_return_def split: sum.splits if_splits)

definition invite_claim :: "guild_env \<Rightarrow> int64 \<Rightarrow> int64 \<Rightarrow> int32 \<Rightarrow> int64 \<Rightarrow> gostring \<Rightarrow> nat \<Rightarrow> guildIdempotencyRow" where
  "invite_claim env g a uses ms key attempt = \<lparr>ik_ActorUserID = a, ik_Operation = createGuildInviteOperation, ik_Key = key,
     ik_RequestHash = e_digest env (InviteFingerprint g uses ms), ik_ResourceID = e_gen env (attempt - 1), ik_CreatedAt = e_now env,
     ik_ExpiresAt = e_now env + CreateGuildInviteTTL (e_Idempotency env)\<rparr>"

lemma create_invite_attempt_fresh:
  assumes "create_invite_attempt env g a uses ms (Some key) n s = Inr (i, s')" "\<forall>k\<in>set (db_idempotency s). \<not> claim_key (invite_claim env g a uses ms key n) k"
  obtains au where "loadMemberAuthority g a s = Inr (au, s)" "has au PermissionCreateInvite" "idempotency_row_ok (invite_claim env g a uses ms key n)"
    "\<forall>j\<in>set (db_invites s). i_ID j \<noteq> i_ID i" "i_ID i = e_gen env (n - 1)"
    "s' = s\<lparr>db_idempotency := db_idempotency s @ [invite_claim env g a uses ms key n], db_invites := db_invites s @ [i]\<rparr>"
proof -
  obtain au claim t where au: "loadMemberAuthority g a s = Inr (au, s)" "has au PermissionCreateInvite"
    and c: "ClaimGuildIdempotency (invite_claim env g a uses ms key n) s = Inr (claim, t)"
    and rest: "(if cl_RequestHash claim \<noteq> e_digest env (InviteFingerprint g uses ms) then tx_fail IdempotencyKeyReused
       else if \<not> cl_Claimed claim then GetGuildInviteByID (cl_ResourceID claim)
       else tx_then (CheckResourceQuota ((quota QuotaActiveInvites g (ActiveInvites (e_Limits env)))\<lparr>q_Now := e_now env\<rparr>))
            (store_CreateGuildInvite \<lparr>i_ID = e_gen env (n - 1), i_Code = newInviteCode (e_rand env n), i_GuildID = g, i_CreatorUserID = a,
               i_MaxUses = uses, i_Uses = 0, i_ExpiresAt = (if ms > 0 then wrap64 (e_now env + ms) else 0), i_CreatedAt = e_now env\<rparr>)) t = Inr (i, s')"
    using assms(1) unfolding create_invite_attempt_def with_claim_def Let_def invite_claim_def
    by (auto simp: tx_then_Inr tx_bind_Inr tx_require_Inr read_simps)
  note f = claim_fresh[OF assms(2) c]
  show thesis
  proof (rule that[OF au f(3)])
    from rest f have r: "store_CreateGuildInvite \<lparr>i_ID = e_gen env (n - 1), i_Code = newInviteCode (e_rand env n), i_GuildID = g, i_CreatorUserID = a,
               i_MaxUses = uses, i_Uses = 0, i_ExpiresAt = (if ms > 0 then wrap64 (e_now env + ms) else 0), i_CreatedAt = e_now env\<rparr> t = Inr (i, s')"
      by (auto simp: invite_claim_def tx_then_Inr read_simps)
    then show "\<forall>j\<in>set (db_invites s). i_ID j \<noteq> i_ID i" "i_ID i = e_gen env (n - 1)"
      "s' = s\<lparr>db_idempotency := db_idempotency s @ [invite_claim env g a uses ms key n], db_invites := db_invites s @ [i]\<rparr>"
      using f(2) by (auto simp: store_CreateGuildInvite_def Let_def store_simps split: sum.splits)
  qed
qed

lemma invite_attempts_Inr: "invite_attempts body m s = Inr r \<Longrightarrow> \<exists>n\<ge>m. body n s = Inr r"
proof (induction "3 - m" arbitrary: m rule: less_induct)
  case less
  show ?case
  proof (cases "body m s")
    case (Inl e)
    then have "\<not> 3 \<le> m" "invite_attempts body (Suc m) s = Inr r" using less.prems by (subst (asm) invite_attempts.simps, auto split: if_splits)+
    then show ?thesis using less.hyps[of "Suc m"] by (metis Suc_leD diff_less_mono2 lessI not_le)
  qed (use less.prems in \<open>subst (asm) invite_attempts.simps, auto\<close>)
qed

lemma invite_retry:
  assumes run: "CreateGuildInvite env g a uses ms (Some key) s = Inr (i, s')"
    and fresh: "\<forall>k\<in>set (db_idempotency s). \<not> (ik_ActorUserID k = a \<and> ik_Operation k = createGuildInviteOperation \<and> ik_Key k = key)"
    and now: "0 < e_now env'" "e_now env' < e_now env + CreateGuildInviteTTL (e_Idempotency env)" and gen: "0 < e_gen env' 0"
    and hash: "length (e_digest env' (InviteFingerprint g uses' ms')) = 32"
  shows "create_invite_attempt env' g a uses' ms' (Some key) 1 s' =
    (if e_digest env' (InviteFingerprint g uses' ms') = e_digest env (InviteFingerprint g uses ms) then Inr (i, s') else Inl IdempotencyKeyReused)"
proof -
  obtain n where n: "create_invite_attempt env g a uses ms (Some key) n s = Inr (i, s')"
    using run invite_attempts_Inr unfolding CreateGuildInvite_def by (fastforce simp: tx_then_Inr tx_require_Inr tx_lift_Inr)
  let ?c = "invite_claim env g a uses ms key n" and ?p = "invite_claim env' g a uses' ms' key 1"
  have nokey: "\<forall>k\<in>set (db_idempotency s). \<not> claim_key (invite_claim e g a u m key j) k" for e u m j using fresh by (simp add: invite_claim_def)
  from n nokey show ?thesis
  proof (rule create_invite_attempt_fresh, goal_cases)
    case (1 au)
    have ok: "idempotency_row_ok ?p" using 1(3) now(1) gen hash by (simp add: idempotency_row_ok_def invite_claim_def CreateGuildInviteTTL_def idempotencyTTL_def)
    have au: "loadMemberAuthority g a s' = Inr (au, s')" using 1(1,6) by (simp add: loadMemberAuthority_frame)
    have "filter (claim_key ?p) (db_idempotency s') = [?c]" using nokey[of env' uses' ms' 1] 1(6) by (simp add: invite_claim_def filter_empty_conv)
    from claim_known[OF this _ ok] have claim: "ClaimGuildIdempotency ?p s' = Inr (\<lparr>cl_ResourceID = i_ID i,
        cl_RequestHash = e_digest env (InviteFingerprint g uses ms), cl_Claimed = False\<rparr>, s')" using now(2) 1(5) by (simp add: invite_claim_def)
    have "List.find (\<lambda>j. i_ID j = i_ID i) (db_invites s @ [i]) = Some i" using 1(4) by (simp add: find_filter filter_empty_conv)
    then have "GetGuildInviteByID (i_ID i) s' = Inr (i, s')" using 1(6) by (simp add: GetGuildInviteByID_def tx_query_def select_one_def)
    then show ?case
      using au 1(2) claim unfolding create_invite_attempt_def with_claim_def Let_def invite_claim_def
      by (simp add: tx_bind_def tx_then_def tx_require_def tx_fail_def tx_return_def)
  qed
qed

text \<open>
  C14: Creating an invite with an idempotency key is safe to retry. Until the key expires, repeating the request returns the
  invite of the first call and changes nothing, whatever identifiers and codes the second call draws; another request under
  the same key is rejected.
\<close>

theorem invite_retry_idempotent:
  assumes "CreateGuildInvite env g a uses ms (Some key) s = Inr (i, s')"
    "\<forall>k\<in>set (db_idempotency s). \<not> (ik_ActorUserID k = a \<and> ik_Operation k = createGuildInviteOperation \<and> ik_Key k = key)"
    "0 < e_now env'" "e_now env' < e_now env + CreateGuildInviteTTL (e_Idempotency env)" "0 < e_gen env' 0"
    "\<forall>f. length (e_digest env' f) = 32" "e_digest env' = e_digest env" "KeyLength (e_Idempotency env') = KeyLength (e_Idempotency env)"
  shows "CreateGuildInvite env' g a uses ms (Some key) s' = Inr (i, s')
    \<and> (e_digest env (InviteFingerprint g uses' ms') \<noteq> e_digest env (InviteFingerprint g uses ms) \<and> 0 \<le> uses' \<and> uses' \<le> 10000 \<and> 0 \<le> ms'
        \<longrightarrow> CreateGuildInvite env' g a uses' ms' (Some key) s' = Inl IdempotencyKeyReused)"
proof -
  have v: "validateMemberActorRequest g a = Inr ()" "\<not> (uses < 0 \<or> uses > 10000)" "\<not> ms < 0"
    "validateIdempotencyKey (Some key) (KeyLength (e_Idempotency env')) = Inr ()"
    using assms(1,8) unfolding CreateGuildInvite_def by (auto simp: tx_then_Inr tx_require_Inr tx_lift_Inr)
  have "create_invite_attempt env' g a u m (Some key) 1 s' =
    (if e_digest env' (InviteFingerprint g u m) = e_digest env (InviteFingerprint g uses ms) then Inr (i, s') else Inl IdempotencyKeyReused)" for u m
    by (rule invite_retry[OF assms(1-5)]) (use assms(6) in blast)
  note r = this[unfolded assms(7)]
  have "invite_attempts (create_invite_attempt env' g a u m (Some key)) 1 s' =
      (if e_digest env (InviteFingerprint g u m) = e_digest env (InviteFingerprint g uses ms) then Inr (i, s') else Inl IdempotencyKeyReused)" for u m
    by (subst invite_attempts.simps) (unfold r, simp add: mapStoreError_def)
  then show ?thesis
    using v unfolding CreateGuildInvite_def by (simp add: tx_then_def tx_bind_def tx_lift_def tx_require_def tx_return_def)
qed

theorem invite_retry_idempotent_witness:
  "\<exists>i s'. CreateGuildInvite (demo_env 1000) 100 1 5 0 (Some [107]) demo = Inr (i, s')
     \<and> CreateGuildInvite (demo_env 2000) 100 1 5 0 (Some [107]) s' = Inr (i, s')"
proof -
  have "\<not> isl (CreateGuildInvite (demo_env 1000) 100 1 5 0 (Some [107]) demo)" by code_simp
  then obtain i s' where i: "CreateGuildInvite (demo_env 1000) 100 1 5 0 (Some [107]) demo = Inr (i, s')"
    by (cases "CreateGuildInvite (demo_env 1000) 100 1 5 0 (Some [107]) demo") auto
  have "CreateGuildInvite (demo_env 2000) 100 1 5 0 (Some [107]) s' = Inr (i, s')"
    by (rule invite_retry_idempotent[OF i, THEN conjunct1])
      (simp_all add: demo_def demo_env_def CreateGuildInviteTTL_def idempotencyTTL_def)
  with i show ?thesis by blast
qed


section \<open>Joining by invite\<close>

lemma tbl_update_one:
  assumes "distinct (map key t)" "r \<in> set t" "p r" "\<And>q. p q \<Longrightarrow> key q = key r"
  shows "tbl_update p f t = tbl_update (\<lambda>q. q = r) f t"
proof -
  have "p q \<longleftrightarrow> q = r" if "q \<in> set t" for q using assms inj_on_distinct_key[OF assms(1) that assms(2)] by blast
  then show ?thesis by (simp add: tbl_update_def)
qed

lemma JoinGuildByInvite_Inr:
  assumes "JoinGuildByInvite env code u s = Inr ((guild, m), s')"
  obtains i0 i s1 s2 p v s3 evs v' where "List.find (\<lambda>i. i_Code i = trim_space code) (db_invites s) = Some i0"
    "store_GetGuildMember (i_GuildID i0) u s = Inl ErrNoRows" "ConsumeGuildInvite (trim_space code) (e_now env) s = Inr (i, s1)"
    "store_GetGuild (i_GuildID i) s1 = Inr (guild, s1)" "CreateGuildMember (i_GuildID i) u (e_now env) s1 = Inr (m, s2)"
    "UpsertGuildMemberProfile env p s2 = Inr (v, s3)" "enqueueEvents env 1 evs s3 = Inr (v', s')"
  using assms that unfolding JoinGuildByInvite_def Let_def normalizeInviteCode_def or_invite_not_found_def store_GetGuildInvite_def
  by (auto simp: tx_simps read_simps store_simps split: if_splits)

lemma GetGuildMember_absent: "store_GetGuildMember g u s = Inl e \<Longrightarrow> (g, u) \<notin> sp_members (absdb s)"
  by (auto simp: store_GetGuildMember_def tx_query_def select_one_def absdb_sel members_of_def live_keys_def find_None_iff split: option.splits)

lemma CreateGuildMember_invites: "CreateGuildMember g u ts s = Inr (m, s') \<Longrightarrow> db_invites s' = db_invites s"
  by (auto simp: CreateGuildMember_def Let_def bump_guild_access_revision_def split: if_splits option.splits sum.splits)

text \<open>
  C16: Joining by invite admits exactly one user for one use. The invite was neither expired nor used up, its counter is
  raised by one and no other invite changes; the user was neither a member nor banned and is a member afterwards, and
  nobody else's membership changes.
\<close>

theorem join_consumes_one_use:
  assumes "reachable cfg s klog" "JoinGuildByInvite env code u s = Inr ((guild, m), s')"
  shows "\<exists>i\<in>set (db_invites s). i_Code i = trim_space code \<and> i_GuildID i = g_ID guild \<and> inviteUsable i (e_now env)
    \<and> db_invites s' = tbl_update (\<lambda>j. j = i) (\<lambda>j. j\<lparr>i_Uses := i_Uses j + 1\<rparr>) (db_invites s)
    \<and> (g_ID guild, u) \<notin> sp_members (absdb s) \<and> (g_ID guild, u) \<notin> sp_banned (absdb s)
    \<and> sp_members (absdb s') = insert (g_ID guild, u) (sp_members (absdb s))"
proof -
  have keys: "keys_ok s" using guild_service.reach_inv[OF assms(1)] by (simp add: system_inv_def)
  show ?thesis
  proof (rule JoinGuildByInvite_Inr[OF assms(2)], goal_cases)
    case (1 i0 i s1 s2 p v s3 evs v')
    have codes: "distinct (map i_Code (db_invites s))" using keys by (simp add: keys_ok_def)
    let ?p = "\<lambda>i. i_Code i = trim_space code \<and> (i_MaxUses i = 0 \<or> i_Uses i < i_MaxUses i) \<and> (i_ExpiresAt i = 0 \<or> e_now env < i_ExpiresAt i)"
    obtain j where j: "List.find ?p (db_invites s) = Some j" "i = j\<lparr>i_Uses := i_Uses j + 1\<rparr>"
      and s1: "s1 = s\<lparr>db_invites := tbl_update ?p (\<lambda>i. i\<lparr>i_Uses := i_Uses i + 1\<rparr>) (db_invites s)\<rparr>"
      using 1(3) by (auto simp: ConsumeGuildInvite_def store_simps split: sum.splits)
    note jm = find_SomeD[OF j(1)]
    have "i0 = j" using find_SomeD[OF 1(1)] jm inj_on_distinct_key[OF codes, of i0 j] by simp
    have g: "g_ID guild = i_GuildID j" using 1(4) j(2) by (auto simp: store_GetGuild_def tx_query_Inr select_one_Inr dest: find_SomeD)
    have inv: "db_invites s' = db_invites s1"
      using CreateGuildMember_invites[OF 1(5)] core_eqD[OF tx_relD[OF core_profiles(1) 1(6)]] core_eqD[OF enqueueEvents_core[OF 1(7)]] by simp
    note m = CreateGuildMember_refines(1,2)[OF 1(5)] and eqs = invites_absdb(2)[OF 1(3)] profile_absdb(1)[OF 1(6)] enqueueEvents_absdb[OF 1(7)]
    have "db_invites s' = tbl_update (\<lambda>x. x = j) (\<lambda>j. j\<lparr>i_Uses := i_Uses j + 1\<rparr>) (db_invites s)"
      unfolding inv s1 by (simp, rule tbl_update_one[OF codes]) (use jm in auto)
    moreover have "(g_ID guild, u) \<notin> sp_members (absdb s)" using GetGuildMember_absent[OF 1(2)] \<open>i0 = j\<close> g by simp
    moreover have "(g_ID guild, u) \<notin> sp_banned (absdb s)" "sp_members (absdb s') = insert (g_ID guild, u) (sp_members (absdb s))"
      using m eqs g j(2) by (simp_all del: absdb_sel)
    ultimately show ?case using jm g by (intro bexI[of _ j]) (auto simp: inviteUsable_def)
  qed
qed

theorem join_consumes_one_use_witness:
  "\<exists>s'. sp_members (absdb s') = insert (100, 5) (sp_members (absdb demo)) \<and> map i_Uses (db_invites demo) = [1] \<and> map i_Uses (db_invites s') = [2]"
proof -
  have "case JoinGuildByInvite (demo_env 1000) (str ''fghijklmno'') 5 demo of Inr ((g, m), s) \<Rightarrow> g_ID g = 100 | Inl _ \<Rightarrow> False" by code_simp
  then obtain g m s where j: "JoinGuildByInvite (demo_env 1000) (str ''fghijklmno'') 5 demo = Inr ((g, m), s)" "g_ID g = 100"
    by (auto split: sum.splits)
  from join_consumes_one_use[OF demo_reachable j(1)] j(2) obtain i where i: "i \<in> set (db_invites demo)"
    "db_invites s = tbl_update (\<lambda>j. j = i) (\<lambda>j. j\<lparr>i_Uses := i_Uses j + 1\<rparr>) (db_invites demo)"
    "sp_members (absdb s) = insert (100, 5) (sp_members (absdb demo))" by auto
  then show ?thesis by (intro exI[of _ s]) (simp add: demo_def tbl_update_def del: absdb_sel)
qed

section \<open>Positions of new roles\<close>

lemma managed_position_zero: "managed_position used p = 0 \<longleftrightarrow> {1..p} \<subseteq> used"
proof (induction used p rule: managed_position.induct)
  case (1 used p)
  have *: "0 < p \<Longrightarrow> {1..p} = insert p {1..p - 1}" by auto
  show ?case
  proof (cases "p \<le> 0 \<or> p \<notin> used")
    case True
    moreover have "\<not> {1..p} \<subseteq> used" if "0 < p" "p \<notin> used" using that by (auto intro!: subsetD[of "{1..p}" used p])
    ultimately show ?thesis by (subst managed_position.simps) auto
  next
    case False
    then show ?thesis using 1 * by (subst managed_position.simps) auto
  qed
qed



end
