(* ===== verification/Guild_Pages.thy ===== *)
theory Guild_Pages
  imports Guild_Theorems
begin

text \<open>
  Reading a list page by page. A client starts without a cursor and follows the cursor of each response; the list it collects
  is the whole list, each item once, in the order of the table's key, and it is complete after finitely many pages.
\<close>

section \<open>The client\<close>

text \<open>\<open>None\<close>: a call failed, or the list was not exhausted after \<open>n\<close> pages.\<close>

fun read_pages :: "nat \<Rightarrow> (gostring option \<Rightarrow> ('a list \<times> gostring option) gtx) \<Rightarrow> gostring option \<Rightarrow> guild_db \<Rightarrow> 'a list option" where
  "read_pages 0 get cursor s = None"
| "read_pages (Suc n) get cursor s = (case get cursor s of
       Inl _ \<Rightarrow> None
     | Inr ((page, next), _) \<Rightarrow>
         (case next of None \<Rightarrow> Some page | Some c \<Rightarrow> map_option ((@) page) (read_pages n get (Some c) s)))"

text \<open>One page of a list from position \<open>k\<close> on, for a cursor that stands for that position.\<close>

lemma read_pages_from:
  assumes lim: "0 < l"
    and page: "\<And>k c. pos k c \<Longrightarrow> k \<le> length full \<Longrightarrow> \<exists>next s'. get c s = Inr ((take l (drop k full), next), s')
       \<and> (if l < length full - k then \<exists>d. next = Some d \<and> pos (k + l) (Some d) else next = None)"
  shows "pos k c \<Longrightarrow> k \<le> length full \<Longrightarrow> length full - k \<le> n \<Longrightarrow> read_pages (Suc n) get c s = Some (drop k full)"
proof (induction n arbitrary: k c)
  case 0
  then show ?case using page[OF 0(1,2)] by (auto split: if_splits)
next
  case (Suc n)
  obtain nxt s' where p: "get c s = Inr ((take l (drop k full), nxt), s')"
    "if l < length full - k then \<exists>d. nxt = Some d \<and> pos (k + l) (Some d) else nxt = None" using page[OF Suc.prems(1,2)] by blast
  show ?case
  proof (cases "l < length full - k")
    case True
    then obtain d where d: "nxt = Some d" "pos (k + l) (Some d)" using p(2) by auto
    have "read_pages (Suc n) get (Some d) s = Some (drop (k + l) full)" by (rule Suc.IH[OF d(2)]) (use True lim Suc.prems in auto)
    moreover have "take l (drop k full) @ drop (k + l) full = drop k full" by (metis append_take_drop_id drop_drop add.commute)
    ultimately show ?thesis using p(1) d(1) by (subst read_pages.simps(2)) simp
  qed (use p in auto)
qed

section \<open>Members\<close>

definition member_key :: "GuildMember \<Rightarrow> int64 \<times> int64" where
  "member_key m = (- m_JoinedAt m, - m_UserID m)"

definition guild_members :: "guild_db \<Rightarrow> int64 \<Rightarrow> GuildMember list" where
  "guild_members s g = sort_key member_key (filter (\<lambda>m. m_GuildID m = g \<and> m_DeletedAt m = 0) (db_members s))"

lemma guild_members_distinct:
  assumes "keys_ok s"
  shows "distinct (map member_key (filter (\<lambda>m. m_GuildID m = g \<and> m_DeletedAt m = 0) (db_members s)))"
proof -
  have "distinct (db_members s)" "inj_on (\<lambda>m. (m_GuildID m, m_UserID m)) (set (db_members s))"
    using keys_okD(2)[OF assms] by (simp_all add: distinct_map)
  then show ?thesis by (auto simp: distinct_map inj_on_def member_key_def)
qed

lemma store_ListGuildMembers_page:
  assumes keys: "keys_ok s" and k: "k \<le> length (guild_members s g)"
    and b: "if k = 0 then b = 0 else b = m_JoinedAt (guild_members s g ! (k - 1)) \<and> bu = m_UserID (guild_members s g ! (k - 1)) \<and> b \<noteq> 0"
  shows "store_ListGuildMembers g b bu n s = Inr (take (nat n) (drop k (guild_members s g)), s)"
proof -
  let ?P = "\<lambda>m. m_GuildID m = g \<and> m_DeletedAt m = 0"
  let ?Q = "\<lambda>m. m_GuildID m = g \<and> m_DeletedAt m = 0 \<and> (b = 0 \<or> m_JoinedAt m < b \<or> m_JoinedAt m = b \<and> m_UserID m < bu)"
  have "sort_key member_key (filter ?Q (db_members s)) = drop k (guild_members s g)"
  proof (cases "k = 0")
    case True
    then show ?thesis using b by (simp add: guild_members_def)
  next
    case False
    let ?F = "guild_members s g"
    have l: "last (take k ?F) = ?F ! (k - 1)" using False k by (subst last_conv_nth) auto
    have q: "?Q m \<longleftrightarrow> ?P m \<and> member_key (last (take k ?F)) < member_key m" for m
      using b False by (auto simp: l member_key_def less_prod_def)
    have "filter ?Q (db_members s) = filter (\<lambda>m. ?P m \<and> member_key (last (take k ?F)) < member_key m) (db_members s)"
      by (rule filter_cong[OF refl q])
    then show ?thesis
      using page_of_table[OF guild_members_distinct[OF keys], of k g] False k by (simp add: guild_members_def)
  qed
  then show ?thesis by (simp add: store_ListGuildMembers_def tx_read_def member_key_def[symmetric])
qed

text \<open>The cursor that stands for position \<open>k\<close> of the member list.\<close>

definition member_cursor :: "guild_cursors \<Rightarrow> guild_db \<Rightarrow> int64 \<Rightarrow> nat \<Rightarrow> gostring option \<Rightarrow> bool" where
  "member_cursor gc s g k c \<longleftrightarrow> (if k = 0 then c = None else \<exists>token. c = Some token \<and> k \<le> length (guild_members s g) \<and>
     Encode (gc_Codec gc) (gc_guildTimeID gc) KindGuildMembers \<lparr>gt_GuildID = g, gt_Time = m_JoinedAt (guild_members s g ! (k - 1)),
        gt_ID = m_UserID (guild_members s g ! (k - 1))\<rparr> = Inr token)"

lemma guild_members_pos:
  assumes "rows_ok s" "m \<in> set (guild_members s g)"
  shows "0 < m_JoinedAt m" "0 < m_UserID m" "m_GuildID m = g"
  using assms rows_okD(2)[OF assms(1)] by (auto simp: guild_members_def list_all_iff member_row_ok_def)

lemma ListGuildMembers_page:
  assumes inv: "keys_ok s" "rows_ok s" "spec_inv (absdb s)" and m: "(g, a) \<in> sp_members (absdb s)"
    and codec: "gc_Codec gc = Some c" "codec_ok c" "\<And>p. json_ok (gc_guildTimeID gc) p" and lim: "normalizeLimit limit = Inr n"
    and cur: "member_cursor gc s g k cursor" and k: "k \<le> length (guild_members s g)"
  shows "\<exists>next. ListGuildMembers gc g a cursor limit s = Inr ((take (nat n) (drop k (guild_members s g)), next), s)
    \<and> (if nat n < length (guild_members s g) - k then \<exists>d. next = Some d \<and> member_cursor gc s g (k + nat n) (Some d) else next = None)"
proof -
  let ?F = "guild_members s g"
  have n: "0 < n" using lim by (auto simp: normalizeLimit_def split: if_splits)
  have pos: "0 < g" "0 < a" using m rows_okD(2)[OF inv(2)] by (auto simp: members_of_def live_keys_def list_all_iff member_row_ok_def)
  define b bu where "b = (if k = 0 then 0 else m_JoinedAt (?F ! (k - 1)))" and "bu = (if k = 0 then 0 else m_UserID (?F ! (k - 1)))"
  have dec: "\<exists>token. readCursor cursor = Inr token \<and> decodeGuildTimeIDCursor gc KindGuildMembers token g = Inr (b, bu)"
  proof (cases "k = 0")
    case True
    then show ?thesis using cur by (simp add: member_cursor_def readCursor_def decodeGuildTimeIDCursor_def Decode_def b_def bu_def)
  next
    case False
    then obtain token where t: "cursor = Some token" "Encode (Some c) (gc_guildTimeID gc) KindGuildMembers
        \<lparr>gt_GuildID = g, gt_Time = m_JoinedAt (?F ! (k - 1)), gt_ID = m_UserID (?F ! (k - 1))\<rparr> = Inr token"
      using cur codec(1) by (auto simp: member_cursor_def)
    have ne: "token \<noteq> []" using t(2) by (auto simp: Encode_def Let_def split: sum.splits)
    have "?F ! (k - 1) \<in> set ?F" using False k by simp
    then show ?thesis
      using t ne Decode_Encode[OF t(2) codec(2,3)] codec(1) False guild_members_pos[OF inv(2)]
      by (auto simp: readCursor_def decodeGuildTimeIDCursor_def b_def bu_def not_le)
  qed
  have page: "store_ListGuildMembers g b bu (n + 1) s = Inr (take (nat (n + 1)) (drop k ?F), s)"
  proof (rule store_ListGuildMembers_page[OF inv(1) k])
    have "?F ! (k - 1) \<in> set ?F" if "k \<noteq> 0" using that k by simp
    then show "if k = 0 then b = 0 else b = m_JoinedAt (?F ! (k - 1)) \<and> bu = m_UserID (?F ! (k - 1)) \<and> b \<noteq> 0"
      using guild_members_pos(1)[OF inv(2)] by (force simp: b_def bu_def)
  qed
  have guild: "\<exists>guild. GetGuildForMember g a s = Inr (guild, s)" using member_guild(1)[OF inv(1,3) m] by (auto simp: reads_ok_def)
  let ?more = "nat n < length ?F - k" and ?page = "take (nat n) (drop k ?F)"
  have trim: "Trim (take (nat (n + 1)) (drop k ?F)) n = (?page, ?more)"
    using n by (auto simp: Trim_def min_def take_all_iff nat_add_distrib split: if_splits)
  have nxt: "\<exists>next. setNextMemberCursor gc KindGuildMembers ?more ?page g = Inr next
      \<and> (if ?more then \<exists>d. next = Some d \<and> member_cursor gc s g (k + nat n) (Some d) else next = None)"
  proof (cases ?more)
    case True
    then have ne: "?page \<noteq> []" and l: "last ?page = ?F ! (k + nat n - 1)" using n by (simp, subst last_conv_nth) (auto simp: nth_append)
    have mem: "last ?page \<in> set ?F" using last_in_set[OF ne] by (meson in_set_dropD in_set_takeD)
    have kind: "validateKind KindGuildMembers = Inr ()" by code_simp
    show ?thesis
      using True ne n pos guild_members_pos[OF inv(2) mem] codec(1) kind
      by (auto simp: setNextMemberCursor_def Let_def encoded_def Encode_def member_cursor_def l not_le split: sum.splits)
  qed (simp add: setNextMemberCursor_def)
  show ?thesis
    using dec page guild trim nxt lim pos
    by (auto simp: ListGuildMembers_def validateMemberActorRequest_def tx_then_def tx_bind_def tx_lift_def tx_return_def tx_map_error_def)
qed

text \<open>
  C18: Listing the members of a guild page by page is complete and ends. For any page size the service accepts, a member who
  follows the cursors collects every member of the guild exactly once, in the order of the list, within one page more than
  there are members.
\<close>

theorem members_listed_completely:
  assumes "reachable cfg s klog" "(g, a) \<in> sp_members (absdb s)" "gc_Codec gc = Some c" "codec_ok c" "\<forall>p. json_ok (gc_guildTimeID gc) p"
    "0 \<le> limit \<and> limit \<le> 100"
  shows "read_pages (Suc (length (guild_members s g))) (\<lambda>cursor. ListGuildMembers gc g a cursor limit) None s = Some (guild_members s g)
    \<and> distinct (guild_members s g) \<and> set (guild_members s g) = {m \<in> set (db_members s). m_GuildID m = g \<and> m_DeletedAt m = 0}"
proof -
  have inv: "keys_ok s" "spec_inv (absdb s)" using guild_service.reach_inv[OF assms(1)] by (simp_all add: system_inv_def)
  note rows = reachable_rows[OF assms(1)]
  obtain n where n: "normalizeLimit limit = Inr n" "0 < n" using assms(6) by (cases "limit = 0") (auto simp: normalizeLimit_def)
  have "read_pages (Suc (length (guild_members s g))) (\<lambda>cursor. ListGuildMembers gc g a cursor limit) None s = Some (drop 0 (guild_members s g))"
  proof (rule read_pages_from[where pos = "member_cursor gc s g" and l = "nat n"])
    fix k cursor assume "member_cursor gc s g k cursor" "k \<le> length (guild_members s g)"
    from ListGuildMembers_page[OF inv(1) rows inv(2) assms(2-4) _ n(1) this] assms(5)
    show "\<exists>next s'. ListGuildMembers gc g a cursor limit s = Inr ((take (nat n) (drop k (guild_members s g)), next), s')
       \<and> (if nat n < length (guild_members s g) - k then \<exists>d. next = Some d \<and> member_cursor gc s g (k + nat n) (Some d) else next = None)" by blast
  qed (use n(2) in \<open>simp_all add: member_cursor_def\<close>)
  moreover have "distinct (guild_members s g)" using guild_members_distinct[OF inv(1), of g] by (simp add: guild_members_def distinct_map)
  ultimately show ?thesis by (auto simp: guild_members_def)
qed

text \<open>A codec and a payload format for the witnesses: integers in unary, each ended by a zero byte.\<close>

definition demo_codec :: Codec where
  "demo_codec = \<lparr>cd_secret = replicate 32 7, cd_hmac = (\<lambda>secret message. [1 + (sum_list message mod 200)])\<rparr>"

definition unary :: "int \<Rightarrow> nat list" where
  "unary x = (if x < 0 then [2] else []) @ replicate (nat \<bar>x\<bar>) 1 @ [0]"

definition read_unary :: "nat list \<Rightarrow> int \<times> nat list" where
  "read_unary bs = (let body = takeWhile (\<lambda>b. b \<noteq> 0) bs; rest = tl (dropWhile (\<lambda>b. b \<noteq> 0) bs) in
     (if body \<noteq> [] \<and> hd body = 2 then - int (length body - 1) else int (length body), rest))"

lemma read_unary: "read_unary (unary x @ bs) = (x, bs)"
proof -
  have tw: "takeWhile ((<) 0) (replicate n (Suc 0) @ 0 # bs) = replicate n (Suc 0)" "dropWhile ((<) 0) (replicate n (Suc 0) @ 0 # bs) = 0 # bs" for n
    by (induction n) auto
  show ?thesis by (cases "nat \<bar>x\<bar>") (auto simp: read_unary_def unary_def tw Let_def)
qed

definition demo_json :: "guildTimeIDPayload json" where
  "demo_json = \<lparr>js_Marshal = (\<lambda>p. unary (gt_GuildID p) @ unary (gt_Time p) @ unary (gt_ID p)),
     js_Unmarshal = (\<lambda>bs. let (g, bs1) = read_unary bs; (t, bs2) = read_unary bs1; (i, _) = read_unary bs2
        in Some \<lparr>gt_GuildID = g, gt_Time = t, gt_ID = i\<rparr>)\<rparr>"

lemma demo_json_ok: "json_ok demo_json p"
proof -
  have "read_unary (unary x) = (x, [])" for x using read_unary[of x "[]"] by simp
  moreover have "unary x \<noteq> []" "\<forall>b\<in>set (unary x). b < 256" for x by (auto simp: unary_def)
  ultimately show ?thesis by (auto simp: json_ok_def demo_json_def read_unary Let_def)
qed

lemma demo_codec_ok: "codec_ok demo_codec"
proof -
  have "sum_list m mod 200 < 255" for m :: "nat list" by (rule less_trans[OF mod_less_divisor]) simp_all
  then show ?thesis by (simp add: codec_ok_def demo_codec_def)
qed

theorem members_listed_completely_witness:
  "\<exists>gc :: guild_cursors. read_pages 4 (\<lambda>cursor. ListGuildMembers gc 100 2 cursor 2) None demo = Some [demo_member 3, demo_member 2, demo_member 1]"
proof -
  have full: "guild_members demo 100 = [demo_member 3, demo_member 2, demo_member 1]" by code_simp
  have "\<exists>gc :: guild_cursors. gc_Codec gc = Some demo_codec \<and> gc_guildTimeID gc = demo_json"
    by (rule exI[of _ "\<lparr>gc_Codec = Some demo_codec, gc_userGuilds = undefined, gc_guildID = undefined, gc_guildTimeID = demo_json,
      gc_guildRoleTimeID = undefined, gc_mentionTargets = undefined\<rparr>"]) simp
  then obtain gc :: guild_cursors where gc: "gc_Codec gc = Some demo_codec" "gc_guildTimeID gc = demo_json" by blast
  have "\<forall>p. json_ok (gc_guildTimeID gc) p" using gc(2) demo_json_ok by simp
  from members_listed_completely[OF demo_reachable demo_members(2) gc(1) demo_codec_ok this, of 2]
  have "read_pages (Suc (length (guild_members demo 100))) (\<lambda>cursor. ListGuildMembers gc 100 2 cursor 2) None demo = Some (guild_members demo 100)" by simp
  moreover have "Suc (length (guild_members demo 100)) = 4" by (simp add: full)
  ultimately show ?thesis by (intro exI[of _ gc]) (simp only: full)
qed

section \<open>Cursors\<close>

text \<open>
  C19: A cursor comes back as what was put into it, only for the list it was made for, and only if the service made it: a token
  decodes to its payload under its own kind, is rejected under any other kind, and whatever decodes carries the code of its
  payload and kind under the service's secret.
\<close>

theorem cursor_round_trip:
  assumes "codec_ok c" "json_ok json payload" "Encode (Some c) json kind payload = Inr token"
  shows "Decode (Some c) json kind token = Inr (Some payload)
    \<and> (\<forall>kind'. kind' \<noteq> kind \<longrightarrow> Decode (Some c) json kind' token = Inl ErrInvalid)
    \<and> (\<forall>token' payload'. Decode (Some c) json kind token' = Inr (Some payload') \<longrightarrow> (\<exists>p. token' = p @ [46] @ kind @ [46] @ mac c p kind))"
  using Decode_Encode[OF assms(3,1,2)] Decode_other_kind[OF assms(3,1,2)] Decode_authentic[of c json kind] by blast

theorem cursor_round_trip_witness:
  "\<exists>token. Encode (Some demo_codec) demo_json KindGuildMembers \<lparr>gt_GuildID = 1, gt_Time = 2, gt_ID = 3\<rparr> = Inr token
     \<and> Decode (Some demo_codec) demo_json KindGuildMembers token = Inr (Some \<lparr>gt_GuildID = 1, gt_Time = 2, gt_ID = 3\<rparr>)
     \<and> Decode (Some demo_codec) demo_json KindGuildBans token = Inl ErrInvalid"
proof -
  have kinds: "KindGuildBans \<noteq> KindGuildMembers" "validateKind KindGuildMembers = Inr ()" by code_simp+
  then obtain token where t: "Encode (Some demo_codec) demo_json KindGuildMembers \<lparr>gt_GuildID = 1, gt_Time = 2, gt_ID = 3\<rparr> = Inr token"
    by (simp add: Encode_def Let_def)
  from cursor_round_trip[OF demo_codec_ok demo_json_ok t] t kinds(1) show ?thesis by blast
qed

end
