(* ===== verification/Spec2Isabelle.thy ===== *)
theory Spec2Isabelle
  imports Outbox_Delivery Consumer_Flow Guild_Behaviour Guild_Pages
begin

text \<open>
  \<^bold>\<open>Cordis: guild service, transactional outbox and partition consumer.\<close>

  Cordis is a chat platform made of services that own a PostgreSQL schema each and exchange events
  through Kafka. This library covers the guild service (guilds, members, roles, channels, permission
  overwrites, bans, invites), which decides what every user may see and do, the outbox through which
  it publishes every change, and the Kafka consumer with which the services read each other's events.

  \<^bold>\<open>How the parts interact.\<close> A gRPC handler of \<^verbatim>\<open>services/guild/v1/internal/server\<close> validates its
  request, then runs one transaction on the store: it loads the caller's authority, checks the policy,
  updates the tables and appends the events that describe the change to the outbox tables of the same
  database (\<^verbatim>\<open>pkg/outbox\<close>). A relay (\<^verbatim>\<open>pkg/outbox/relay\<close>) later publishes the heads of the event
  streams and deletes what the broker acknowledged. At the other end a partition consumer
  (\<^verbatim>\<open>pkg/kafka/partitionconsumer\<close>) gives every record of an assigned partition to a handler, in order,
  and commits offsets behind it.

  \<^bold>\<open>Conventions.\<close> A table is a list of records in insertion order. A handler is a function from the
  database to an error or to a result with the new database (type \<open>gtx\<close>); an error leaves no trace, as
  a rolled back transaction does. \<open>tx_bind\<close>, \<open>tx_then\<close>, \<open>tx_require\<close>, \<open>tx_map_error\<close> follow the
  control flow of the Go code. Time, generated identifiers, random bytes, digests, the user service
  and the media service are fields of the record \<open>guild_env\<close>. Identifiers, times and positions are
  integers with wrap-around written out where the code computes with them; permissions are 64-bit
  words. Strings are lists of code points.

  \<^bold>\<open>Theories.\<close>
  \<^item> \<open>Cordis_Prelude\<close>: strings, transactions, tables, relational contracts (\<open>tx_rel\<close>), the locale
    \<open>invariant_system\<close>.
  \<^item> \<open>Outbox\<close>, \<open>Outbox_Relay\<close>, \<open>Outbox_Delivery\<close>: \<^verbatim>\<open>pkg/outbox/outbox.go\<close>, \<^verbatim>\<open>pkg/outbox/relay/relay.go\<close>;
    ordering, absence of loss and draining of streams under any interleaving of writers and relays.
  \<^item> \<open>Consumer_Model\<close>: the critical sections of \<^verbatim>\<open>runtime.go\<close>, \<^verbatim>\<open>committer.go\<close> and \<^verbatim>\<open>consumer.go\<close>;
    \<open>Consumer_System\<close>: their interleaving with the broker; \<open>Consumer_Safety\<close>, \<open>Consumer_Delivery\<close>: what is
    committed has been processed; \<open>Consumer_Flow\<close>: bounded buffers, pausing, back-pressure, retries.
  \<^item> \<open>Cursor\<close>: \<^verbatim>\<open>pkg/cursor/cursor.go\<close>.
  \<^item> \<open>Guild_Model\<close>: \<^verbatim>\<open>model/guilds.go\<close>, \<^verbatim>\<open>config/config.go\<close>; rows, limits, errors, environment.
  \<^item> \<open>Guild_Store\<close>: \<^verbatim>\<open>internal/store\<close> with the constraints and triggers of \<^verbatim>\<open>db/migrations\<close>.
  \<^item> \<open>Guild_Permissions\<close>: \<^verbatim>\<open>server/permissions.go\<close>. \<open>Guild_Events\<close>: \<^verbatim>\<open>server/events.go\<close>, \<^verbatim>\<open>server/outbox.go\<close>,
    \<^verbatim>\<open>server/errors.go\<close>, \<^verbatim>\<open>eventoutbox/\<close>. \<open>Guild_Validation\<close>: \<^verbatim>\<open>server/validation.go\<close>,
    \<^verbatim>\<open>server/channel_validation.go\<close>, \<^verbatim>\<open>server/idempotency.go\<close>. \<open>Guild_Cursors\<close>: \<^verbatim>\<open>server/cursors.go\<close>.
  \<^item> \<open>Guild_Spec\<close>, \<open>Guild_Policy\<close>: the abstract state of a set of guilds and the steps the policy
    permits to an actor; \<open>Guild_Refine\<close>: every store statement refines an abstract update;
    \<open>Guild_Contract\<close>: the two contracts every handler meets, \<open>safe\<close> (keys stay unique, the outbox
    only grows by well-formed batches) and \<open>sim a\<close> (the change is a sequence of permitted steps of
    \<open>a\<close>).
  \<^item> \<open>Guild_Roles\<close>, \<open>Guild_Members\<close>, \<open>Guild_Channels\<close>, \<open>Guild_Layout\<close>, \<open>Guild_Lifecycle\<close>,
    \<open>Guild_Visibility\<close>: the handlers of \<^verbatim>\<open>server/roles.go\<close>; \<^verbatim>\<open>members.go\<close> and \<^verbatim>\<open>bans.go\<close>; \<^verbatim>\<open>channels.go\<close>,
    \<^verbatim>\<open>channel_layout.go\<close> and \<^verbatim>\<open>channel_permissions.go\<close>; \<^verbatim>\<open>guilds.go\<close>, \<^verbatim>\<open>invites.go\<close> and
    \<^verbatim>\<open>icon_uploads.go\<close>; \<^verbatim>\<open>visibility.go\<close>.
  \<^item> \<open>Guild_System\<close>: the service as a transition system of calls and relay ticks. \<open>Guild_Demo\<close>: a
    concrete reachable state.
  \<^item> \<open>Guild_Access\<close>: the locale \<open>store_contract\<close>, which lifts a contract of the store's statements to
    every handler, and its use for the access revision; \<open>Guild_Rows\<close>: its use for the constraints of
    the tables.
  \<^item> \<open>Guild_Theorems\<close>, \<open>Guild_Behaviour\<close>, \<open>Guild_Pages\<close>: the properties of the service; policy and
    permissions, the behaviour of single handlers, pagination.

  \<^bold>\<open>What the lemmas show.\<close> Each handler is proved to keep \<open>safe\<close> and to satisfy \<open>sim\<close>; the policy's
  steps keep the invariant \<open>spec_inv\<close> and never raise anyone above what the acting group holds. The
  readers are proved to compute the permissions the specification defines on the abstract state.

  \<^bold>\<open>Bounds and fuel.\<close> The relay's loops take the number of iterations that fit in a time slice as
  the list of their ticks; draining is proved for enough of them. Retrying an invite code stops after
  the code's own three attempts. The retry loop of the consumer takes the list of its attempts, and is
  \<open>None\<close> while it goes on. No other definition is bounded.

  \<^bold>\<open>Simplifications.\<close> Transactions run one at a time: advisory locks and row locks have no effect.
  Reads that a handler makes before its transaction see a database \<open>pre\<close> of their own where the result
  is used inside; the profile that \<^verbatim>\<open>CreateGuild\<close> stores after its commit is stored in sequence.
  \<^verbatim>\<open>RETURNING\<close> lists rows in table order. Responses are the rows they are built from. The consumer takes
  its steps under the mutexes of the code one at a time, and its client is assumed to assign a partition
  again only after the records polled before have been queued (\<open>no_stale\<close>), which the lemma
  \<open>stale_record_committed\<close> shows to be necessary.

  \<^bold>\<open>Not modelled.\<close> Mention search and expansion and the profile projector of the guild service; the
  other services (authenticator, user, message, media, presence, session, gateway, dispatcher, api,
  mailer), for their state is disjoint from the guild service's; process wiring, tracing, metrics,
  generated protobuf code.
\<close>

end
